theory Spec2Isabelle
  imports Main "HOL-Library.Word"
begin

unbundle bit_operations_syntax

section \<open>Common definitions (common.h)\<close>

type_synonym byte = "8 word"

text \<open>
  The error codes of \<^verbatim>\<open>enum class ErrorCode\<close>. The C++ \<^verbatim>\<open>Error\<close> carries a code and a
  message; the model keeps the code. \<^verbatim>\<open>Error()\<close> is \<open>OK\<close>, and
  \<^verbatim>\<open>if (err)\<close> is \<open>err \<noteq> OK\<close>.
\<close>

datatype ErrorCode =
    OK
  | FILE_NOT_FOUND
  | FILE_OPEN_ERROR
  | FILE_READ_ERROR
  | FILE_WRITE_ERROR
  | COMPRESSION_ERROR
  | DECOMPRESSION_ERROR
  | INVALID_ARCHIVE
  | MEMORY_ERROR
  | CANCELLED
  | UNKNOWN_ERROR

definition DEFAULT_BUFFER_SIZE :: nat where
  "DEFAULT_BUFFER_SIZE = 2 * 1024 * 1024"

definition ZIP_VERSION_20 :: "16 word" where "ZIP_VERSION_20 = 20"
definition ZIP_VERSION_45 :: "16 word" where "ZIP_VERSION_45 = 45"
definition ZIP_METHOD_STORE :: "16 word" where "ZIP_METHOD_STORE = 0"
definition ZIP_METHOD_DEFLATE :: "16 word" where "ZIP_METHOD_DEFLATE = 8"
definition ZIP_FLAG_DATA_DESCRIPTOR :: "16 word" where "ZIP_FLAG_DATA_DESCRIPTOR = 0x0008"
definition ZIP_UINT32_MAX :: "32 word" where "ZIP_UINT32_MAX = 0xFFFFFFFF"
definition ZIP_UINT16_MAX :: "16 word" where "ZIP_UINT16_MAX = 0xFFFF"

definition LOCAL_FILE_HEADER_SIG :: "32 word" where "LOCAL_FILE_HEADER_SIG = 0x04034b50"
definition DATA_DESCRIPTOR_SIG :: "32 word" where "DATA_DESCRIPTOR_SIG = 0x08074b50"
definition CENTRAL_DIR_HEADER_SIG :: "32 word" where "CENTRAL_DIR_HEADER_SIG = 0x02014b50"
definition END_OF_CENTRAL_DIR_SIG :: "32 word" where "END_OF_CENTRAL_DIR_SIG = 0x06054b50"
definition ZIP64_END_OF_CENTRAL_DIR_SIG :: "32 word" where
  "ZIP64_END_OF_CENTRAL_DIR_SIG = 0x06064b50"
definition ZIP64_END_OF_CENTRAL_DIR_LOCATOR_SIG :: "32 word" where
  "ZIP64_END_OF_CENTRAL_DIR_LOCATOR_SIG = 0x07064b50"
definition EXTRA_ID_ZIP64 :: "16 word" where "EXTRA_ID_ZIP64 = 0x0001"

section \<open>ZipFileHeader (file\_task.h)\<close>

text \<open>The struct, field by field; \<open>h_method\<close> is its member \<^verbatim>\<open>method\<close>.\<close>

record ZipFileHeader =
  name :: "byte list"
  versionMadeBy :: "16 word"
  versionNeeded :: "16 word"
  flags :: "16 word"
  h_method :: "16 word"
  modTime :: "16 word"
  modDate :: "16 word"
  crc32 :: "32 word"
  compressedSize :: "64 word"
  uncompressedSize :: "64 word"
  externalAttr :: "32 word"
  extra :: "byte list"

text \<open>The default member initialisers of the struct.\<close>

definition ZipFileHeader_new :: ZipFileHeader where
  "ZipFileHeader_new =
     \<lparr> name = [], versionMadeBy = 0, versionNeeded = ZIP_VERSION_20, flags = 0,
       h_method = ZIP_METHOD_DEFLATE, modTime = 0, modDate = 0, crc32 = 0,
       compressedSize = 0, uncompressedSize = 0, externalAttr = 0, extra = [] \<rparr>"

definition isDirectory :: "ZipFileHeader \<Rightarrow> bool" where
  "isDirectory h = (name h \<noteq> [] \<and> last (name h) = 0x2F)"

definition isZip64 :: "ZipFileHeader \<Rightarrow> bool" where
  "isZip64 h = (compressedSize h \<ge> ucast ZIP_UINT32_MAX \<or> uncompressedSize h \<ge> ucast ZIP_UINT32_MAX)"

section \<open>File streams\<close>

text \<open>
  The standard library's file streams, reduced to what this code observes: whether the
  stream is open, whether it is still \<^verbatim>\<open>good()\<close>, and the bytes of the file. A write on a
  stream that is closed or no longer good stores nothing and leaves the stream failed; a
  failed stream stays failed (the code never calls \<^verbatim>\<open>clear()\<close>). Device failures are not
  generated by the model: a stream that starts failed stands for one.
\<close>

record fstream =
  is_open :: bool
  good :: bool
  contents :: "byte list"

definition ofs_write :: "fstream \<Rightarrow> byte list \<Rightarrow> fstream" where
  "ofs_write f bs =
     (if is_open f \<and> good f then f\<lparr>contents := contents f @ bs\<rparr> else f\<lparr>good := False\<rparr>)"

definition ofs_close :: "fstream \<Rightarrow> fstream" where
  "ofs_close f = (if is_open f then f\<lparr>is_open := False\<rparr> else f\<lparr>good := False\<rparr>)"

text \<open>
  \<^verbatim>\<open>seekg(pos); read(buf, n)\<close> with \<open>n = length buf\<close>: the bytes available from \<open>pos\<close>
  overwrite the front of \<open>buf\<close>; a short read leaves the stream failed.
\<close>

definition ifs_read_at :: "fstream \<Rightarrow> nat \<Rightarrow> byte list \<Rightarrow> fstream \<times> byte list" where
  "ifs_read_at f pos buf =
     (if \<not> (is_open f \<and> good f) then (f\<lparr>good := False\<rparr>, buf)
      else
        let got = take (length buf) (drop pos (contents f))
        in (if length got < length buf then f\<lparr>good := False\<rparr> else f,
            got @ drop (length got) buf))"

text \<open>
  \<^verbatim>\<open>std::vector::resize\<close>: truncate, or pad with zero bytes. For a size above
  \<^verbatim>\<open>max_size()\<close> it throws \<^verbatim>\<open>std::length_error\<close>, which no function of the reader catches:
  the result is \<open>None\<close>, and so is the result of every function the exception leaves. For a
  vector of bytes \<^verbatim>\<open>max_size()\<close> is \<open>2^63 - 1\<close> (\<^verbatim>\<open>PTRDIFF_MAX\<close>) with the standard libraries of
  64-bit Linux. An allocation that fails below that bound (\<^verbatim>\<open>std::bad_alloc\<close>) depends on the
  memory of the machine and is not generated by the model.
\<close>

definition vector_max_size :: nat where
  "vector_max_size = 2 ^ 63 - 1"

definition vec_resize :: "byte list \<Rightarrow> nat \<Rightarrow> byte list option" where
  "vec_resize v n =
     (if n > vector_max_size then None else Some (take n v @ replicate (n - length v) 0))"

section \<open>ZipWriter (zip\_writer.cpp)\<close>

text \<open>The \<^verbatim>\<open>write16\<close>, \<^verbatim>\<open>write32\<close> and \<^verbatim>\<open>write64\<close> lambdas: the bytes they push.\<close>

definition write16 :: "16 word \<Rightarrow> byte list" where
  "write16 v = [ucast (v AND 0xFF), ucast (drop_bit 8 v AND 0xFF)]"

definition write32 :: "32 word \<Rightarrow> byte list" where
  "write32 v = [ucast (v AND 0xFF), ucast (drop_bit 8 v AND 0xFF),
                ucast (drop_bit 16 v AND 0xFF), ucast (drop_bit 24 v AND 0xFF)]"

definition write64 :: "64 word \<Rightarrow> byte list" where
  "write64 v = [ucast (v AND 0xFF), ucast (drop_bit 8 v AND 0xFF),
                ucast (drop_bit 16 v AND 0xFF), ucast (drop_bit 24 v AND 0xFF),
                ucast (drop_bit 32 v AND 0xFF), ucast (drop_bit 40 v AND 0xFF),
                ucast (drop_bit 48 v AND 0xFF), ucast (drop_bit 56 v AND 0xFF)]"

text \<open>
  The members \<^verbatim>\<open>file_\<close>, \<^verbatim>\<open>centralDir_\<close>, \<^verbatim>\<open>comment_\<close> and \<^verbatim>\<open>currentOffset_\<close> of the
  class; a central-directory entry is the pair of the header and its local-header offset.
\<close>

record ZipWriter =
  zw_file :: fstream
  zw_centralDir :: "(ZipFileHeader \<times> 64 word) list"
  zw_comment :: "byte list"
  zw_currentOffset :: "64 word"

definition has_data_descriptor :: "ZipFileHeader \<Rightarrow> bool" where
  "has_data_descriptor h = (flags h AND ZIP_FLAG_DATA_DESCRIPTOR \<noteq> 0)"

text \<open>The buffer \<^verbatim>\<open>buf\<close> that \<^verbatim>\<open>writeLocalFileHeader\<close> assembles.\<close>

definition localFileHeader_buf :: "ZipFileHeader \<Rightarrow> byte list" where
  "localFileHeader_buf header =
     write32 LOCAL_FILE_HEADER_SIG
     @ write16 (if isZip64 header then ZIP_VERSION_45 else versionNeeded header)
     @ write16 (flags header)
     @ write16 (h_method header)
     @ write16 (modTime header)
     @ write16 (modDate header)
     @ (if has_data_descriptor header then write32 0 else write32 (crc32 header))
     @ (if has_data_descriptor header then write32 0
        else if isZip64 header then write32 ZIP_UINT32_MAX
        else write32 (ucast (compressedSize header)))
     @ (if has_data_descriptor header then write32 0
        else if isZip64 header then write32 ZIP_UINT32_MAX
        else write32 (ucast (uncompressedSize header)))
     @ write16 (of_nat (length (name header)))
     @ write16 (of_nat (length (extra header)))
     @ name header
     @ extra header"

definition writeLocalFileHeader :: "ZipWriter \<Rightarrow> ZipFileHeader \<Rightarrow> ErrorCode \<times> ZipWriter" where
  "writeLocalFileHeader w header =
     (let buf = localFileHeader_buf header;
          w1 = w\<lparr>zw_file := ofs_write (zw_file w) buf\<rparr>
      in if \<not> good (zw_file w1) then (FILE_WRITE_ERROR, w1)
         else (OK, w1\<lparr>zw_currentOffset := zw_currentOffset w1 + of_nat (length buf)\<rparr>))"

text \<open>The buffer \<^verbatim>\<open>buf\<close> that \<^verbatim>\<open>writeDataDescriptor\<close> assembles.\<close>

definition dataDescriptor_buf :: "ZipFileHeader \<Rightarrow> byte list" where
  "dataDescriptor_buf header =
     write32 DATA_DESCRIPTOR_SIG
     @ write32 (crc32 header)
     @ (if isZip64 header
        then write64 (compressedSize header) @ write64 (uncompressedSize header)
        else write32 (ucast (compressedSize header)) @ write32 (ucast (uncompressedSize header)))"

definition writeDataDescriptor :: "ZipWriter \<Rightarrow> ZipFileHeader \<Rightarrow> ErrorCode \<times> ZipWriter" where
  "writeDataDescriptor w header =
     (let buf = dataDescriptor_buf header;
          w1 = w\<lparr>zw_file := ofs_write (zw_file w) buf\<rparr>
      in if \<not> good (zw_file w1) then (FILE_WRITE_ERROR, w1)
         else (OK, w1\<lparr>zw_currentOffset := zw_currentOffset w1 + of_nat (length buf)\<rparr>))"

text \<open>
  The callback \<^verbatim>\<open>createRaw\<close> hands to the data provider: one write and one offset update
  per chunk. The data provider is modelled by the list of chunks it passes.
\<close>

definition write_chunk :: "ZipWriter \<Rightarrow> byte list \<Rightarrow> ZipWriter" where
  "write_chunk w chunk =
     w\<lparr>zw_file := ofs_write (zw_file w) chunk,
       zw_currentOffset := zw_currentOffset w + of_nat (length chunk)\<rparr>"

definition createRaw :: "ZipWriter \<Rightarrow> ZipFileHeader \<Rightarrow> byte list list \<Rightarrow> ErrorCode \<times> ZipWriter" where
  "createRaw w header dataProvider =
     (if \<not> is_open (zw_file w) then (FILE_OPEN_ERROR, w)
      else
        let entry = (header, zw_currentOffset w);
            (err, w1) = writeLocalFileHeader w header
        in if err \<noteq> OK then (err, w1)
           else
             let w2 = foldl write_chunk w1 dataProvider
             in if \<not> good (zw_file w2) then (FILE_WRITE_ERROR, w2)
                else if has_data_descriptor header then
                  (let (err2, w3) = writeDataDescriptor w2 header
                   in if err2 \<noteq> OK then (err2, w3)
                      else (OK, w3\<lparr>zw_centralDir := zw_centralDir w3 @ [entry]\<rparr>))
                else (OK, w2\<lparr>zw_centralDir := zw_centralDir w2 @ [entry]\<rparr>))"

text \<open>One iteration of the loop of \<^verbatim>\<open>writeCentralDirectory\<close>.\<close>

definition centralDir_entry_step :: "ZipWriter \<Rightarrow> ZipFileHeader \<times> 64 word \<Rightarrow> ZipWriter" where
  "centralDir_entry_step w entry =
     (let h = fst entry; localHeaderOffset = snd entry;
          needZip64 = (isZip64 h \<or> localHeaderOffset \<ge> ucast ZIP_UINT32_MAX);
          zip64Extra =
            (if needZip64
             then [ucast (EXTRA_ID_ZIP64 AND 0xFF), ucast (drop_bit 8 EXTRA_ID_ZIP64 AND 0xFF), 24, 0]
                  @ write64 (uncompressedSize h) @ write64 (compressedSize h)
                  @ write64 localHeaderOffset
             else []);
          extraLen = length (extra h) + length zip64Extra;
          buf = write32 CENTRAL_DIR_HEADER_SIG
                @ write16 (versionMadeBy h)
                @ write16 (if needZip64 then ZIP_VERSION_45 else versionNeeded h)
                @ write16 (flags h)
                @ write16 (h_method h)
                @ write16 (modTime h)
                @ write16 (modDate h)
                @ write32 (crc32 h)
                @ (if needZip64 then write32 ZIP_UINT32_MAX @ write32 ZIP_UINT32_MAX
                   else write32 (ucast (compressedSize h)) @ write32 (ucast (uncompressedSize h)))
                @ write16 (of_nat (length (name h)))
                @ write16 (of_nat extraLen)
                @ write16 0
                @ write16 0
                @ write16 0
                @ write32 (externalAttr h)
                @ (if localHeaderOffset > ucast ZIP_UINT32_MAX then write32 ZIP_UINT32_MAX
                   else write32 (ucast localHeaderOffset));
          w1 = w\<lparr>zw_file := ofs_write (zw_file w) buf,
                  zw_currentOffset := zw_currentOffset w + of_nat (length buf)\<rparr>;
          w2 = w1\<lparr>zw_file := ofs_write (zw_file w1) (name h),
                   zw_currentOffset := zw_currentOffset w1 + of_nat (length (name h))\<rparr>;
          w3 = (if extra h \<noteq> []
                then w2\<lparr>zw_file := ofs_write (zw_file w2) (extra h),
                         zw_currentOffset := zw_currentOffset w2 + of_nat (length (extra h))\<rparr>
                else w2)
      in if zip64Extra \<noteq> []
         then w3\<lparr>zw_file := ofs_write (zw_file w3) zip64Extra,
                  zw_currentOffset := zw_currentOffset w3 + of_nat (length zip64Extra)\<rparr>
         else w3)"

definition writeCentralDirectory :: "ZipWriter \<Rightarrow> ErrorCode \<times> ZipWriter" where
  "writeCentralDirectory w =
     (let w1 = foldl centralDir_entry_step w (zw_centralDir w)
      in if \<not> good (zw_file w1) then (FILE_WRITE_ERROR, w1) else (OK, w1))"

definition writeEndOfCentralDirectory :: "ZipWriter \<Rightarrow> 64 word \<Rightarrow> 64 word \<Rightarrow> ErrorCode \<times> ZipWriter" where
  "writeEndOfCentralDirectory w centralDirOffset centralDirSize =
     (let records0 = (of_nat (length (zw_centralDir w)) :: 64 word);
          needZip64 = (records0 \<ge> ucast ZIP_UINT16_MAX
                       \<or> centralDirSize \<ge> ucast ZIP_UINT32_MAX
                       \<or> centralDirOffset \<ge> ucast ZIP_UINT32_MAX);
          buf64 = write32 ZIP64_END_OF_CENTRAL_DIR_SIG
                  @ write64 44
                  @ write16 ZIP_VERSION_45
                  @ write16 ZIP_VERSION_45
                  @ write32 0
                  @ write32 0
                  @ write64 records0
                  @ write64 records0
                  @ write64 centralDirSize
                  @ write64 centralDirOffset
                  @ write32 ZIP64_END_OF_CENTRAL_DIR_LOCATOR_SIG
                  @ write32 0
                  @ write64 (zw_currentOffset w)
                  @ write32 1;
          w1 = (if needZip64
                then w\<lparr>zw_file := ofs_write (zw_file w) buf64,
                        zw_currentOffset := zw_currentOffset w + of_nat (length buf64)\<rparr>
                else w);
          records = (if needZip64 then ucast ZIP_UINT16_MAX else records0);
          size = (if needZip64 then ucast ZIP_UINT32_MAX else centralDirSize);
          offset = (if needZip64 then ucast ZIP_UINT32_MAX else centralDirOffset);
          buf = write32 END_OF_CENTRAL_DIR_SIG
                @ write16 0
                @ write16 0
                @ write16 (ucast records)
                @ write16 (ucast records)
                @ write32 (ucast size)
                @ write32 (ucast offset)
                @ write16 (of_nat (length (zw_comment w)));
          w2 = w1\<lparr>zw_file := ofs_write (zw_file w1) buf\<rparr>;
          w3 = (if zw_comment w \<noteq> [] then w2\<lparr>zw_file := ofs_write (zw_file w2) (zw_comment w)\<rparr> else w2)
      in if \<not> good (zw_file w3) then (FILE_WRITE_ERROR, w3) else (OK, w3))"

definition ZipWriter_close :: "ZipWriter \<Rightarrow> ErrorCode \<times> ZipWriter" where
  "ZipWriter_close w =
     (if \<not> is_open (zw_file w) then (OK, w)
      else
        let centralDirOffset = zw_currentOffset w;
            (err, w1) = writeCentralDirectory w
        in if err \<noteq> OK then (err, w1)
           else
             let centralDirSize = zw_currentOffset w1 - centralDirOffset;
                 (err2, w2) = writeEndOfCentralDirectory w1 centralDirOffset centralDirSize
             in if err2 \<noteq> OK then (err2, w2)
                else (OK, w2\<lparr>zw_file := ofs_close (zw_file w2)\<rparr>))"

definition setComment :: "ZipWriter \<Rightarrow> byte list \<Rightarrow> ZipWriter" where
  "setComment w c = w\<lparr>zw_comment := c\<rparr>"

text \<open>The state after a successful \<^verbatim>\<open>open()\<close>: an empty, good file and no entries.\<close>

definition ZipWriter_opened :: ZipWriter where
  "ZipWriter_opened =
     \<lparr> zw_file = \<lparr> is_open = True, good = True, contents = [] \<rparr>,
       zw_centralDir = [], zw_comment = [], zw_currentOffset = 0 \<rparr>"

section \<open>ZipReader (zip\_reader.cpp)\<close>

record ZipEntry =
  ze_header :: ZipFileHeader
  dataOffset :: "64 word"
  localHeaderOffset :: "64 word"

text \<open>
  The members \<^verbatim>\<open>file_\<close>, \<^verbatim>\<open>entries_\<close>, \<^verbatim>\<open>comment_\<close>, \<^verbatim>\<open>centralDirOffset_\<close>,
  \<^verbatim>\<open>centralDirSize_\<close> and \<^verbatim>\<open>totalEntries_\<close> of the class.
\<close>

record ZipReader =
  zr_file :: fstream
  zr_entries :: "ZipEntry list"
  zr_comment :: "byte list"
  zr_centralDirOffset :: "64 word"
  zr_centralDirSize :: "64 word"
  zr_totalEntries :: "32 word"

text \<open>The \<^verbatim>\<open>read16\<close> and \<^verbatim>\<open>read32\<close> lambdas, reading at the front of \<open>p\<close>.\<close>

definition read16 :: "byte list \<Rightarrow> 16 word" where
  "read16 p = ucast (p ! 0) OR push_bit 8 (ucast (p ! 1))"

definition read32 :: "byte list \<Rightarrow> 32 word" where
  "read32 p = ucast (p ! 0) OR push_bit 8 (ucast (p ! 1)) OR push_bit 16 (ucast (p ! 2))
              OR push_bit 24 (ucast (p ! 3))"

text \<open>The test of the backward scan at index \<open>i\<close>: the four signature bytes.\<close>

definition eocd_sig_at :: "byte list \<Rightarrow> nat \<Rightarrow> bool" where
  "eocd_sig_at buf i =
     (buf ! i = 0x50 \<and> buf ! (i + 1) = 0x4b \<and> buf ! (i + 2) = 0x05 \<and> buf ! (i + 3) = 0x06)"

text \<open>
  The loop \<^verbatim>\<open>for (int64_t i = maxSearch - 22; i >= 0; --i)\<close>, from index \<open>i\<close> down: the
  index of the first hit, or \<open>-1\<close>.
\<close>

function eocd_scan :: "byte list \<Rightarrow> int \<Rightarrow> int" where
  "eocd_scan buf i =
     (if i < 0 then -1
      else if eocd_sig_at buf (nat i) then i
      else eocd_scan buf (i - 1))"
  by pat_completeness auto
termination
  by (relation "measure (\<lambda>(buf, i). nat (i + 1))") auto

declare eocd_scan.simps [simp del]

definition EOCD_MAX_SEARCH :: nat where
  "EOCD_MAX_SEARCH = 65536 + 22"

text \<open>
  \<^verbatim>\<open>tellg()\<close> at the end of the file gives its size; on a failed stream it gives \<open>-1\<close>,
  which the cast to \<^verbatim>\<open>size_t\<close> turns into \<open>2^64 - 1\<close>.
\<close>

definition eocd_maxSearch :: "fstream \<Rightarrow> nat" where
  "eocd_maxSearch f =
     (let fileSize = (if is_open f \<and> good f then length (contents f) else 2 ^ 64 - 1)
      in min fileSize EOCD_MAX_SEARCH)"

text \<open>The vector \<^verbatim>\<open>buf\<close> after the read of the last \<open>maxSearch\<close> bytes of the file.\<close>

definition eocd_buf :: "fstream \<Rightarrow> byte list" where
  "eocd_buf f =
     (let maxSearch = eocd_maxSearch f
      in snd (ifs_read_at f (length (contents f) - maxSearch) (replicate maxSearch 0)))"

definition readEndOfCentralDirectory :: "ZipReader \<Rightarrow> ErrorCode \<times> ZipReader" where
  "readEndOfCentralDirectory r =
     (let maxSearch = eocd_maxSearch (zr_file r);
          (f1, buf) = ifs_read_at (zr_file r) (length (contents (zr_file r)) - maxSearch)
                        (replicate maxSearch 0);
          r1 = r\<lparr>zr_file := f1\<rparr>;
          sigOffset = eocd_scan buf (int maxSearch - 22)
      in if sigOffset < 0 then (INVALID_ARCHIVE, r1)
         else
           let p = drop (nat sigOffset + 4) buf;
               totalEntries = read16 (drop 6 p);
               centralDirSize = read32 (drop 8 p);
               centralDirOffset = read32 (drop 12 p);
               commentLen = read16 (drop 16 p);
               r2 = r1\<lparr>zr_totalEntries := ucast totalEntries,
                        zr_centralDirSize := ucast centralDirSize,
                        zr_centralDirOffset := ucast centralDirOffset\<rparr>
           in if commentLen > 0 \<and> nat sigOffset + 22 + unat commentLen \<le> maxSearch
              then (OK, r2\<lparr>zr_comment := take (unat commentLen) (drop 18 p)\<rparr>)
              else (OK, r2))"

text \<open>
  \<^verbatim>\<open>readCompressed\<close>. \<^verbatim>\<open>seekg\<close> takes the offset as a \<^verbatim>\<open>std::streamoff\<close>, a signed 64-bit
  integer: an offset of \<open>2^63\<close> or more is negative there, the seek fails and leaves the
  stream failed, and the read that follows stores nothing.
\<close>

definition readCompressed :: "ZipReader \<Rightarrow> ZipEntry \<Rightarrow> byte list \<Rightarrow> (ErrorCode \<times> ZipReader \<times> byte list) option" where
  "readCompressed r entry buffer =
     (case vec_resize buffer (unat (compressedSize (ze_header entry))) of
        None \<Rightarrow> None
      | Some buffer0 \<Rightarrow>
          (let (f1, buffer1) =
                 (if sint (dataOffset entry) < 0 then ((zr_file r)\<lparr>good := False\<rparr>, buffer0)
                  else ifs_read_at (zr_file r) (unat (dataOffset entry)) buffer0);
               r1 = r\<lparr>zr_file := f1\<rparr>
           in if \<not> good f1 then Some (FILE_READ_ERROR, r1, buffer1) else Some (OK, r1, buffer1)))"

text \<open>
  The zlib entry points the reader calls, as parameters: whether \<^verbatim>\<open>inflateInit2\<close> returns
  \<^verbatim>\<open>Z_OK\<close>; \<^verbatim>\<open>inflate(&strm, Z_FINISH)\<close> as a function of the input and of the capacity of the
  output buffer, giving the return code and the bytes produced; and \<^verbatim>\<open>crc32(0, data, size)\<close>,
  which \<^verbatim>\<open>utils::crc32\<close> forwards to.
\<close>

record zlib =
  inflateInit2_ok :: bool
  inflate :: "byte list \<Rightarrow> nat \<Rightarrow> int \<times> byte list"
  zlib_crc32 :: "byte list \<Rightarrow> 32 word"

definition Z_STREAM_END :: int where "Z_STREAM_END = 1"

text \<open>
  \<^verbatim>\<open>readDecompressed\<close>. The fields \<^verbatim>\<open>avail_in\<close> and \<^verbatim>\<open>avail_out\<close> of \<^verbatim>\<open>z_stream\<close> are
  \<^verbatim>\<open>unsigned int\<close>: the sizes of the two vectors are assigned to them modulo \<open>2^32\<close>, so that
  \<^verbatim>\<open>inflate\<close> sees that many bytes of input and that much room. What \<^verbatim>\<open>inflate\<close> produces
  overwrites the front of the output buffer; the CRC is taken over the whole buffer.
\<close>

definition readDecompressed :: "zlib \<Rightarrow> ZipReader \<Rightarrow> ZipEntry \<Rightarrow> byte list \<Rightarrow> (ErrorCode \<times> ZipReader \<times> byte list) option" where
  "readDecompressed z r entry buffer =
     (if h_method (ze_header entry) = ZIP_METHOD_STORE then readCompressed r entry buffer
      else if h_method (ze_header entry) \<noteq> ZIP_METHOD_DEFLATE
      then Some (DECOMPRESSION_ERROR, r, buffer)
      else
        case readCompressed r entry [] of
          None \<Rightarrow> None
        | Some (err, r1, compressed) \<Rightarrow>
            if err \<noteq> OK then Some (err, r1, buffer)
            else
              case vec_resize buffer (unat (uncompressedSize (ze_header entry))) of
                None \<Rightarrow> None
              | Some buffer1 \<Rightarrow>
                  if \<not> inflateInit2_ok z then Some (DECOMPRESSION_ERROR, r1, buffer1)
                  else
                    let avail_in = length compressed mod 2 ^ 32;
                        avail_out = length buffer1 mod 2 ^ 32;
                        (ret, out) = inflate z (take avail_in compressed) avail_out;
                        produced = take avail_out out;
                        buffer2 = produced @ drop (length produced) buffer1
                    in if ret \<noteq> Z_STREAM_END then Some (DECOMPRESSION_ERROR, r1, buffer2)
                       else if zlib_crc32 z buffer2 \<noteq> crc32 (ze_header entry)
                       then Some (DECOMPRESSION_ERROR, r1, buffer2)
                       else Some (OK, r1, buffer2))"

text \<open>
  The part of the file system \<^verbatim>\<open>extractTo\<close> touches: the regular files with their contents
  and the directories. Whether \<^verbatim>\<open>create_directories\<close> and the opening of the output file
  succeed is decided outside the program and given as arguments. Modes and times are
  not modelled. When \<^verbatim>\<open>readDecompressed\<close> throws, the output file has not been opened.
\<close>

record filesystem =
  files :: "string \<rightharpoonup> byte list"
  dirs :: "string set"

definition extractTo :: "zlib \<Rightarrow> bool \<Rightarrow> bool \<Rightarrow> ZipReader \<Rightarrow> ZipEntry \<Rightarrow> string \<Rightarrow> string \<Rightarrow> filesystem
                          \<Rightarrow> (ErrorCode \<times> ZipReader \<times> filesystem) option" where
  "extractTo z mkdir_ok open_ok r entry outputPath parentPath fs =
     (if isDirectory (ze_header entry) then
        (if \<not> mkdir_ok then Some (FILE_WRITE_ERROR, r, fs)
         else Some (OK, r, fs\<lparr>dirs := insert outputPath (dirs fs)\<rparr>))
      else
        let fs1 = (if mkdir_ok then fs\<lparr>dirs := insert parentPath (dirs fs)\<rparr> else fs)
        in case readDecompressed z r entry [] of
             None \<Rightarrow> None
           | Some (err, r1, data) \<Rightarrow>
               if err \<noteq> OK then Some (err, r1, fs1)
               else if \<not> open_ok then Some (FILE_WRITE_ERROR, r1, fs1)
               else Some (OK, r1, fs1\<lparr>files := (files fs1)(outputPath \<mapsto> data)\<rparr>))"

section \<open>FileTask (file\_task.h and its implementation)\<close>

text \<open>
  The members of the class that carry the compressed data, \<^verbatim>\<open>buffer_\<close>, \<^verbatim>\<open>bufferUsed_\<close>,
  \<^verbatim>\<open>overflow_\<close> (a null pointer is \<open>None\<close>) and \<^verbatim>\<open>written_\<close>, and the public members
  \<^verbatim>\<open>fileSize\<close>, \<^verbatim>\<open>header\<close>, \<^verbatim>\<open>isSymlink\<close> and \<^verbatim>\<open>symlinkTarget\<close>. Sizes are \<^verbatim>\<open>size_t\<close>
  in the source and natural numbers here.
\<close>

record FileTask =
  ft_buffer :: "byte list"
  ft_bufferUsed :: nat
  ft_overflow :: "fstream option"
  ft_written :: nat
  fileSize :: nat
  ft_header :: ZipFileHeader
  isSymlink :: bool
  symlinkTarget :: "byte list"

text \<open>The constructor: \<^verbatim>\<open>buffer_.resize(DEFAULT_BUFFER_SIZE)\<close>.\<close>

definition FileTask_new :: FileTask where
  "FileTask_new =
     \<lparr> ft_buffer = replicate DEFAULT_BUFFER_SIZE 0, ft_bufferUsed = 0, ft_overflow = None,
       ft_written = 0, fileSize = 0, ft_header = ZipFileHeader_new, isSymlink = False,
       symlinkTarget = [] \<rparr>"

definition written :: "FileTask \<Rightarrow> nat" where
  "written t = ft_written t"

definition overflowed :: "FileTask \<Rightarrow> bool" where
  "overflowed t = (ft_overflow t \<noteq> None)"

text \<open>
  \<^verbatim>\<open>FileTask::write\<close>. Whether the temporary file can be opened is decided outside the
  program: \<open>open_ok\<close>. The result is the return value and the task afterwards.
\<close>

definition FileTask_write :: "bool \<Rightarrow> FileTask \<Rightarrow> byte list \<Rightarrow> nat \<times> FileTask" where
  "FileTask_write open_ok t data0 =
     (let available = length (ft_buffer t) - ft_bufferUsed t;
          toWrite = (if available > 0 then min available (length data0) else 0);
          t1 = (if available > 0
                then t\<lparr>ft_buffer := take (ft_bufferUsed t) (ft_buffer t) @ take toWrite data0
                                       @ drop (ft_bufferUsed t + toWrite) (ft_buffer t),
                        ft_bufferUsed := ft_bufferUsed t + toWrite\<rparr>
                else t);
          totalWritten = toWrite;
          data1 = drop toWrite data0
      in if length data1 > 0 then
           (let t2 = (case ft_overflow t1 of
                        None \<Rightarrow> t1\<lparr>ft_overflow := Some \<lparr>is_open = open_ok, good = open_ok, contents = []\<rparr>\<rparr>
                      | Some _ \<Rightarrow> t1)
            in if ft_overflow t1 = None \<and> \<not> open_ok then (totalWritten, t2)
               else
                 let t3 = t2\<lparr>ft_overflow := map_option (\<lambda>f. ofs_write f data1) (ft_overflow t2)\<rparr>;
                     totalWritten1 = totalWritten + length data1
                 in (totalWritten1, t3\<lparr>ft_written := ft_written t3 + totalWritten1\<rparr>))
         else (totalWritten, t1\<lparr>ft_written := ft_written t1 + totalWritten\<rparr>))"

text \<open>
  What the file-system calls of \<^verbatim>\<open>FileTask::reset\<close> answer: whether \<^verbatim>\<open>symlink_status\<close>
  succeeds and what kind of file it reports, the link target and the file size (or their
  failure), the archive name computed from the two paths, and the mode \<^verbatim>\<open>stat\<close> gives.
\<close>

record reset_probe =
  status_ok :: bool
  status_is_symlink :: bool
  status_is_regular :: bool
  status_is_directory :: bool
  probe_read_symlink :: "byte list option"
  probe_file_size :: "nat option"
  probe_zip_name :: "byte list"
  probe_mode :: "32 word option"

definition FileTask_reset :: "reset_probe \<Rightarrow> FileTask \<Rightarrow> ErrorCode \<times> FileTask" where
  "FileTask_reset env t =
     (let t1 = t\<lparr>ft_overflow := None, ft_bufferUsed := 0, ft_written := 0, isSymlink := False,
                  symlinkTarget := []\<rparr>
      in if \<not> status_ok env then (FILE_NOT_FOUND, t1)
         else
           let t2 = t1\<lparr>isSymlink := status_is_symlink env\<rparr>
           in if isSymlink t2 \<and> probe_read_symlink env = None
              then (FILE_READ_ERROR, t2\<lparr>symlinkTarget := []\<rparr>)
              else if \<not> isSymlink t2 \<and> status_is_regular env \<and> probe_file_size env = None
              then (FILE_READ_ERROR, t2)
              else
                let t3 = (if isSymlink t2
                          then t2\<lparr>symlinkTarget := the (probe_read_symlink env),
                                  fileSize := length (the (probe_read_symlink env))\<rparr>
                          else if status_is_regular env
                          then t2\<lparr>fileSize := the (probe_file_size env)\<rparr>
                          else t2\<lparr>fileSize := 0\<rparr>);
                    nm = probe_zip_name env;
                    nm1 = (if status_is_directory env \<and> nm \<noteq> [] \<and> last nm \<noteq> 0x2F
                           then nm @ [0x2F] else nm);
                    h = ZipFileHeader_new\<lparr>name := nm1\<rparr>;
                    h1 = (case probe_mode env of
                            None \<Rightarrow> h
                          | Some m \<Rightarrow> h\<lparr>externalAttr := push_bit 16 m\<rparr>)
                in (OK, t3\<lparr>ft_header := h1\<rparr>))"

section \<open>Auxiliary definitions for the statements about the ZIP layer\<close>

text \<open>The value of eight bytes read little-endian, as \<^verbatim>\<open>read32\<close> does for four.\<close>

definition le64 :: "byte list \<Rightarrow> 64 word" where
  "le64 p = ucast (p ! 0) OR push_bit 8 (ucast (p ! 1)) OR push_bit 16 (ucast (p ! 2))
            OR push_bit 24 (ucast (p ! 3)) OR push_bit 32 (ucast (p ! 4))
            OR push_bit 40 (ucast (p ! 5)) OR push_bit 48 (ucast (p ! 6))
            OR push_bit 56 (ucast (p ! 7))"

text \<open>A header with the data-descriptor flag set, used as a concrete input.\<close>

definition example_header :: ZipFileHeader where
  "example_header = ZipFileHeader_new\<lparr>name := [0x61], flags := 0x0008, crc32 := 0x12345678,
     compressedSize := 3, uncompressedSize := 5\<rparr>"

text \<open>The last \<open>n\<close> bytes of a file (all of it when it is shorter).\<close>

definition last_bytes :: "nat \<Rightarrow> byte list \<Rightarrow> byte list" where
  "last_bytes n xs = drop (length xs - n) xs"

text \<open>Whether the four signature bytes \<^verbatim>\<open>50 4b 05 06\<close> occur anywhere in a byte sequence.\<close>

fun sig_occurs :: "byte list \<Rightarrow> bool" where
  "sig_occurs (a # b # c # d # xs) =
     ((a = 0x50 \<and> b = 0x4b \<and> c = 0x05 \<and> d = 0x06) \<or> sig_occurs (b # c # d # xs))"
| "sig_occurs _ = False"

text \<open>The reader inside \<^verbatim>\<open>open()\<close>, after the file \<open>F\<close> has been opened successfully.\<close>

definition ZipReader_opened :: "byte list \<Rightarrow> ZipReader" where
  "ZipReader_opened F =
     \<lparr> zr_file = \<lparr> is_open = True, good = True, contents = F \<rparr>, zr_entries = [],
       zr_comment = [], zr_centralDirOffset = 0, zr_centralDirSize = 0, zr_totalEntries = 0 \<rparr>"

text \<open>A file of 65 558 bytes whose first four bytes are the signature.\<close>

definition eocd_example :: "byte list" where
  "eocd_example = [0x50, 0x4b, 0x05, 0x06] @ replicate 65554 0"

text \<open>The stream is usable, the file has fewer than \<open>2^63\<close> bytes (its size is a
  \<^verbatim>\<open>std::streamoff\<close>), and the member's \<^verbatim>\<open>compressedSize\<close> bytes at \<^verbatim>\<open>dataOffset\<close> lie inside
  the file, so that the read of \<^verbatim>\<open>readCompressed\<close> succeeds.\<close>

definition member_readable :: "ZipReader \<Rightarrow> ZipEntry \<Rightarrow> bool" where
  "member_readable r entry =
     (is_open (zr_file r) \<and> good (zr_file r)
      \<and> length (contents (zr_file r)) \<le> vector_max_size
      \<and> unat (dataOffset entry) + unat (compressedSize (ze_header entry))
          \<le> length (contents (zr_file r)))"

text \<open>The bytes of the member as stored in the archive.\<close>

definition member_bytes :: "ZipReader \<Rightarrow> ZipEntry \<Rightarrow> byte list" where
  "member_bytes r entry =
     take (unat (compressedSize (ze_header entry)))
       (drop (unat (dataOffset entry)) (contents (zr_file r)))"



text \<open>Concrete inputs for the reader: a stand-in for zlib whose \<^verbatim>\<open>crc32\<close> is constantly 0, an
  entry of three bytes at offset 1 whose header CRC is 1, and an empty file system.\<close>

definition example_zlib :: zlib where
  "example_zlib = \<lparr> inflateInit2_ok = True, inflate = (\<lambda>input cap. (1, take cap input)),
                     zlib_crc32 = (\<lambda>_. 0) \<rparr>"

definition example_entry :: "16 word \<Rightarrow> ZipEntry" where
  "example_entry m =
     \<lparr> ze_header = ZipFileHeader_new\<lparr>name := [0x61], h_method := m, crc32 := 1,
                     compressedSize := 3, uncompressedSize := 3\<rparr>,
       dataOffset = 1, localHeaderOffset = 0 \<rparr>"

definition example_fs :: filesystem where
  "example_fs = \<lparr> files = Map.empty, dirs = {} \<rparr>"








text \<open>
  An archive of two end-of-central-directory records of 22 bytes: the first declares one
  entry and a central directory of 3 bytes at offset 4, the second two entries and a central
  directory of 5 bytes at offset 6.
\<close>

definition two_eocd_file :: "byte list" where
  "two_eocd_file =
     [0x50, 0x4b, 0x05, 0x06, 0, 0, 0, 0, 1, 0, 1, 0, 3, 0, 0, 0, 4, 0, 0, 0, 0, 0]
     @ [0x50, 0x4b, 0x05, 0x06, 0, 0, 0, 0, 2, 0, 2, 0, 5, 0, 0, 0, 6, 0, 0, 0, 0, 0]"

text \<open>The bytes a task holds: the used part of the memory buffer, then the overflow file.\<close>

definition FileTask_stored :: "FileTask \<Rightarrow> byte list" where
  "FileTask_stored t =
     take (ft_bufferUsed t) (ft_buffer t)
     @ (case ft_overflow t of None \<Rightarrow> [] | Some f \<Rightarrow> contents f)"

text \<open>The state of a task between calls when every temporary file could be opened: the
  overflow file exists only once the buffer is full, and its stream is usable.\<close>

definition FileTask_inv :: "FileTask \<Rightarrow> bool" where
  "FileTask_inv t =
     (ft_bufferUsed t \<le> length (ft_buffer t)
      \<and> (case ft_overflow t of None \<Rightarrow> True
          | Some f \<Rightarrow> is_open f \<and> good f \<and> ft_bufferUsed t = length (ft_buffer t)))"

section \<open>DEFLATE encoder: constants and tables (fast\_deflate.h, fast\_deflate.cpp)\<close>

type_synonym Token = "32 word"

definition TABLE_BITS :: nat where "TABLE_BITS = 15"
definition BASE_MATCH_LENGTH :: nat where "BASE_MATCH_LENGTH = 3"
definition MAX_MATCH_LENGTH :: nat where "MAX_MATCH_LENGTH = 258"
definition MAX_MATCH_OFFSET :: int where "MAX_MATCH_OFFSET = 32768"
definition MAX_STORE_BLOCK_SIZE :: nat where "MAX_STORE_BLOCK_SIZE = 65535"
definition ALLOC_HISTORY :: nat where "ALLOC_HISTORY = 65535 * 5"
definition PRIME_4_BYTES :: "32 word" where "PRIME_4_BYTES = 2654435761"
definition PRIME_5_BYTES :: "64 word" where "PRIME_5_BYTES = 889523592379"
definition PRIME_7_BYTES :: "64 word" where "PRIME_7_BYTES = 58295818150454627"
definition OFFSET_CODE_COUNT :: nat where "OFFSET_CODE_COUNT = 30"
definition END_BLOCK_MARKER :: nat where "END_BLOCK_MARKER = 256"
definition LENGTH_CODES_START :: nat where "LENGTH_CODES_START = 257"
definition LITERAL_COUNT :: nat where "LITERAL_COUNT = 286"
definition BUFFER_FLUSH_SIZE :: nat where "BUFFER_FLUSH_SIZE = 246"
definition LENGTH_SHIFT :: nat where "LENGTH_SHIFT = 22"
definition OFFSET_MASK :: "32 word" where "OFFSET_MASK = 0x3FFFFF"
definition MATCH_TYPE :: "32 word" where "MATCH_TYPE = 0x40000000"

definition lengthCodes1 :: "8 word list" where
  "lengthCodes1 = [
     1, 2, 3, 4, 5, 6, 7, 8, 9, 9, 10, 10, 11, 11, 12, 12,
     13, 13, 13, 13, 14, 14, 14, 14, 15, 15, 15, 15, 16, 16, 16, 16,
     17, 17, 17, 17, 17, 17, 17, 17, 18, 18, 18, 18, 18, 18, 18, 18,
     19, 19, 19, 19, 19, 19, 19, 19, 20, 20, 20, 20, 20, 20, 20, 20,
     21, 21, 21, 21, 21, 21, 21, 21, 21, 21, 21, 21, 21, 21, 21, 21,
     22, 22, 22, 22, 22, 22, 22, 22, 22, 22, 22, 22, 22, 22, 22, 22,
     23, 23, 23, 23, 23, 23, 23, 23, 23, 23, 23, 23, 23, 23, 23, 23,
     24, 24, 24, 24, 24, 24, 24, 24, 24, 24, 24, 24, 24, 24, 24, 24,
     25, 25, 25, 25, 25, 25, 25, 25, 25, 25, 25, 25, 25, 25, 25, 25,
     25, 25, 25, 25, 25, 25, 25, 25, 25, 25, 25, 25, 25, 25, 25, 25,
     26, 26, 26, 26, 26, 26, 26, 26, 26, 26, 26, 26, 26, 26, 26, 26,
     26, 26, 26, 26, 26, 26, 26, 26, 26, 26, 26, 26, 26, 26, 26, 26,
     27, 27, 27, 27, 27, 27, 27, 27, 27, 27, 27, 27, 27, 27, 27, 27,
     27, 27, 27, 27, 27, 27, 27, 27, 27, 27, 27, 27, 27, 27, 27, 27,
     28, 28, 28, 28, 28, 28, 28, 28, 28, 28, 28, 28, 28, 28, 28, 28,
     28, 28, 28, 28, 28, 28, 28, 28, 28, 28, 28, 28, 28, 28, 28, 29]"

definition offsetCodes :: "32 word list" where
  "offsetCodes = [
     0, 1, 2, 3, 4, 4, 5, 5, 6, 6, 6, 6, 7, 7, 7, 7,
     8, 8, 8, 8, 8, 8, 8, 8, 9, 9, 9, 9, 9, 9, 9, 9,
     10, 10, 10, 10, 10, 10, 10, 10, 10, 10, 10, 10, 10, 10, 10, 10,
     11, 11, 11, 11, 11, 11, 11, 11, 11, 11, 11, 11, 11, 11, 11, 11,
     12, 12, 12, 12, 12, 12, 12, 12, 12, 12, 12, 12, 12, 12, 12, 12,
     12, 12, 12, 12, 12, 12, 12, 12, 12, 12, 12, 12, 12, 12, 12, 12,
     13, 13, 13, 13, 13, 13, 13, 13, 13, 13, 13, 13, 13, 13, 13, 13,
     13, 13, 13, 13, 13, 13, 13, 13, 13, 13, 13, 13, 13, 13, 13, 13,
     14, 14, 14, 14, 14, 14, 14, 14, 14, 14, 14, 14, 14, 14, 14, 14,
     14, 14, 14, 14, 14, 14, 14, 14, 14, 14, 14, 14, 14, 14, 14, 14,
     14, 14, 14, 14, 14, 14, 14, 14, 14, 14, 14, 14, 14, 14, 14, 14,
     14, 14, 14, 14, 14, 14, 14, 14, 14, 14, 14, 14, 14, 14, 14, 14,
     15, 15, 15, 15, 15, 15, 15, 15, 15, 15, 15, 15, 15, 15, 15, 15,
     15, 15, 15, 15, 15, 15, 15, 15, 15, 15, 15, 15, 15, 15, 15, 15,
     15, 15, 15, 15, 15, 15, 15, 15, 15, 15, 15, 15, 15, 15, 15, 15,
     15, 15, 15, 15, 15, 15, 15, 15, 15, 15, 15, 15, 15, 15, 15, 15]"

definition offsetCodes14 :: "32 word list" where
  "offsetCodes14 = [
     14, 15, 16, 17, 18, 18, 19, 19, 20, 20, 20, 20, 21, 21, 21, 21,
     22, 22, 22, 22, 22, 22, 22, 22, 23, 23, 23, 23, 23, 23, 23, 23,
     24, 24, 24, 24, 24, 24, 24, 24, 24, 24, 24, 24, 24, 24, 24, 24,
     25, 25, 25, 25, 25, 25, 25, 25, 25, 25, 25, 25, 25, 25, 25, 25,
     26, 26, 26, 26, 26, 26, 26, 26, 26, 26, 26, 26, 26, 26, 26, 26,
     26, 26, 26, 26, 26, 26, 26, 26, 26, 26, 26, 26, 26, 26, 26, 26,
     27, 27, 27, 27, 27, 27, 27, 27, 27, 27, 27, 27, 27, 27, 27, 27,
     27, 27, 27, 27, 27, 27, 27, 27, 27, 27, 27, 27, 27, 27, 27, 27,
     28, 28, 28, 28, 28, 28, 28, 28, 28, 28, 28, 28, 28, 28, 28, 28,
     28, 28, 28, 28, 28, 28, 28, 28, 28, 28, 28, 28, 28, 28, 28, 28,
     28, 28, 28, 28, 28, 28, 28, 28, 28, 28, 28, 28, 28, 28, 28, 28,
     28, 28, 28, 28, 28, 28, 28, 28, 28, 28, 28, 28, 28, 28, 28, 28,
     29, 29, 29, 29, 29, 29, 29, 29, 29, 29, 29, 29, 29, 29, 29, 29,
     29, 29, 29, 29, 29, 29, 29, 29, 29, 29, 29, 29, 29, 29, 29, 29,
     29, 29, 29, 29, 29, 29, 29, 29, 29, 29, 29, 29, 29, 29, 29, 29,
     29, 29, 29, 29, 29, 29, 29, 29, 29, 29, 29, 29, 29, 29, 29, 29]"

definition lengthExtraBits :: "8 word list" where
  "lengthExtraBits = [
     0, 0, 0, 0, 0, 0, 0, 0, 1, 1, 1, 1, 2, 2, 2, 2,
     3, 3, 3, 3, 4, 4, 4, 4, 5, 5, 5, 5, 0, 0, 0, 0]"

definition lengthBase :: "8 word list" where
  "lengthBase = [
     0, 1, 2, 3, 4, 5, 6, 7, 8, 10, 12, 14, 16, 20, 24, 28,
     32, 40, 48, 56, 64, 80, 96, 112, 128, 160, 192, 224, 255, 0, 0, 0]"

definition offsetExtraBits :: "8 word list" where
  "offsetExtraBits = [
     0, 0, 0, 0, 1, 1, 2, 2, 3, 3, 4, 4, 5, 5, 6, 6,
     7, 7, 8, 8, 9, 9, 10, 10, 11, 11, 12, 12, 13, 13, 14, 14]"

definition offsetBase :: "32 word list" where
  "offsetBase = [
     0x000000, 0x000001, 0x000002, 0x000003, 0x000004,
     0x000006, 0x000008, 0x00000c, 0x000010, 0x000018,
     0x000020, 0x000030, 0x000040, 0x000060, 0x000080,
     0x0000c0, 0x000100, 0x000180, 0x000200, 0x000300,
     0x000400, 0x000600, 0x000800, 0x000c00, 0x001000,
     0x001800, 0x002000, 0x003000, 0x004000, 0x006000,
     0x008000, 0x00c000]"

definition codegenOrder :: "nat list" where
  "codegenOrder = [
     16, 17, 18, 0, 8, 7, 9, 6, 10, 5, 11, 4, 12, 3, 13, 2, 14, 1, 15]"

text \<open>
  \<^verbatim>\<open>offsetCombined\<close> is filled in by the static initialiser \<^verbatim>\<open>StaticInit\<close>; entries it skips
  stay zero.
\<close>

definition offsetCombined :: "32 word list" where
  "offsetCombined =
     map (\<lambda>i. if offsetExtraBits ! i = 0 \<or> offsetBase ! i > 0x006000 then 0
              else ucast (offsetExtraBits ! i) OR push_bit 8 (offsetBase ! i))
       [0..<32]"

text \<open>
  Integer division of C++, which truncates towards zero, and the counts of leading and
  trailing zero bits (\<^verbatim>\<open>CLZ32\<close>, \<^verbatim>\<open>CTZ64\<close>).
\<close>

definition tdiv :: "int \<Rightarrow> int \<Rightarrow> int" where
  "tdiv a b = sgn a * sgn b * (\<bar>a\<bar> div \<bar>b\<bar>)"

definition CLZ32 :: "32 word \<Rightarrow> nat" where
  "CLZ32 x = length (takeWhile Not (rev (map (bit x) [0..<32])))"

definition CTZ64 :: "64 word \<Rightarrow> nat" where
  "CTZ64 x = length (takeWhile Not (map (bit x) [0..<64]))"

text \<open>
  \<^verbatim>\<open>load32\<close> and \<^verbatim>\<open>load64\<close> copy four and eight bytes from a buffer on a little-endian
  machine. A read that is not inside the buffer is undefined in the source and \<open>None\<close>
  here. Indices are \<^verbatim>\<open>int32_t\<close> in the source and integers here.
\<close>

definition load32 :: "byte list \<Rightarrow> int \<Rightarrow> 32 word option" where
  "load32 b i = (if 0 \<le> i \<and> nat i + 4 \<le> length b then Some (read32 (drop (nat i) b)) else None)"

definition load64 :: "byte list \<Rightarrow> int \<Rightarrow> 64 word option" where
  "load64 b i = (if 0 \<le> i \<and> nat i + 8 \<le> length b then Some (le64 (drop (nat i) b)) else None)"

definition hash4 :: "32 word \<Rightarrow> nat" where
  "hash4 u = unat (drop_bit 17 (u * PRIME_4_BYTES))"

definition hash5 :: "64 word \<Rightarrow> nat" where
  "hash5 u = unat (ucast (drop_bit 49 (push_bit 24 u * PRIME_5_BYTES)) :: 32 word)"

definition hash7 :: "64 word \<Rightarrow> nat" where
  "hash7 u = unat (ucast (drop_bit 49 (push_bit 8 u * PRIME_7_BYTES)) :: 32 word)"

definition offsetCode :: "32 word \<Rightarrow> 32 word" where
  "offsetCode off =
     (if off < 256 then offsetCodes ! unat off
      else offsetCodes14 ! unat (drop_bit 7 off AND 0xFF))"

section \<open>Tokens\<close>

text \<open>
  The struct \<^verbatim>\<open>Tokens\<close>. Its fixed-size arrays are functions from the index: every index the
  code uses is below the size of its array, by the type of the index (\<^verbatim>\<open>uint16_t n\<close> for
  the 65 536 tokens, a byte for \<^verbatim>\<open>litHist\<close>) or by the tables (\<^verbatim>\<open>lengthCodes1\<close> has values
  up to 29) and the mask \<^verbatim>\<open>& 31\<close>. \<^verbatim>\<open>reset\<close> leaves the token array as it is.
\<close>

record Tokens =
  tk_extraHist :: "nat \<Rightarrow> 16 word"
  tk_offHist :: "nat \<Rightarrow> 16 word"
  tk_litHist :: "nat \<Rightarrow> 16 word"
  tk_n :: "16 word"
  tk_tokens :: "nat \<Rightarrow> Token"

definition Tokens_reset :: "Tokens \<Rightarrow> Tokens" where
  "Tokens_reset t =
     t\<lparr>tk_n := 0, tk_litHist := (\<lambda>_. 0), tk_extraHist := (\<lambda>_. 0), tk_offHist := (\<lambda>_. 0)\<rparr>"

definition makeLiteralToken :: "byte \<Rightarrow> Token" where
  "makeLiteralToken lit = ucast lit"

definition addLiteral :: "Tokens \<Rightarrow> byte \<Rightarrow> Tokens" where
  "addLiteral t lit =
     t\<lparr>tk_tokens := (tk_tokens t)(unat (tk_n t) := makeLiteralToken lit),
       tk_litHist := (tk_litHist t)(unat lit := tk_litHist t (unat lit) + 1),
       tk_n := tk_n t + 1\<rparr>"

text \<open>
  The loop of \<^verbatim>\<open>addMatchLong\<close>; \<open>oc\<close> is the offset code and \<open>xoffset\<close> already carries it
  in its bits 16 and up. \<^verbatim>\<open>xlength\<close> and \<^verbatim>\<open>xl\<close> are \<^verbatim>\<open>int32_t\<close>.
\<close>

function addMatchLong_loop :: "32 word \<Rightarrow> 32 word \<Rightarrow> int \<Rightarrow> Tokens \<Rightarrow> Tokens" where
  "addMatchLong_loop oc xoffset xlength t =
     (if xlength > 0 then
        (let xl0 = (if xlength > 258 then (if xlength > 258 + 3 then 258 else 258 - 3) else xlength);
             xl = xl0 - 3;
             lc = unat (lengthCodes1 ! unat (word_of_int xl :: 8 word))
         in addMatchLong_loop oc xoffset (xlength - xl0)
              (t\<lparr>tk_extraHist := (tk_extraHist t)(lc := tk_extraHist t lc + 1),
                 tk_offHist := (tk_offHist t)(unat (oc AND 31) := tk_offHist t (unat (oc AND 31)) + 1),
                 tk_tokens := (tk_tokens t)(unat (tk_n t) :=
                                MATCH_TYPE OR push_bit LENGTH_SHIFT (word_of_int xl :: 32 word) OR xoffset),
                 tk_n := tk_n t + 1\<rparr>))
      else t)"
  by pat_completeness auto
termination
  by (relation "measure (\<lambda>(oc, xoffset, xlength, t). nat xlength)") auto

declare addMatchLong_loop.simps [simp del]

definition addMatchLong :: "Tokens \<Rightarrow> int \<Rightarrow> 32 word \<Rightarrow> Tokens" where
  "addMatchLong t xlength xoffset =
     (let oc = offsetCode xoffset
      in addMatchLong_loop oc (xoffset OR push_bit 16 oc) xlength t)"

definition addEOB :: "Tokens \<Rightarrow> Tokens" where
  "addEOB t = t\<lparr>tk_tokens := (tk_tokens t)(unat (tk_n t) := 256), tk_n := tk_n t + 1\<rparr>"

section \<open>Huffman codes\<close>

text \<open>\<^verbatim>\<open>HCode\<close>: the length in the low byte, the code above it.\<close>

type_synonym HCode = "32 word"

definition hcode_set :: "16 word \<Rightarrow> 8 word \<Rightarrow> HCode" where
  "hcode_set code len = ucast len OR push_bit 8 (ucast code)"

definition hcode_len :: "HCode \<Rightarrow> 8 word" where
  "hcode_len c = ucast c"

definition code64 :: "HCode \<Rightarrow> 64 word" where
  "code64 c = ucast (drop_bit 8 c)"

fun reverseBits_loop :: "nat \<Rightarrow> 16 word \<Rightarrow> 16 word \<Rightarrow> 16 word" where
  "reverseBits_loop 0 number result = result"
| "reverseBits_loop (Suc k) number result =
     reverseBits_loop k (drop_bit 1 number) (push_bit 1 result OR (number AND 1))"

definition reverseBits :: "16 word \<Rightarrow> 8 word \<Rightarrow> 16 word" where
  "reverseBits number bitLength = reverseBits_loop (unat bitLength) number 0"

text \<open>
  \<^verbatim>\<open>HuffmanEncoder\<close>: the vector \<^verbatim>\<open>codes\<close> and the array \<^verbatim>\<open>bitCount\<close> (left uninitialised by
  the constructor, zero here; it is filled before it is read).
\<close>

record HuffmanEncoder =
  he_codes :: "HCode list"
  he_bitCount :: "nat \<Rightarrow> int"

definition HuffmanEncoder_new :: "nat \<Rightarrow> HuffmanEncoder" where
  "HuffmanEncoder_new sz =
     \<lparr> he_codes = replicate (2 ^ (32 - CLZ32 (of_nat (sz - 1)))) 0, he_bitCount = (\<lambda>_. 0) \<rparr>"

text \<open>The inner \<^verbatim>\<open>while\<close> of \<^verbatim>\<open>bitCounts\<close>: the final value of \<^verbatim>\<open>bits\<close>.\<close>

function bitCounts_bits :: "int \<Rightarrow> int \<Rightarrow> int \<Rightarrow> int \<Rightarrow> int" where
  "bitCounts_bits bits needed maxBits bitsRemaining =
     (if bits < maxBits \<and> needed \<le> tdiv bitsRemaining 2
      then bitCounts_bits (bits + 1) (needed * 2) maxBits bitsRemaining
      else bits)"
  by pat_completeness auto
termination
  by (relation "measure (\<lambda>(bits, needed, maxBits, bitsRemaining). nat (maxBits - bits))") auto

declare bitCounts_bits.simps [simp del]

text \<open>The outer loop of \<^verbatim>\<open>bitCounts\<close>, with the number of iterations left.\<close>

fun bitCounts_loop :: "nat \<Rightarrow> int \<Rightarrow> (nat \<Rightarrow> int) \<Rightarrow> int \<Rightarrow> (nat \<Rightarrow> int)" where
  "bitCounts_loop 0 maxBits bc bitsRemaining = bc"
| "bitCounts_loop (Suc k) maxBits bc bitsRemaining =
     (let bits = bitCounts_bits 1 1 maxBits bitsRemaining
      in bitCounts_loop k maxBits (bc(nat bits := bc (nat bits) + 1))
           (bitsRemaining - 2 ^ nat (maxBits - bits)))"

definition bitCounts :: "nat \<Rightarrow> int \<Rightarrow> (nat \<Rightarrow> int)" where
  "bitCounts n maxBits0 =
     (let maxBits = (if maxBits0 > int n - 1 then int n - 1 else maxBits0)
      in bitCounts_loop n maxBits (\<lambda>_. 0) (2 ^ nat maxBits))"

text \<open>
  One pass of the inner \<^verbatim>\<open>for (uint16_t sym : symbols)\<close> of \<^verbatim>\<open>assignEncodingAndSize\<close>, and
  its outer loop over \<^verbatim>\<open>bits\<close>. The list is consumed from its end, so the loop runs over
  the reversed list \<open>rl\<close>; \<^verbatim>\<open>listIdx >= 0\<close> is \<open>rl \<noteq> []\<close>.
\<close>

definition assign_symbols :: "nat \<Rightarrow> 16 word \<times> HCode list \<Rightarrow> nat list \<Rightarrow> 16 word \<times> HCode list" where
  "assign_symbols bits st symbols =
     foldl (\<lambda>(code, codes) sym.
              (code + 1, codes[sym := hcode_set (reverseBits code (of_nat bits)) (of_nat bits)]))
       st symbols"

function assign_loop :: "nat \<Rightarrow> (nat \<Rightarrow> int) \<Rightarrow> 16 word \<Rightarrow> (nat \<times> 16 word) list \<Rightarrow> HCode list \<Rightarrow> HCode list" where
  "assign_loop bits bc code rl codes =
     (if bits \<le> 15 \<and> rl \<noteq> [] then
        (let cnt = nat (bc bits);
             symbols = sort (map fst (take cnt rl));
             (code2, codes2) = assign_symbols bits (push_bit 1 code, codes) symbols
         in assign_loop (bits + 1) bc code2 (drop cnt rl) codes2)
      else codes)"
  by pat_completeness auto
termination
  by (relation "measure (\<lambda>(bits, bc, code, rl, codes). 16 - bits)") auto

declare assign_loop.simps [simp del]

definition assignEncodingAndSize :: "(nat \<Rightarrow> int) \<Rightarrow> (nat \<times> 16 word) list \<Rightarrow> HCode list \<Rightarrow> HCode list" where
  "assignEncodingAndSize bc list codes = assign_loop 1 bc 0 (rev list) codes"

text \<open>
  \<^verbatim>\<open>HuffmanEncoder::generate\<close>. A \<^verbatim>\<open>LiteralNode\<close> is the pair of the symbol and its
  frequency. \<^verbatim>\<open>std::sort\<close> by frequency leaves the order of equal frequencies open; the
  model sorts stably.
\<close>

definition HuffmanEncoder_generate :: "HuffmanEncoder \<Rightarrow> (nat \<Rightarrow> 16 word) \<Rightarrow> nat \<Rightarrow> int \<Rightarrow> HuffmanEncoder" where
  "HuffmanEncoder_generate h freq numSymbols maxBits =
     (let list = filter (\<lambda>p. snd p \<noteq> 0) (map (\<lambda>i. (i, freq i)) [0..<numSymbols]);
          codes1 = foldl (\<lambda>c i. if freq i \<noteq> 0 then c else c[i := 0]) (he_codes h) [0..<numSymbols];
          count = length list
      in if count \<le> 2
         then h\<lparr>he_codes := foldl (\<lambda>c i. c[fst (list ! i) := hcode_set (of_nat i) 1]) codes1 [0..<count]\<rparr>
         else
           let sorted = sort_key (\<lambda>p. unat (snd p)) list;
               bc = bitCounts (length sorted) maxBits
           in \<lparr> he_codes = assignEncodingAndSize bc sorted codes1, he_bitCount = bc \<rparr>)"

definition bitLength :: "HuffmanEncoder \<Rightarrow> (nat \<Rightarrow> 16 word) \<Rightarrow> nat \<Rightarrow> int" where
  "bitLength h freq numSymbols =
     sum_list (map (\<lambda>i. if freq i \<noteq> 0
                         then int (unat (freq i)) * int (unat (hcode_len (he_codes h ! i))) else 0)
                 [0..<min numSymbols (length (he_codes h))])"

definition fixedLiteralEncoding :: HuffmanEncoder where
  "fixedLiteralEncoding =
     (HuffmanEncoder_new LITERAL_COUNT)
       \<lparr>he_codes :=
          foldl (\<lambda>c ch.
                   c[ch := (if ch < 144 then hcode_set (reverseBits (of_nat (ch + 48)) 8) 8
                            else if ch < 256 then hcode_set (reverseBits (of_nat (ch + 400 - 144)) 9) 9
                            else if ch < 280 then hcode_set (reverseBits (of_nat (ch - 256)) 7) 7
                            else hcode_set (reverseBits (of_nat (ch + 192 - 280)) 8) 8)])
            (he_codes (HuffmanEncoder_new LITERAL_COUNT)) [0..<LITERAL_COUNT]\<rparr>"

definition fixedOffsetEncoding :: HuffmanEncoder where
  "fixedOffsetEncoding =
     (HuffmanEncoder_new 30)
       \<lparr>he_codes := foldl (\<lambda>c ch. c[ch := hcode_set (reverseBits (of_nat ch) 5) 5])
                      (he_codes (HuffmanEncoder_new 30)) [0..<30]\<rparr>"

section \<open>HuffmanBitWriter\<close>

text \<open>
  The members of the class, \<^verbatim>\<open>output_\<close> to \<^verbatim>\<open>codegenEncoding_\<close>. The arrays \<^verbatim>\<open>bytes_\<close>,
  \<^verbatim>\<open>literalFreq_\<close>, \<^verbatim>\<open>offsetFreq_\<close>, \<^verbatim>\<open>codegenFreq_\<close> and \<^verbatim>\<open>codegen_\<close> are functions from the
  index, as in \<open>Tokens\<close>: \<^verbatim>\<open>bytes_\<close> has 264 entries and is indexed by a byte plus at most 7.
\<close>

record HuffmanBitWriter =
  bw_output :: "byte list"
  bw_bits :: "64 word"
  bw_nbits :: "8 word"
  bw_nbytes :: "8 word"
  bw_lastHeader :: int
  bw_lastHuffMan :: bool
  bw_logNewTablePenalty :: int
  bw_bytes :: "nat \<Rightarrow> byte"
  bw_literalFreq :: "nat \<Rightarrow> 16 word"
  bw_offsetFreq :: "nat \<Rightarrow> 16 word"
  bw_codegenFreq :: "nat \<Rightarrow> 16 word"
  bw_codegen :: "nat \<Rightarrow> byte"
  bw_literalEncoding :: HuffmanEncoder
  bw_offsetEncoding :: HuffmanEncoder
  bw_tmpLitEncoding :: HuffmanEncoder
  bw_codegenEncoding :: HuffmanEncoder

definition HuffmanBitWriter_reset :: "HuffmanBitWriter \<Rightarrow> HuffmanBitWriter" where
  "HuffmanBitWriter_reset w =
     w\<lparr>bw_output := [], bw_bits := 0, bw_nbits := 0, bw_nbytes := 0, bw_lastHeader := 0,
       bw_lastHuffMan := False\<rparr>"

definition HuffmanBitWriter_new :: HuffmanBitWriter where
  "HuffmanBitWriter_new =
     \<lparr> bw_output = [], bw_bits = 0, bw_nbits = 0, bw_nbytes = 0, bw_lastHeader = 0,
       bw_lastHuffMan = False, bw_logNewTablePenalty = 7, bw_bytes = (\<lambda>_. 0),
       bw_literalFreq = (\<lambda>_. 0), bw_offsetFreq = (\<lambda>_. 0), bw_codegenFreq = (\<lambda>_. 0),
       bw_codegen = (\<lambda>_. 0),
       bw_literalEncoding = HuffmanEncoder_new LITERAL_COUNT,
       bw_offsetEncoding = HuffmanEncoder_new OFFSET_CODE_COUNT,
       bw_tmpLitEncoding = HuffmanEncoder_new LITERAL_COUNT,
       bw_codegenEncoding = HuffmanEncoder_new 19 \<rparr>"

text \<open>\<^verbatim>\<open>store64(bytes_.data(), i, v)\<close>: eight bytes of \<open>v\<close>, little-endian, from index \<open>i\<close>.\<close>

definition store64 :: "(nat \<Rightarrow> byte) \<Rightarrow> nat \<Rightarrow> 64 word \<Rightarrow> (nat \<Rightarrow> byte)" where
  "store64 b i v = (\<lambda>j. if i \<le> j \<and> j < i + 8 then ucast (drop_bit (8 * (j - i)) v) else b j)"

text \<open>\<^verbatim>\<open>output_.insert(output_.end(), bytes_.begin(), bytes_.begin() + n)\<close>.\<close>

definition output_bytes :: "HuffmanBitWriter \<Rightarrow> nat \<Rightarrow> HuffmanBitWriter" where
  "output_bytes w n = w\<lparr>bw_output := bw_output w @ map (bw_bytes w) [0..<n]\<rparr>"

definition writeOutBits :: "HuffmanBitWriter \<Rightarrow> HuffmanBitWriter" where
  "writeOutBits w =
     (let w1 = w\<lparr>bw_bytes := store64 (bw_bytes w) (unat (bw_nbytes w)) (bw_bits w),
                  bw_bits := drop_bit 48 (bw_bits w),
                  bw_nbits := bw_nbits w - 48,
                  bw_nbytes := bw_nbytes w + 6\<rparr>
      in if unat (bw_nbytes w1) \<ge> BUFFER_FLUSH_SIZE
         then (output_bytes w1 (unat (bw_nbytes w1)))\<lparr>bw_nbytes := 0\<rparr>
         else w1)"

text \<open>
  The step shared by \<^verbatim>\<open>writeBits\<close>, \<^verbatim>\<open>writeCode\<close> and the copies of it inlined in
  \<^verbatim>\<open>writeTokens\<close> (which work on local copies of \<^verbatim>\<open>bits_\<close>, \<^verbatim>\<open>nbits_\<close> and \<^verbatim>\<open>nbytes_\<close> and
  store them back at the end): or the value in above the pending bits, count them, and
  move 48 bits out when that many are pending.
\<close>

definition put_bits :: "HuffmanBitWriter \<Rightarrow> 64 word \<Rightarrow> 8 word \<Rightarrow> HuffmanBitWriter" where
  "put_bits w v nb =
     (let w1 = w\<lparr>bw_bits := bw_bits w OR push_bit (unat (bw_nbits w AND 63)) v,
                  bw_nbits := bw_nbits w + nb\<rparr>
      in if bw_nbits w1 \<ge> 48 then writeOutBits w1 else w1)"

definition writeBits :: "HuffmanBitWriter \<Rightarrow> int \<Rightarrow> 8 word \<Rightarrow> HuffmanBitWriter" where
  "writeBits w b nb = put_bits w (word_of_int b) nb"

definition writeCode :: "HuffmanBitWriter \<Rightarrow> HCode \<Rightarrow> HuffmanBitWriter" where
  "writeCode w c = put_bits w (code64 c) (hcode_len c)"

text \<open>
  The opening of \<^verbatim>\<open>flush\<close>, \<^verbatim>\<open>writeStoredHeader\<close>, \<^verbatim>\<open>writeFixedHeader\<close> and the block writers:
  close a block left open by the Huffman-only writer.
\<close>

definition close_last_header :: "HuffmanBitWriter \<Rightarrow> HuffmanBitWriter" where
  "close_last_header w =
     (if bw_lastHeader w > 0
      then (writeCode w (he_codes (bw_literalEncoding w) ! END_BLOCK_MARKER))\<lparr>bw_lastHeader := 0\<rparr>
      else w)"

function flush_loop :: "(nat \<Rightarrow> byte) \<Rightarrow> 8 word \<Rightarrow> 64 word \<Rightarrow> 8 word \<Rightarrow> (nat \<Rightarrow> byte) \<times> 8 word \<times> 64 word \<times> 8 word" where
  "flush_loop bytes n bits nbits =
     (if nbits \<noteq> 0
      then flush_loop (bytes(unat n := ucast bits)) (n + 1) (drop_bit 8 bits)
             (if nbits > 8 then nbits - 8 else 0)
      else (bytes, n, bits, nbits))"
  by pat_completeness auto
termination
proof (relation "measure (\<lambda>(bytes, n, bits, nbits). unat nbits)")
  show "wf (measure (\<lambda>(bytes, n, bits, nbits). unat nbits))" by simp
next
  fix bytes :: "nat \<Rightarrow> byte" and n :: "8 word" and bits :: "64 word" and nbits :: "8 word"
  assume nz: "nbits \<noteq> 0"
  have "unat (if nbits > 8 then nbits - 8 else 0) < unat nbits"
  proof (cases "nbits > 8")
    case True
    then have "8 \<le> nbits" by (rule less_imp_le)
    then have "unat (nbits - 8) = unat nbits - unat (8 :: 8 word)" by (rule unat_sub)
    then have "unat (nbits - 8) = unat nbits - 8" by simp
    moreover have "8 < unat nbits" using True by (simp add: word_less_nat_alt)
    ultimately show ?thesis using True by simp
  next
    case False
    then show ?thesis using nz by (simp add: unat_gt_0)
  qed
  then show "((bytes(unat n := ucast bits), n + 1, drop_bit 8 bits, if nbits > 8 then nbits - 8 else 0),
              (bytes, n, bits, nbits)) \<in> measure (\<lambda>(bytes, n, bits, nbits). unat nbits)"
    by simp
qed

declare flush_loop.simps [simp del]

definition flush :: "HuffmanBitWriter \<Rightarrow> HuffmanBitWriter" where
  "flush w =
     (let w1 = close_last_header w;
          (bytes, n, bits, nbits) = flush_loop (bw_bytes w1) (bw_nbytes w1) (bw_bits w1) (bw_nbits w1);
          w2 = w1\<lparr>bw_bytes := bytes, bw_bits := 0, bw_nbits := nbits\<rparr>;
          w3 = (if n > 0 then output_bytes w2 (unat n) else w2)
      in w3\<lparr>bw_nbytes := 0\<rparr>)"

text \<open>
  The loop of \<^verbatim>\<open>writeBytes\<close>, \<^verbatim>\<open>while (nbits_ != 0) { ...; nbits_ -= 8; }\<close>, does not end
  when \<^verbatim>\<open>nbits_\<close> is not a multiple of 8: no result is \<open>None\<close>.
\<close>

partial_function (option) writeBytes_loop :: "(nat \<Rightarrow> byte) \<Rightarrow> 8 word \<Rightarrow> 64 word \<Rightarrow> 8 word \<Rightarrow> ((nat \<Rightarrow> byte) \<times> 8 word \<times> 64 word \<times> 8 word) option" where
  "writeBytes_loop bytes n bits nbits =
     (if nbits \<noteq> 0
      then writeBytes_loop (bytes(unat n := ucast bits)) (n + 1) (drop_bit 8 bits) (nbits - 8)
      else Some (bytes, n, bits, nbits))"

declare writeBytes_loop.simps [code]

definition writeBytes :: "HuffmanBitWriter \<Rightarrow> byte list \<Rightarrow> HuffmanBitWriter option" where
  "writeBytes w bs =
     (case writeBytes_loop (bw_bytes w) (bw_nbytes w) (bw_bits w) (bw_nbits w) of
        None \<Rightarrow> None
      | Some (bytes, n, bits, nbits) \<Rightarrow>
          (let w1 = w\<lparr>bw_bytes := bytes, bw_bits := bits, bw_nbits := nbits\<rparr>;
               w2 = (if n \<noteq> 0 then output_bytes w1 (unat n) else w1)
           in Some (w2\<lparr>bw_nbytes := 0, bw_output := bw_output w2 @ bs\<rparr>)))"

definition writeFixedHeader :: "HuffmanBitWriter \<Rightarrow> bool \<Rightarrow> HuffmanBitWriter" where
  "writeFixedHeader w isEof = writeBits (close_last_header w) (if isEof then 3 else 2) 3"

definition writeStoredHeader :: "HuffmanBitWriter \<Rightarrow> int \<Rightarrow> bool \<Rightarrow> HuffmanBitWriter" where
  "writeStoredHeader w len isEof =
     (let w1 = close_last_header w
      in if len = 0 \<and> isEof then flush (writeBits (writeFixedHeader w1 isEof) 0 7)
         else
           let w2 = flush (writeBits w1 (if isEof then 1 else 0) 3);
               w3 = writeBits w2 len 16
           in writeBits w3 (NOT len AND 0xFFFF) 16)"

definition indexTokens :: "HuffmanBitWriter \<Rightarrow> Tokens \<Rightarrow> bool \<Rightarrow> HuffmanBitWriter" where
  "indexTokens w t alwaysEOB =
     (let lf = (\<lambda>i. if i < 256 then tk_litHist t i
                     else if i < 256 + 32 then tk_extraHist t (i - 256)
                     else bw_literalFreq w i);
          w1 = w\<lparr>bw_literalFreq := lf, bw_offsetFreq := tk_offHist t\<rparr>
      in if tk_n t \<noteq> 0 \<and> alwaysEOB
         then w1\<lparr>bw_literalFreq := (bw_literalFreq w1)(END_BLOCK_MARKER := 1)\<rparr>
         else w1)"

definition HuffmanBitWriter_generate :: "HuffmanBitWriter \<Rightarrow> HuffmanBitWriter" where
  "HuffmanBitWriter_generate w =
     w\<lparr>bw_literalEncoding :=
         HuffmanEncoder_generate (bw_literalEncoding w) (bw_literalFreq w) LITERAL_COUNT 15,
       bw_offsetEncoding :=
         HuffmanEncoder_generate (bw_offsetEncoding w) (bw_offsetFreq w) OFFSET_CODE_COUNT 15\<rparr>"

definition extraBitSize :: "HuffmanBitWriter \<Rightarrow> int" where
  "extraBitSize w =
     sum_list (map (\<lambda>i. int (unat (bw_literalFreq w (257 + i)))
                         * int (unat (lengthExtraBits ! (i mod 32))))
                 [0..<LITERAL_COUNT - 257])
     + sum_list (map (\<lambda>i. int (unat (bw_offsetFreq w i)) * int (unat (offsetExtraBits ! (i mod 32))))
                 [0..<OFFSET_CODE_COUNT])"

definition fixedSize :: "HuffmanBitWriter \<Rightarrow> int \<Rightarrow> int" where
  "fixedSize w extraBits =
     3 + bitLength fixedLiteralEncoding (bw_literalFreq w) LITERAL_COUNT
       + bitLength fixedOffsetEncoding (bw_offsetFreq w) OFFSET_CODE_COUNT + extraBits"

text \<open>
  \<^verbatim>\<open>storedSize\<close>: the size and the flag \<^verbatim>\<open>storable\<close>. The input pointer is never null in the
  callers.
\<close>

definition storedSize :: "byte list \<Rightarrow> int \<times> bool" where
  "storedSize input =
     (let storable = (length input \<le> MAX_STORE_BLOCK_SIZE)
      in (if storable then (int (length input) + 5) * 8 else 0, storable))"

text \<open>The body of the loop of \<^verbatim>\<open>writeTokens\<close> for one token.\<close>

definition writeToken :: "HCode list \<Rightarrow> HCode list \<Rightarrow> HuffmanBitWriter \<Rightarrow> Token \<Rightarrow> HuffmanBitWriter" where
  "writeToken leCodes oeCodes w t =
     (if t < 256 then put_bits w (code64 (leCodes ! unat t)) (hcode_len (leCodes ! unat t))
      else
        let len = drop_bit LENGTH_SHIFT t AND 0xFF;
            lengthCode = (lengthCodes1 ! unat len) - 1;
            c = leCodes ! (LENGTH_CODES_START + unat lengthCode);
            w1 = put_bits w (code64 c) (hcode_len c);
            w2 = (if lengthCode \<ge> 8
                  then put_bits w1 (word_of_int (uint len - uint (lengthBase ! unat lengthCode)))
                         (lengthExtraBits ! unat lengthCode)
                  else w1);
            offset0 = t AND OFFSET_MASK;
            offCode = drop_bit 16 offset0 AND 31;
            offset = offset0 AND 0xFFFF;
            c2 = oeCodes ! unat offCode;
            w3 = put_bits w2 (code64 c2) (hcode_len c2)
        in if offCode \<ge> 4
           then (let offsetComb = offsetCombined ! unat offCode
                 in put_bits w3 (ucast ((offset - drop_bit 8 offsetComb) AND 0xFFFF)) (ucast offsetComb))
           else w3)"

definition writeTokens :: "HuffmanBitWriter \<Rightarrow> (nat \<Rightarrow> Token) \<Rightarrow> nat \<Rightarrow> HCode list \<Rightarrow> HCode list \<Rightarrow> HuffmanBitWriter" where
  "writeTokens w tokens n leCodes oeCodes =
     (if n = 0 then w
      else
        let deferEOB = (tokens (n - 1) = 256);
            n1 = (if deferEOB then n - 1 else n);
            w1 = foldl (writeToken leCodes oeCodes) w (map tokens [0..<n1])
        in if deferEOB then writeCode w1 (leCodes ! END_BLOCK_MARKER) else w1)"

text \<open>The stored block both block writers fall back to.\<close>

definition write_stored_block :: "HuffmanBitWriter \<Rightarrow> byte list \<Rightarrow> bool \<Rightarrow> HuffmanBitWriter option" where
  "write_stored_block w input eof = writeBytes (writeStoredHeader w (int (length input)) eof) input"

definition writeBlockDynamic :: "HuffmanBitWriter \<Rightarrow> Tokens \<Rightarrow> bool \<Rightarrow> byte list \<Rightarrow> bool \<Rightarrow> (HuffmanBitWriter \<times> Tokens) option" where
  "writeBlockDynamic w tokens0 eof input sync =
     (let tokens = addEOB tokens0;
          w1 = close_last_header w;
          w2 = indexTokens w1 tokens True;
          (ssize, storable) = storedSize input;
          extraBits = (if storable then extraBitSize w2 else 0);
          w3 = HuffmanBitWriter_generate w2;
          size = fixedSize w3 extraBits
      in if storable \<and> ssize \<le> size
         then map_option (\<lambda>w'. (w', tokens)) (write_stored_block w3 input eof)
         else Some (writeTokens (writeFixedHeader w3 eof) (tk_tokens tokens) (unat (tk_n tokens))
                      (he_codes fixedLiteralEncoding) (he_codes fixedOffsetEncoding), tokens))"

definition histogram :: "HuffmanBitWriter \<Rightarrow> byte list \<Rightarrow> HuffmanBitWriter" where
  "histogram w input =
     w\<lparr>bw_literalFreq := foldl (\<lambda>f b. f(unat b := f (unat b) + 1)) (bw_literalFreq w) input\<rparr>"

definition codegens :: "HuffmanBitWriter \<Rightarrow> nat" where
  "codegens w =
     (let unused = takeWhile (\<lambda>n. bw_codegenFreq w (codegenOrder ! (n - 1)) = 0) (rev [5..<20])
      in 19 - length unused)"

definition headerSize :: "HuffmanBitWriter \<Rightarrow> int \<times> nat" where
  "headerSize w =
     (let numCodegens = codegens w
      in (3 + 5 + 5 + 4 + 3 * int numCodegens
          + bitLength (bw_codegenEncoding w) (bw_codegenFreq w) 19
          + int (unat (bw_codegenFreq w 16)) * 2
          + int (unat (bw_codegenFreq w 17)) * 3
          + int (unat (bw_codegenFreq w 18)) * 7, numCodegens))"

definition generateCodegen :: "HuffmanBitWriter \<Rightarrow> nat \<Rightarrow> nat \<Rightarrow> HuffmanEncoder \<Rightarrow> HuffmanEncoder \<Rightarrow> HuffmanBitWriter" where
  "generateCodegen w numLiterals numOffsets litEnc offEnc =
     (let lens = map (\<lambda>i. hcode_len (he_codes litEnc ! i)) [0..<numLiterals]
                 @ map (\<lambda>i. hcode_len (he_codes offEnc ! i)) [0..<numOffsets]
      in w\<lparr>bw_codegen := (\<lambda>i. if i < length lens then lens ! i else bw_codegen w i),
            bw_codegenFreq := foldl (\<lambda>f b. f(unat b := f (unat b) + 1)) (\<lambda>_. 0) lens\<rparr>)"

definition writeDynamicHeader :: "HuffmanBitWriter \<Rightarrow> nat \<Rightarrow> nat \<Rightarrow> nat \<Rightarrow> bool \<Rightarrow> HuffmanBitWriter" where
  "writeDynamicHeader w numLiterals numOffsets numCodegens isEof =
     (let w1 = writeBits w (if isEof then 5 else 4) 3;
          w2 = writeBits w1 (int numLiterals - 257) 5;
          w3 = writeBits w2 (int numOffsets - 1) 5;
          w4 = writeBits w3 (int numCodegens - 4) 4;
          w5 = foldl (\<lambda>w' i. writeBits w'
                        (int (unat (hcode_len (he_codes (bw_codegenEncoding w') ! (codegenOrder ! i))))) 3)
                 w4 [0..<numCodegens]
      in foldl (\<lambda>w' i. writeCode w' (he_codes (bw_codegenEncoding w') ! unat (bw_codegen w' i)))
           w5 [0..<numLiterals + numOffsets])"

text \<open>
  The test for incompressible input of \<^verbatim>\<open>writeBlockHuff\<close> adds up the squares of
  \<^verbatim>\<open>literalFreq_[i] - inputLen / 256.0\<close> in a \<^verbatim>\<open>double\<close> until the sum exceeds
  \<^verbatim>\<open>inputLen * 2\<close>. For a block of at most 65 535 bytes every value involved is a multiple of
  \<open>2^-16\<close> below \<open>2^33\<close>, so the arithmetic is exact; the model computes the same sums scaled
  by \<open>2^16\<close>, as integers: the result is whether the loop ended with a sum below the bound.
\<close>

fun uniform_loop :: "(nat \<Rightarrow> 16 word) \<Rightarrow> int \<Rightarrow> int \<Rightarrow> nat list \<Rightarrow> int" where
  "uniform_loop freq len abs_val [] = abs_val"
| "uniform_loop freq len abs_val (i # is) =
     (let d = 256 * int (unat (freq i)) - len;
          abs_val1 = abs_val + d * d
      in if abs_val1 > 2 * len * 65536 then abs_val1 else uniform_loop freq len abs_val1 is)"

definition looks_incompressible :: "(nat \<Rightarrow> 16 word) \<Rightarrow> nat \<Rightarrow> bool" where
  "looks_incompressible freq inputLen =
     (uniform_loop freq (int inputLen) 0 [0..<256] < 2 * int inputLen * 65536)"

text \<open>
  \<^verbatim>\<open>writeBlockHuff\<close>, in the order of its statements: the histogram of the input
  (\<open>huff_histogram\<close>), the end-of-block count and the code generated for the estimate
  (\<open>huff_counted\<close>), the estimate \<^verbatim>\<open>estBits\<close> (\<open>huff_estBits\<close>), and the part after the two
  tests for a stored block, which writes the header, unless the last one is reused, and the
  literals (\<open>huff_encode\<close>).
\<close>

definition huff_histogram :: "HuffmanBitWriter \<Rightarrow> byte list \<Rightarrow> HuffmanBitWriter" where
  "huff_histogram w input =
     (let w1 = w\<lparr>bw_literalFreq := (\<lambda>_. 0)\<rparr>;
          w2 = (if \<not> bw_lastHuffMan w1 then w1\<lparr>bw_offsetFreq := (\<lambda>_. 0)\<rparr> else w1)
      in histogram w2 input)"

definition huff_counted :: "HuffmanBitWriter \<Rightarrow> HuffmanBitWriter" where
  "huff_counted w3 =
     (let numLiterals = END_BLOCK_MARKER + 1;
          w4 = w3\<lparr>bw_literalFreq := (bw_literalFreq w3)(END_BLOCK_MARKER := 1)\<rparr>
      in w4\<lparr>bw_tmpLitEncoding :=
              HuffmanEncoder_generate (bw_tmpLitEncoding w4) (bw_literalFreq w4) numLiterals 15\<rparr>)"

definition huff_estBits :: "HuffmanBitWriter \<Rightarrow> int" where
  "huff_estBits w5 =
     (let numLiterals = END_BLOCK_MARKER + 1;
          guessHeaderSizeBits = 70 * 8;
          estBits0 = bitLength (bw_tmpLitEncoding w5) (bw_literalFreq w5) numLiterals;
          estBits1 = estBits0 + bw_lastHeader w5
                     + (if bw_lastHeader w5 = 0 then guessHeaderSizeBits else 0)
      in if estBits0 < 2147483647
         then estBits1 + estBits1 div 2 ^ nat (bw_logNewTablePenalty w5)
         else estBits0)"

definition huff_encode :: "HuffmanBitWriter \<Rightarrow> int \<Rightarrow> bool \<Rightarrow> byte list \<Rightarrow> bool \<Rightarrow> HuffmanBitWriter" where
  "huff_encode w5 estBits eof input sync =
     (let numLiterals = END_BLOCK_MARKER + 1;
          numOffsets = 1;
          w6 = (if bw_lastHeader w5 > 0
                   \<and> estBits < bitLength (bw_literalEncoding w5) (bw_literalFreq w5) numLiterals
                then (writeCode w5 (he_codes (bw_literalEncoding w5) ! END_BLOCK_MARKER))
                       \<lparr>bw_lastHeader := 0\<rparr>
                else w5);
          w7 = (if bw_lastHeader w6 = 0 then
                  (let w6a = w6\<lparr>bw_literalEncoding := bw_tmpLitEncoding w6,
                                bw_tmpLitEncoding := bw_literalEncoding w6\<rparr>;
                       w6b = generateCodegen w6a numLiterals numOffsets
                               (bw_literalEncoding w6a) fixedOffsetEncoding;
                       w6c = w6b\<lparr>bw_codegenEncoding :=
                                   HuffmanEncoder_generate (bw_codegenEncoding w6b)
                                     (bw_codegenFreq w6b) 19 7\<rparr>;
                       numCodegens = codegens w6c;
                       w6d = writeDynamicHeader w6c numLiterals numOffsets numCodegens eof;
                       w6e = w6d\<lparr>bw_lastHuffMan := True\<rparr>
                   in w6e\<lparr>bw_lastHeader := fst (headerSize w6e)\<rparr>)
                else w6);
          w8 = foldl (\<lambda>w' b. writeCode w' (he_codes (bw_literalEncoding w7) ! unat b)) w7 input
      in if eof \<or> sync
         then (writeCode w8 (he_codes (bw_literalEncoding w8) ! END_BLOCK_MARKER))
                \<lparr>bw_lastHeader := 0, bw_lastHuffMan := False\<rparr>
         else w8)"

definition writeBlockHuff :: "HuffmanBitWriter \<Rightarrow> bool \<Rightarrow> byte list \<Rightarrow> bool \<Rightarrow> HuffmanBitWriter option" where
  "writeBlockHuff w eof input sync =
     (let w3 = huff_histogram w input;
          (ssize, storable) = storedSize input
      in if storable \<and> length input > 1024 \<and> looks_incompressible (bw_literalFreq w3) (length input)
         then write_stored_block w3 input eof
         else
           let w5 = huff_counted w3;
               estBits = huff_estBits w5
           in if storable \<and> ssize \<le> estBits then write_stored_block w5 input eof
              else Some (huff_encode w5 estBits eof input sync))"

section \<open>FastGen and the level-1 encoder\<close>

text \<open>
  \<^verbatim>\<open>FastGen\<close> holds the history \<^verbatim>\<open>hist_\<close> and the base offset \<^verbatim>\<open>cur_\<close>; \<^verbatim>\<open>FastEncL1\<close> adds
  the hash table \<^verbatim>\<open>table_\<close> and \<^verbatim>\<open>FastEncL4\<close> a second one, \<^verbatim>\<open>bTable_\<close>. A table maps a hash
  (below \<open>2^15\<close>) to an offset. Offsets and positions are \<^verbatim>\<open>int32_t\<close> in the source and
  integers here. The capacity of \<^verbatim>\<open>hist_\<close> is the \<^verbatim>\<open>ALLOC_HISTORY\<close> bytes reserved by the
  constructor.
\<close>

record FastGen =
  fg_hist :: "byte list"
  fg_cur :: int

record FastEncL1 = FastGen +
  l1_table :: "nat \<Rightarrow> int"

record FastEncL4 = FastGen +
  l4_table :: "nat \<Rightarrow> int"
  l4_bTable :: "nat \<Rightarrow> int"

definition FastEncL1_new :: FastEncL1 where
  "FastEncL1_new = \<lparr> fg_hist = [], fg_cur = int MAX_STORE_BLOCK_SIZE, l1_table = (\<lambda>_. 0) \<rparr>"

definition FastEncL4_new :: FastEncL4 where
  "FastEncL4_new =
     \<lparr> fg_hist = [], fg_cur = int MAX_STORE_BLOCK_SIZE, l4_table = (\<lambda>_. 0), l4_bTable = (\<lambda>_. 0) \<rparr>"

definition addBlock :: "'a FastGen_scheme \<Rightarrow> byte list \<Rightarrow> int \<times> 'a FastGen_scheme" where
  "addBlock g src =
     (let g1 = (if length (fg_hist g) + length src > ALLOC_HISTORY then
                  (let offset = int (length (fg_hist g)) - MAX_MATCH_OFFSET
                   in if offset > 0
                      then g\<lparr>fg_hist := take (nat MAX_MATCH_OFFSET) (drop (nat offset) (fg_hist g)),
                             fg_cur := fg_cur g + offset\<rparr>
                      else g)
                else g)
      in (int (length (fg_hist g1)), g1\<lparr>fg_hist := fg_hist g1 @ src\<rparr>))"

definition FastGen_reset :: "'a FastGen_scheme \<Rightarrow> 'a FastGen_scheme" where
  "FastGen_reset g =
     g\<lparr>fg_cur := fg_cur g + MAX_MATCH_OFFSET + int (length (fg_hist g)), fg_hist := []\<rparr>"

definition FastEncL1_reset :: "FastEncL1 \<Rightarrow> FastEncL1" where
  "FastEncL1_reset e = (FastGen_reset e)\<lparr>l1_table := (\<lambda>_. 0)\<rparr>"

definition FastEncL4_reset :: "FastEncL4 \<Rightarrow> FastEncL4" where
  "FastEncL4_reset e = (FastGen_reset e)\<lparr>l4_table := (\<lambda>_. 0), l4_bTable := (\<lambda>_. 0)\<rparr>"

definition bufferReset :: int where
  "bufferReset = 0x7FFFFFFF - int ALLOC_HISTORY - int MAX_STORE_BLOCK_SIZE - 1"

text \<open>The rebase of one table entry when \<^verbatim>\<open>cur_\<close> has reached \<^verbatim>\<open>bufferReset\<close>.\<close>

definition rebase_table :: "int \<Rightarrow> nat \<Rightarrow> (nat \<Rightarrow> int) \<Rightarrow> (nat \<Rightarrow> int)" where
  "rebase_table cur histLen table =
     (if histLen = 0 then (\<lambda>_. 0)
      else (\<lambda>h. if table h \<le> cur + int histLen - MAX_MATCH_OFFSET then 0
                else table h - cur + MAX_MATCH_OFFSET))"

definition get_byte :: "byte list \<Rightarrow> int \<Rightarrow> byte option" where
  "get_byte b i = (if 0 \<le> i \<and> nat i < length b then Some (b ! nat i) else None)"

text \<open>
  \<^verbatim>\<open>matchLen(data + a, data + b, maxLen)\<close>: first the loop over words of eight bytes, then the
  loop over the remaining bytes; \<open>n\<close> is the count so far.
\<close>

function matchLen_tail :: "byte list \<Rightarrow> int \<Rightarrow> int \<Rightarrow> nat \<Rightarrow> int \<Rightarrow> int option" where
  "matchLen_tail data a b maxLen n =
     (if n < int maxLen then
        (case get_byte data (a + n) of
           None \<Rightarrow> None
         | Some x \<Rightarrow>
             (case get_byte data (b + n) of
                None \<Rightarrow> None
              | Some y \<Rightarrow> if x = y then matchLen_tail data a b maxLen (n + 1) else Some n))
      else Some n)"
  by pat_completeness auto
termination
  by (relation "measure (\<lambda>(data, a, b, maxLen, n). nat (int maxLen - n))") auto

declare matchLen_tail.simps [simp del]

function matchLen_words :: "byte list \<Rightarrow> int \<Rightarrow> int \<Rightarrow> nat \<Rightarrow> int \<Rightarrow> nat \<Rightarrow> int option" where
  "matchLen_words data a b maxLen n left =
     (if left \<ge> 8 then
        (case load64 data (a + n) of
           None \<Rightarrow> None
         | Some va \<Rightarrow>
             (case load64 data (b + n) of
                None \<Rightarrow> None
              | Some vb \<Rightarrow>
                  if va XOR vb \<noteq> 0 then Some (n + int (CTZ64 (va XOR vb) div 8))
                  else matchLen_words data a b maxLen (n + 8) (left - 8)))
      else matchLen_tail data a b maxLen n)"
  by pat_completeness auto
termination
  by (relation "measure (\<lambda>(data, a, b, maxLen, n, left). left)") auto

declare matchLen_words.simps [simp del]

definition matchLen :: "byte list \<Rightarrow> int \<Rightarrow> int \<Rightarrow> nat \<Rightarrow> int option" where
  "matchLen data a b maxLen = matchLen_words data a b maxLen 0 maxLen"

text \<open>
  \<^verbatim>\<open>std::min(hist_.size() - s - 4, MAX_MATCH_LENGTH - 4)\<close>, computed in \<^verbatim>\<open>size_t\<close>: the
  difference wraps modulo \<open>2^64\<close>.
\<close>

definition match_maxLen :: "byte list \<Rightarrow> int \<Rightarrow> nat" where
  "match_maxLen data s = min (nat ((int (length data) - s - 4) mod 2 ^ 64)) (MAX_MATCH_LENGTH - 4)"

text \<open>The backward extension \<^verbatim>\<open>while (t > 0 && s > nextEmit && data[t - 1] == data[s - 1])\<close>.\<close>

function extend_back :: "byte list \<Rightarrow> int \<Rightarrow> int \<Rightarrow> int \<Rightarrow> int \<Rightarrow> (int \<times> int \<times> int) option" where
  "extend_back data nextEmit s t l =
     (if t > 0 \<and> s > nextEmit then
        (case get_byte data (t - 1) of
           None \<Rightarrow> None
         | Some x \<Rightarrow>
             (case get_byte data (s - 1) of
                None \<Rightarrow> None
              | Some y \<Rightarrow>
                  if x = y then extend_back data nextEmit (s - 1) (t - 1) (l + 1)
                  else Some (s, t, l)))
      else Some (s, t, l))"
  by pat_completeness auto
termination
  by (relation "measure (\<lambda>(data, nextEmit, s, t, l). nat t)") auto

declare extend_back.simps [simp del]

text \<open>The literal loop \<^verbatim>\<open>for (int32_t i = from; i < to; ++i)\<close> with the inlined \<^verbatim>\<open>addLiteral\<close>.\<close>

definition emit_literals :: "byte list \<Rightarrow> Tokens \<Rightarrow> int \<Rightarrow> int \<Rightarrow> Tokens option" where
  "emit_literals data dst from to =
     (if from < to then
        (if 0 \<le> from \<and> nat to \<le> length data
         then Some (foldl addLiteral dst (take (nat (to - from)) (drop (nat from) data)))
         else None)
      else Some dst)"

text \<open>
  The test \<^verbatim>\<open>s - t < MAX_MATCH_OFFSET && static_cast<uint32_t>(cv) == load32(data, t)\<close>; the
  load happens only when the first part holds.
\<close>

definition candidate_hit :: "byte list \<Rightarrow> int \<Rightarrow> int \<Rightarrow> 64 word \<Rightarrow> bool option" where
  "candidate_hit data s t cv =
     (if s - t < MAX_MATCH_OFFSET then map_option (\<lambda>v. ucast cv = v) (load32 data t)
      else Some False)"

text \<open>
  The two nested loops of \<^verbatim>\<open>FastEncL1::encode\<close>, as a step function on the variables
  they share. In phase \<open>L1_Search\<close> a step is one pass of the inner \<^verbatim>\<open>while (true)\<close> that
  looks for a match; in phase \<open>L1_Match t nextS\<close> a step is one pass of the \<^verbatim>\<open>for (;;)\<close>
  that emits the match at \<open>s\<close> with candidate \<open>t\<close>. A step ends at the label
  \<^verbatim>\<open>emitRemainder\<close> (\<open>Inl\<close>, with the table, \<^verbatim>\<open>nextEmit\<close> and the tokens) or goes on
  (\<open>Inr\<close>); \<open>None\<close> is a read outside the history.
\<close>

datatype l1_phase = L1_Search | L1_Match int int

record l1_state =
  ls_phase :: l1_phase
  ls_table :: "nat \<Rightarrow> int"
  ls_s :: int
  ls_nextEmit :: int
  ls_cv :: "64 word"
  ls_dst :: Tokens

type_synonym l1_result = "(nat \<Rightarrow> int) \<times> int \<times> Tokens"

definition l1_search_step :: "byte list \<Rightarrow> int \<Rightarrow> int \<Rightarrow> l1_state \<Rightarrow> (l1_result + l1_state) option" where
  "l1_search_step data cur sLimit st =
     (let table = ls_table st; s = ls_s st; nextEmit = ls_nextEmit st; cv = ls_cv st;
          nextHash = hash5 cv;
          candidate = table nextHash;
          nextS = s + 2 + tdiv (s - nextEmit) 32
      in if nextS > sLimit then Some (Inl (table, nextEmit, ls_dst st))
         else
           case load64 data nextS of
             None \<Rightarrow> None
           | Some now \<Rightarrow>
               (let table1 = table(nextHash := s + cur);
                    nextHash2 = hash5 now;
                    t = candidate - cur
                in case candidate_hit data s t cv of
                     None \<Rightarrow> None
                   | Some hit \<Rightarrow>
                       if hit
                       then Some (Inr (st\<lparr>ls_phase := L1_Match t nextS,
                                          ls_table := table1(nextHash2 := nextS + cur)\<rparr>))
                       else
                         (let s1 = nextS;
                              nextS1 = nextS + 1;
                              candidate1 = table1 nextHash2;
                              now1 = drop_bit 8 now;
                              table2 = table1(nextHash2 := s1 + cur);
                              t1 = candidate1 - cur
                          in case candidate_hit data s1 t1 now of
                               None \<Rightarrow> None
                             | Some hit1 \<Rightarrow>
                                 if hit1
                                 then Some (Inr (st\<lparr>ls_phase := L1_Match t1 nextS1,
                                                    ls_table := table2(hash5 now1 := nextS1 + cur),
                                                    ls_s := s1, ls_cv := now\<rparr>))
                                 else Some (Inr (st\<lparr>ls_table := table2, ls_s := nextS1,
                                                    ls_cv := now1\<rparr>)))))"

definition l1_match_step :: "byte list \<Rightarrow> int \<Rightarrow> int \<Rightarrow> int \<Rightarrow> int \<Rightarrow> l1_state \<Rightarrow> (l1_result + l1_state) option" where
  "l1_match_step data cur sLimit t nextS st =
     (let table = ls_table st; s = ls_s st; nextEmit = ls_nextEmit st
      in case matchLen data (s + 4) (t + 4) (match_maxLen data s) of
           None \<Rightarrow> None
         | Some m \<Rightarrow>
             (case extend_back data nextEmit s t (m + 4) of
                None \<Rightarrow> None
              | Some (s1, t1, l) \<Rightarrow>
                  (case emit_literals data (ls_dst st) nextEmit s1 of
                     None \<Rightarrow> None
                   | Some dst1 \<Rightarrow>
                       (let dst2 = addMatchLong dst1 l (word_of_int (s1 - t1 - 1));
                            s2 = s1 + l;
                            nextEmit1 = s2;
                            s3 = (if nextS \<ge> s2 then nextS + 1 else s2)
                        in if s3 \<ge> sLimit then
                             (if s3 + 8 < int (length data)
                              then (case load64 data s3 of
                                      None \<Rightarrow> None
                                    | Some cv1 \<Rightarrow>
                                        Some (Inl (table(hash5 cv1 := s3 + cur), nextEmit1, dst2)))
                              else Some (Inl (table, nextEmit1, dst2)))
                           else
                             case load64 data (s3 - 2) of
                               None \<Rightarrow> None
                             | Some x \<Rightarrow>
                                 (let o_pos = cur + s3 - 2;
                                      table1 = table(hash5 x := o_pos);
                                      x1 = drop_bit 16 x;
                                      candidate = table1 (hash5 x1);
                                      table2 = table1(hash5 x1 := o_pos + 2);
                                      t2 = candidate - cur
                                  in case (if s3 - t2 > MAX_MATCH_OFFSET then Some True
                                           else map_option (\<lambda>v. ucast x1 \<noteq> v) (load32 data t2)) of
                                       None \<Rightarrow> None
                                     | Some miss \<Rightarrow>
                                         if miss
                                         then Some (Inr (st\<lparr>ls_phase := L1_Search, ls_table := table2,
                                                            ls_s := s3 + 1, ls_nextEmit := nextEmit1,
                                                            ls_cv := drop_bit 8 x1, ls_dst := dst2\<rparr>))
                                         else Some (Inr (st\<lparr>ls_phase := L1_Match t2 nextS,
                                                            ls_table := table2, ls_s := s3,
                                                            ls_nextEmit := nextEmit1,
                                                            ls_dst := dst2\<rparr>)))))))"

definition l1_step :: "byte list \<Rightarrow> int \<Rightarrow> int \<Rightarrow> l1_state \<Rightarrow> (l1_result + l1_state) option" where
  "l1_step data cur sLimit st =
     (case ls_phase st of
        L1_Search \<Rightarrow> l1_search_step data cur sLimit st
      | L1_Match t nextS \<Rightarrow> l1_match_step data cur sLimit t nextS st)"

partial_function (option) l1_loop :: "byte list \<Rightarrow> int \<Rightarrow> int \<Rightarrow> l1_state \<Rightarrow> l1_result option" where
  "l1_loop data cur sLimit st =
     (case l1_step data cur sLimit st of
        None \<Rightarrow> None
      | Some (Inl r) \<Rightarrow> Some r
      | Some (Inr st1) \<Rightarrow> l1_loop data cur sLimit st1)"

declare l1_loop.simps [code]

text \<open>The code at the label \<^verbatim>\<open>emitRemainder\<close>.\<close>

definition emitRemainder :: "byte list \<Rightarrow> int \<Rightarrow> Tokens \<Rightarrow> Tokens option" where
  "emitRemainder data nextEmit dst =
     (if nextEmit < int (length data) then
        (if tk_n dst = 0 then Some dst else emit_literals data dst nextEmit (int (length data)))
      else Some dst)"

definition FastEncL1_encode :: "FastEncL1 \<Rightarrow> Tokens \<Rightarrow> byte list \<Rightarrow> (FastEncL1 \<times> Tokens) option" where
  "FastEncL1_encode e dst src =
     (let e1 = (if fg_cur e \<ge> bufferReset
                then e\<lparr>l1_table := rebase_table (fg_cur e) (length (fg_hist e)) (l1_table e),
                       fg_cur := MAX_MATCH_OFFSET\<rparr>
                else e);
          (s, e2) = addBlock e1 src
      in if int (length src) < 13 then Some (e2, dst\<lparr>tk_n := of_nat (length src)\<rparr>)
         else
           case load64 (fg_hist e2) s of
             None \<Rightarrow> None
           | Some cv \<Rightarrow>
               (case l1_loop (fg_hist e2) (fg_cur e2) (int (length (fg_hist e2)) - 11)
                       \<lparr> ls_phase = L1_Search, ls_table = l1_table e2, ls_s = s, ls_nextEmit = s,
                         ls_cv = cv, ls_dst = dst \<rparr> of
                  None \<Rightarrow> None
                | Some (table, nextEmit, dst1) \<Rightarrow>
                    map_option (\<lambda>dst2. (e2\<lparr>l1_table := table\<rparr>, dst2))
                      (emitRemainder (fg_hist e2) nextEmit dst1)))"

section \<open>The level-4 encoder\<close>

text \<open>
  The loop after a match that enters every third position between \<^verbatim>\<open>nextS\<close> and \<^verbatim>\<open>s - 1\<close>
  into both tables; the first pass is the \<^verbatim>\<open>if (i < s - 1)\<close> block, the others the \<^verbatim>\<open>for\<close>.
\<close>

function l4_seed :: "byte list \<Rightarrow> int \<Rightarrow> int \<Rightarrow> int \<Rightarrow> (nat \<Rightarrow> int) \<Rightarrow> (nat \<Rightarrow> int) \<Rightarrow> ((nat \<Rightarrow> int) \<times> (nat \<Rightarrow> int)) option" where
  "l4_seed data cur s i table bTable =
     (if i < s - 1 then
        (case load64 data i of
           None \<Rightarrow> None
         | Some cv \<Rightarrow>
             (let te = i + cur;
                  te2 = te + 1;
                  bTable1 = bTable(hash7 cv := te);
                  bTable2 = bTable1(hash7 (drop_bit 8 cv) := te2);
                  table1 = table(hash4 (ucast (drop_bit 8 cv)) := te2)
              in l4_seed data cur s (i + 3) table1 bTable2))
      else Some (table, bTable))"
  by pat_completeness auto
termination
  by (relation "measure (\<lambda>(data, cur, s, i, table, bTable). nat (s - i))") auto

declare l4_seed.simps [simp del]

text \<open>
  The choice between the short-hash candidate at \<open>s\<close> and the long-hash candidate one step
  ahead: the position and candidate the match is emitted for.
\<close>

definition l4_pick :: "byte list \<Rightarrow> int \<Rightarrow> (nat \<Rightarrow> int) \<Rightarrow> int \<Rightarrow> int \<Rightarrow> int \<Rightarrow> 64 word \<Rightarrow> (int \<times> int) option" where
  "l4_pick data cur bTable s t nextS nxt =
     (let lCand2 = bTable (hash7 nxt);
          lOff = lCand2 - cur
      in case (if nextS - lOff < MAX_MATCH_OFFSET
               then map_option (\<lambda>v. v = ucast nxt) (load32 data lOff) else Some False) of
           None \<Rightarrow> None
         | Some ahead \<Rightarrow>
             if ahead then
               (case matchLen data (s + 4) (t + 4) (match_maxLen data s) of
                  None \<Rightarrow> None
                | Some l1 \<Rightarrow>
                    (case matchLen data (nextS + 4) (nextS - lOff + 4) (match_maxLen data nextS) of
                       None \<Rightarrow> None
                     | Some l2 \<Rightarrow> if l2 > l1 then Some (nextS, lOff) else Some (s, t)))
             else Some (s, t))"

text \<open>
  The loops of \<^verbatim>\<open>FastEncL4::encode\<close>, as a step function. A step is one pass of the inner
  \<^verbatim>\<open>while (true)\<close>, entered with \<^verbatim>\<open>nextS\<close> and \<^verbatim>\<open>cv\<close>; when it finds a match, the block
  that emits the match belongs to the same step. Results as for level 1.
\<close>

record l4_state =
  l4s_table :: "nat \<Rightarrow> int"
  l4s_bTable :: "nat \<Rightarrow> int"
  l4s_nextS :: int
  l4s_nextEmit :: int
  l4s_cv :: "64 word"
  l4s_dst :: Tokens

type_synonym l4_result = "(nat \<Rightarrow> int) \<times> (nat \<Rightarrow> int) \<times> int \<times> Tokens"

text \<open>The block after the inner loop: emit the match at \<open>sm\<close> with candidate \<open>t\<close>.\<close>

definition l4_emit_match :: "byte list \<Rightarrow> int \<Rightarrow> int \<Rightarrow> l4_state \<Rightarrow> (nat \<Rightarrow> int) \<Rightarrow> (nat \<Rightarrow> int) \<Rightarrow> int \<Rightarrow> int \<Rightarrow> int \<Rightarrow> (l4_result + l4_state) option" where
  "l4_emit_match data cur sLimit st table1 bTable1 nextS sm t =
     (let nextEmit = l4s_nextEmit st
      in case matchLen data (sm + 4) (t + 4) (match_maxLen data sm) of
           None \<Rightarrow> None
         | Some m \<Rightarrow>
             (case extend_back data nextEmit sm t (m + 4) of
                None \<Rightarrow> None
              | Some (s1, t1, l) \<Rightarrow>
                  (case emit_literals data (l4s_dst st) nextEmit s1 of
                     None \<Rightarrow> None
                   | Some dst1 \<Rightarrow>
                       (let dst2 = addMatchLong dst1 l (word_of_int (s1 - t1 - 1));
                            s2 = s1 + l;
                            nextEmit1 = s2;
                            s3 = (if nextS \<ge> s2 then nextS + 1 else s2)
                        in if s3 \<ge> sLimit then
                             (if s3 + 8 < int (length data)
                              then (case load64 data s3 of
                                      None \<Rightarrow> None
                                    | Some cv1 \<Rightarrow>
                                        Some (Inl (table1(hash4 (ucast cv1) := s3 + cur),
                                                   bTable1(hash7 cv1 := s3 + cur), nextEmit1, dst2)))
                              else Some (Inl (table1, bTable1, nextEmit1, dst2)))
                           else
                             case l4_seed data cur s3 nextS table1 bTable1 of
                               None \<Rightarrow> None
                             | Some (table2, bTable2) \<Rightarrow>
                                 (case load64 data (s3 - 1) of
                                    None \<Rightarrow> None
                                  | Some x \<Rightarrow>
                                      Some (Inr \<lparr> l4s_table = table2(hash4 (ucast x) := cur + s3 - 1),
                                                  l4s_bTable = bTable2(hash7 x := cur + s3 - 1),
                                                  l4s_nextS = s3, l4s_nextEmit = nextEmit1,
                                                  l4s_cv = drop_bit 8 x, l4s_dst = dst2 \<rparr>))))))"

definition l4_step :: "byte list \<Rightarrow> int \<Rightarrow> int \<Rightarrow> l4_state \<Rightarrow> (l4_result + l4_state) option" where
  "l4_step data cur sLimit st =
     (let table = l4s_table st; bTable = l4s_bTable st; nextEmit = l4s_nextEmit st; cv = l4s_cv st;
          nextHashS = hash4 (ucast cv);
          nextHashL = hash7 cv;
          s = l4s_nextS st;
          nextS = s + 1 + tdiv (s - nextEmit) 64
      in if nextS > sLimit then Some (Inl (table, bTable, nextEmit, l4s_dst st))
         else
           let sCandidate = table nextHashS;
               lCandidate = bTable nextHashL
           in case load64 data nextS of
                None \<Rightarrow> None
              | Some nxt \<Rightarrow>
                  (let table1 = table(nextHashS := s + cur);
                       bTable1 = bTable(nextHashL := s + cur)
                   in case candidate_hit data s (lCandidate - cur) cv of
                        None \<Rightarrow> None
                      | Some hitL \<Rightarrow>
                          if hitL
                          then l4_emit_match data cur sLimit st table1 bTable1 nextS s (lCandidate - cur)
                          else
                            case candidate_hit data s (sCandidate - cur) cv of
                              None \<Rightarrow> None
                            | Some hitS \<Rightarrow>
                                if hitS then
                                  (case l4_pick data cur bTable1 s (sCandidate - cur) nextS nxt of
                                     None \<Rightarrow> None
                                   | Some (sm, t) \<Rightarrow>
                                       l4_emit_match data cur sLimit st table1 bTable1 nextS sm t)
                                else Some (Inr (st\<lparr>l4s_table := table1, l4s_bTable := bTable1,
                                                   l4s_nextS := nextS, l4s_cv := nxt\<rparr>))))"

partial_function (option) l4_loop :: "byte list \<Rightarrow> int \<Rightarrow> int \<Rightarrow> l4_state \<Rightarrow> l4_result option" where
  "l4_loop data cur sLimit st =
     (case l4_step data cur sLimit st of
        None \<Rightarrow> None
      | Some (Inl r) \<Rightarrow> Some r
      | Some (Inr st1) \<Rightarrow> l4_loop data cur sLimit st1)"

declare l4_loop.simps [code]

definition FastEncL4_encode :: "FastEncL4 \<Rightarrow> Tokens \<Rightarrow> byte list \<Rightarrow> (FastEncL4 \<times> Tokens) option" where
  "FastEncL4_encode e dst src =
     (let e1 = (if fg_cur e \<ge> bufferReset
                then e\<lparr>l4_table := rebase_table (fg_cur e) (length (fg_hist e)) (l4_table e),
                       l4_bTable := rebase_table (fg_cur e) (length (fg_hist e)) (l4_bTable e),
                       fg_cur := MAX_MATCH_OFFSET\<rparr>
                else e);
          (s, e2) = addBlock e1 src
      in if int (length src) < 13 then Some (e2, dst\<lparr>tk_n := of_nat (length src)\<rparr>)
         else
           case load64 (fg_hist e2) s of
             None \<Rightarrow> None
           | Some cv \<Rightarrow>
               (case l4_loop (fg_hist e2) (fg_cur e2) (int (length (fg_hist e2)) - 11)
                       \<lparr> l4s_table = l4_table e2, l4s_bTable = l4_bTable e2, l4s_nextS = s,
                         l4s_nextEmit = s, l4s_cv = cv, l4s_dst = dst \<rparr> of
                  None \<Rightarrow> None
                | Some (table, bTable, nextEmit, dst1) \<Rightarrow>
                    map_option (\<lambda>dst2. (e2\<lparr>l4_table := table, l4_bTable := bTable\<rparr>, dst2))
                      (emitRemainder (fg_hist e2) nextEmit dst1)))"

section \<open>FastDeflate\<close>

text \<open>
  The members of the class. \<^verbatim>\<open>tokens_\<close> is not initialised by the constructor, so the token
  array of a new object holds whatever the memory held: a state of the class is any value
  of this record.
\<close>

record FastDeflate =
  fd_level :: nat
  fd_encoderL1 :: FastEncL1
  fd_encoderL4 :: FastEncL4
  fd_writer :: HuffmanBitWriter
  fd_tokens :: Tokens
  fd_useL1 :: bool

text \<open>The constructor, given the initial memory of the token array and histograms.\<close>

definition FastDeflate_new :: "nat \<Rightarrow> Tokens \<Rightarrow> FastDeflate" where
  "FastDeflate_new level mem =
     \<lparr> fd_level = level, fd_encoderL1 = FastEncL1_new, fd_encoderL4 = FastEncL4_new,
       fd_writer = HuffmanBitWriter_new, fd_tokens = mem\<lparr>tk_n := 0\<rparr>, fd_useL1 = (level \<le> 3) \<rparr>"

definition FastDeflate_reset :: "FastDeflate \<Rightarrow> FastDeflate" where
  "FastDeflate_reset d =
     d\<lparr>fd_encoderL1 := FastEncL1_reset (fd_encoderL1 d),
       fd_encoderL4 := FastEncL4_reset (fd_encoderL4 d),
       fd_writer := HuffmanBitWriter_reset (fd_writer d),
       fd_tokens := Tokens_reset (fd_tokens d)\<rparr>"

text \<open>
  The choice of the block writer that \<^verbatim>\<open>FastDeflate::compress\<close>, \<^verbatim>\<open>FlateWriter::storeFast\<close> and
  \<^verbatim>\<open>FlateWriter::close\<close> each spell out after \<^verbatim>\<open>encode\<close>: the writer and the tokens after the
  block.
\<close>

definition write_encoded_block :: "HuffmanBitWriter \<Rightarrow> Tokens \<Rightarrow> byte list \<Rightarrow> bool \<Rightarrow> (HuffmanBitWriter \<times> Tokens) option" where
  "write_encoded_block w tokens block isLast =
     (let blockSize = length block
      in if tk_n tokens = 0
         then map_option (\<lambda>w'. (w', tokens)) (write_stored_block w block isLast)
         else if unat (tk_n tokens) > blockSize - drop_bit 4 blockSize
         then map_option (\<lambda>w'. (w', tokens)) (writeBlockHuff w isLast block isLast)
         else writeBlockDynamic w tokens isLast block isLast)"

text \<open>One pass of the \<^verbatim>\<open>while (pos < inputSize)\<close> loop of \<^verbatim>\<open>compress\<close>.\<close>

definition compress_block :: "FastDeflate \<Rightarrow> byte list \<Rightarrow> bool \<Rightarrow> FastDeflate option" where
  "compress_block d block isLast =
     (let d1 = d\<lparr>fd_tokens := Tokens_reset (fd_tokens d)\<rparr>
      in case (if fd_useL1 d1
               then map_option (\<lambda>(e, t). d1\<lparr>fd_encoderL1 := e, fd_tokens := t\<rparr>)
                      (FastEncL1_encode (fd_encoderL1 d1) (fd_tokens d1) block)
               else map_option (\<lambda>(e, t). d1\<lparr>fd_encoderL4 := e, fd_tokens := t\<rparr>)
                      (FastEncL4_encode (fd_encoderL4 d1) (fd_tokens d1) block)) of
           None \<Rightarrow> None
         | Some d2 \<Rightarrow>
             map_option (\<lambda>(w, t). d2\<lparr>fd_writer := w, fd_tokens := t\<rparr>)
               (write_encoded_block (fd_writer d2) (fd_tokens d2) block isLast))"

partial_function (option) compress_loop :: "FastDeflate \<Rightarrow> byte list \<Rightarrow> nat \<Rightarrow> FastDeflate option" where
  "compress_loop d input pos =
     (if pos < length input then
        (let blockSize = min (length input - pos) MAX_STORE_BLOCK_SIZE;
             isLast = (pos + blockSize \<ge> length input)
         in case compress_block d (take blockSize (drop pos input)) isLast of
              None \<Rightarrow> None
            | Some d1 \<Rightarrow> compress_loop d1 input (pos + blockSize))
      else Some d)"

declare compress_loop.simps [code]

text \<open>
  \<^verbatim>\<open>FastDeflate::compress\<close>: the object afterwards and the vector \<^verbatim>\<open>output\<close>. The writer's
  buffer is moved into \<^verbatim>\<open>output\<close> and is empty afterwards.
\<close>

definition FastDeflate_compress :: "FastDeflate \<Rightarrow> byte list \<Rightarrow> (FastDeflate \<times> byte list) option" where
  "FastDeflate_compress d0 input =
     (let d = FastDeflate_reset d0
      in case (if input = []
               then Some (d\<lparr>fd_writer := flush (writeStoredHeader (fd_writer d) 0 True)\<rparr>)
               else map_option (\<lambda>d1. d1\<lparr>fd_writer := flush (fd_writer d1)\<rparr>) (compress_loop d input 0)) of
           None \<Rightarrow> None
         | Some d2 \<Rightarrow> Some (d2\<lparr>fd_writer := (fd_writer d2)\<lparr>bw_output := []\<rparr>\<rparr>, bw_output (fd_writer d2)))"

definition deflateCompress :: "Tokens \<Rightarrow> byte list \<Rightarrow> nat \<Rightarrow> byte list option" where
  "deflateCompress mem input level =
     map_option snd (FastDeflate_compress (FastDeflate_new level mem) input)"

section \<open>FlateWriter\<close>

text \<open>
  The members of the class; \<open>fw_sink\<close> collects the bytes handed to the callback \<^verbatim>\<open>output_\<close>
  and \<open>fw_has_output\<close> tells whether the callback is set. The window has
  \<^verbatim>\<open>MAX_STORE_BLOCK_SIZE\<close> bytes, of which the first \<^verbatim>\<open>windowEnd_\<close> are in use. As in
  \<open>FastDeflate\<close>, \<^verbatim>\<open>tokens_\<close> starts with the contents of the memory.
\<close>

record FlateWriter =
  fw_sink :: "byte list"
  fw_has_output :: bool
  fw_window :: "byte list"
  fw_windowEnd :: nat
  fw_level :: nat
  fw_useL1 :: bool
  fw_encoderL1 :: FastEncL1
  fw_encoderL4 :: FastEncL4
  fw_writer :: HuffmanBitWriter
  fw_tokens :: Tokens


text \<open>\<^verbatim>\<open>encoder()->reset()\<close> and \<^verbatim>\<open>encoder()->encode(&tokens_, window_.data(), windowEnd_)\<close>.\<close>

definition fw_encoder_reset :: "FlateWriter \<Rightarrow> FlateWriter" where
  "fw_encoder_reset fw =
     (if fw_useL1 fw then fw\<lparr>fw_encoderL1 := FastEncL1_reset (fw_encoderL1 fw)\<rparr>
      else fw\<lparr>fw_encoderL4 := FastEncL4_reset (fw_encoderL4 fw)\<rparr>)"

definition fw_encode :: "FlateWriter \<Rightarrow> FlateWriter option" where
  "fw_encode fw =
     (let block = take (fw_windowEnd fw) (fw_window fw)
      in if fw_useL1 fw
         then map_option (\<lambda>(e, t). fw\<lparr>fw_encoderL1 := e, fw_tokens := t\<rparr>)
                (FastEncL1_encode (fw_encoderL1 fw) (fw_tokens fw) block)
         else map_option (\<lambda>(e, t). fw\<lparr>fw_encoderL4 := e, fw_tokens := t\<rparr>)
                (FastEncL4_encode (fw_encoderL4 fw) (fw_tokens fw) block))"

definition fillBlock :: "FlateWriter \<Rightarrow> byte list \<Rightarrow> nat \<times> FlateWriter" where
  "fillBlock fw data0 =
     (let n = min (length data0) (length (fw_window fw) - fw_windowEnd fw)
      in (n, fw\<lparr>fw_window := take (fw_windowEnd fw) (fw_window fw) @ take n data0
                              @ drop (fw_windowEnd fw + n) (fw_window fw),
                fw_windowEnd := fw_windowEnd fw + n\<rparr>))"

definition flushOutput :: "FlateWriter \<Rightarrow> FlateWriter" where
  "flushOutput fw =
     (if length (bw_output (fw_writer fw)) \<ge> 256 * 1024 \<and> fw_has_output fw
      then fw\<lparr>fw_sink := fw_sink fw @ bw_output (fw_writer fw),
              fw_writer := (fw_writer fw)\<lparr>bw_output := []\<rparr>\<rparr>
      else fw)"


definition storeFast :: "FlateWriter \<Rightarrow> FlateWriter option" where
  "storeFast fw =
     (let block = take (fw_windowEnd fw) (fw_window fw)
      in if fw_windowEnd fw = 0 then Some fw
         else if fw_windowEnd fw < 128 then
           (case (if fw_windowEnd fw \<le> 32 then write_stored_block (fw_writer fw) block False
                  else writeBlockHuff (fw_writer fw) False block False) of
              None \<Rightarrow> None
            | Some w \<Rightarrow>
                Some (flushOutput (fw_encoder_reset
                        (fw\<lparr>fw_writer := w, fw_tokens := Tokens_reset (fw_tokens fw),
                            fw_windowEnd := 0\<rparr>))))
         else
           case fw_encode fw of
             None \<Rightarrow> None
           | Some fw1 \<Rightarrow>
               (case write_encoded_block (fw_writer fw1) (fw_tokens fw1) block False of
                  None \<Rightarrow> None
                | Some (w, t) \<Rightarrow>
                    Some (flushOutput (fw1\<lparr>fw_writer := w, fw_tokens := Tokens_reset t,
                                           fw_windowEnd := 0\<rparr>))))"

text \<open>The loop of \<^verbatim>\<open>FlateWriter::write\<close>; the return value is the size of the data.\<close>

partial_function (option) FlateWriter_write :: "FlateWriter \<Rightarrow> byte list \<Rightarrow> FlateWriter option" where
  "FlateWriter_write fw data0 =
     (if length data0 > 0 then
        (case (if fw_windowEnd fw = length (fw_window fw) then storeFast fw else Some fw) of
           None \<Rightarrow> None
         | Some fw1 \<Rightarrow>
             (let (n, fw2) = fillBlock fw1 data0
              in FlateWriter_write fw2 (drop n data0)))
      else Some fw)"

declare FlateWriter_write.simps [code]


definition FlateWriter_reset :: "FlateWriter \<Rightarrow> FlateWriter" where
  "FlateWriter_reset fw =
     fw_encoder_reset
       (fw\<lparr>fw_sink := [], fw_has_output := True, fw_windowEnd := 0,
           fw_writer := HuffmanBitWriter_reset (fw_writer fw),
           fw_tokens := Tokens_reset (fw_tokens fw)\<rparr>)"

section \<open>Example values for the DEFLATE encoder\<close>

text \<open>A token memory that holds zeros, as freshly mapped memory does.\<close>

definition zero_tokens :: Tokens where
  "zero_tokens =
     \<lparr> tk_extraHist = (\<lambda>_. 0), tk_offHist = (\<lambda>_. 0), tk_litHist = (\<lambda>_. 0), tk_n = 0,
       tk_tokens = (\<lambda>_. 0) \<rparr>"

text \<open>
  The tokens of a block of twenty bytes \<^verbatim>\<open>a\<close>: two literals and a match of length 18 at
  distance 2 (\<^verbatim>\<open>xoffset\<close> is the distance minus one), added to a token set after \<^verbatim>\<open>reset\<close>.
\<close>

definition twenty_a_tokens :: Tokens where
  "twenty_a_tokens =
     addMatchLong (addLiteral (addLiteral (Tokens_reset zero_tokens) 0x61) 0x61) 18 1"


text \<open>
  The tokens of a run: two literals \<^verbatim>\<open>a\<close> and a match of 65 532 bytes at distance 2, which
  \<^verbatim>\<open>addMatchLong\<close> splits into 254 matches of length 258. They stand for a block of 65 534
  bytes \<^verbatim>\<open>a\<close>.
\<close>

definition long_run_tokens :: Tokens where
  "long_run_tokens =
     addMatchLong (addLiteral (addLiteral (Tokens_reset zero_tokens) 0x61) 0x61) 65532 1"

section \<open>Properties of the ZIP writer\<close>

lemma length_write16 [simp]: "length (write16 v) = 2" by (simp add: write16_def)

lemma length_write32 [simp]: "length (write32 v) = 4" by (simp add: write32_def)

lemma length_write64 [simp]: "length (write64 v) = 8" by (simp add: write64_def)

lemma ff16: "(255::16 word) = mask 8" by (simp add: mask_eq_exp_minus_1)

lemma ff32: "(255::32 word) = mask 8" by (simp add: mask_eq_exp_minus_1)

lemma ff64: "(255::64 word) = mask 8" by (simp add: mask_eq_exp_minus_1)

lemma bit_byte_at:
  "bit (push_bit k (ucast (ucast (drop_bit k v AND mask 8 :: 'a::len word) :: byte)) :: 'a word) n
     = (k \<le> n \<and> n < k + 8 \<and> n < LENGTH('a) \<and> bit v n)"
  by (auto simp add: bit_simps)

lemma bit_byte_0:
  "bit (ucast (ucast (v AND mask 8 :: 'a::len word) :: byte) :: 'a word) n
     = (n < 8 \<and> n < LENGTH('a) \<and> bit v n)"
  by (auto simp add: bit_simps)

lemma read16_write16 [simp]: "read16 (write16 v @ xs) = v"
  by (rule bit_word_eqI)
     (auto simp add: read16_def write16_def ff16 bit_or_iff bit_byte_at bit_byte_0 not_less)

lemma read32_write32 [simp]: "read32 (write32 v @ xs) = v"
  by (rule bit_word_eqI)
     (auto simp add: read32_def write32_def ff32 bit_or_iff bit_byte_at bit_byte_0 not_less)

lemma le64_write64 [simp]: "le64 (write64 v @ xs) = v"
  by (rule bit_word_eqI)
     (auto simp add: le64_def write64_def ff64 bit_or_iff bit_byte_at bit_byte_0 not_less)

lemmas read16_write16' [simp] = read16_write16 [of _ "[]", simplified]

lemmas read32_write32' [simp] = read32_write32 [of _ "[]", simplified]

lemmas le64_write64' [simp] = le64_write64 [of _ "[]", simplified]

lemma lfh_length: "length (localFileHeader_buf h) = 30 + length (name h) + length (extra h)"
  by (simp add: localFileHeader_buf_def)

lemma lfh_tail: "drop 30 (localFileHeader_buf h) = name h @ extra h"
  by (simp add: localFileHeader_buf_def)

lemma lfh_sig: "read32 (localFileHeader_buf h) = LOCAL_FILE_HEADER_SIG"
  by (simp add: localFileHeader_buf_def)

lemma lfh_version: "read16 (drop 4 (localFileHeader_buf h)) = (if isZip64 h then ZIP_VERSION_45 else versionNeeded h)"
  by (simp add: localFileHeader_buf_def)

lemma lfh_flags: "read16 (drop 6 (localFileHeader_buf h)) = flags h"
  by (simp add: localFileHeader_buf_def)

lemma lfh_crc: "read32 (drop 14 (localFileHeader_buf h)) = (if has_data_descriptor h then 0 else crc32 h)"
  by (simp add: localFileHeader_buf_def)

lemma lfh_csize: "read32 (drop 18 (localFileHeader_buf h)) =
   (if has_data_descriptor h then 0 else if isZip64 h then ZIP_UINT32_MAX else ucast (compressedSize h))"
  by (simp add: localFileHeader_buf_def)

lemma lfh_usize: "read32 (drop 22 (localFileHeader_buf h)) =
   (if has_data_descriptor h then 0 else if isZip64 h then ZIP_UINT32_MAX else ucast (uncompressedSize h))"
  by (simp add: localFileHeader_buf_def)

lemma lfh_nameLen: "read16 (drop 26 (localFileHeader_buf h)) = of_nat (length (name h))"
  by (simp add: localFileHeader_buf_def)

lemma dd_length: "length (dataDescriptor_buf h) = (if isZip64 h then 24 else 16)"
  by (simp add: dataDescriptor_buf_def)

lemma dd_sig: "read32 (dataDescriptor_buf h) = DATA_DESCRIPTOR_SIG"
  by (simp add: dataDescriptor_buf_def)

lemma dd_crc: "read32 (drop 4 (dataDescriptor_buf h)) = crc32 h"
  by (simp add: dataDescriptor_buf_def)

lemma dd_sizes64: "isZip64 h \<Longrightarrow> le64 (drop 8 (dataDescriptor_buf h)) = compressedSize h \<and> le64 (drop 16 (dataDescriptor_buf h)) = uncompressedSize h"
  by (simp add: dataDescriptor_buf_def)

lemma dd_sizes32: "\<not> isZip64 h \<Longrightarrow> read32 (drop 8 (dataDescriptor_buf h)) = ucast (compressedSize h) \<and> read32 (drop 12 (dataDescriptor_buf h)) = ucast (uncompressedSize h)"
  by (simp add: dataDescriptor_buf_def)

lemma ucast_32_64_id: "(x::64 word) < 0xFFFFFFFF \<Longrightarrow> ucast (ucast x :: 32 word) = x"
proof -
  assume "x < 0xFFFFFFFF"
  moreover have "(0xFFFFFFFF :: 64 word) < 2 ^ 32" by simp
  ultimately have "x < 2 ^ 32" by (rule less_trans)
  then have m: "x AND mask 32 = x" by (rule less_mask_eq)
  have hi: "n < 32" if "bit x n" for n
    using that m by (metis bit_and_iff bit_mask_iff)
  show ?thesis
    by (rule bit_word_eqI) (auto simp add: bit_simps dest: hi)
qed

lemma not_zip64_sizes: "\<not> isZip64 h \<Longrightarrow> ucast (ucast (compressedSize h) :: 32 word) = compressedSize h \<and> ucast (ucast (uncompressedSize h) :: 32 word) = uncompressedSize h"
  by (simp add: isZip64_def ZIP_UINT32_MAX_def not_le ucast_32_64_id)

lemma foldl_write_chunk_file:
  "is_open (zw_file w) \<Longrightarrow> good (zw_file w) \<Longrightarrow>
   zw_file (foldl write_chunk w chunks) = (zw_file w)\<lparr>contents := contents (zw_file w) @ concat chunks\<rparr>"
  by (induction chunks arbitrary: w) (auto simp add: write_chunk_def ofs_write_def)

lemma createRaw_ok:
  assumes "is_open (zw_file w)" and "good (zw_file w)"
  shows "fst (createRaw w h chunks) = OK"
    and "contents (zw_file (snd (createRaw w h chunks))) =
           contents (zw_file w) @ localFileHeader_buf h @ concat chunks
           @ (if has_data_descriptor h then dataDescriptor_buf h else [])"
  using assms
  by (simp_all add: createRaw_def writeLocalFileHeader_def writeDataDescriptor_def Let_def
        ofs_write_def foldl_write_chunk_file split: prod.splits)

text \<open>
  Claim C4. On an open, good stream \<^verbatim>\<open>createRaw\<close> succeeds and appends the local file header,
  the member data and, exactly when bit 3 of the flags is set, the data descriptor. The
  header is a 30-byte prefix followed by the name and the extra field; its version-needed
  field is 45 for a ZIP64 header; its CRC and size fields are 0 when bit 3 is set,
  otherwise the CRC is the header's and the sizes are \<open>0xFFFFFFFF\<close> for a ZIP64 header and
  the real values (which then fit 32 bits) otherwise. The descriptor has 16 bytes, or 24
  for a ZIP64 header, starts with \<open>0x08074b50\<close> and carries the real CRC and sizes.
\<close>

theorem createRaw_header_layout:
  assumes "is_open (zw_file w)" and "good (zw_file w)"
  shows "fst (createRaw w h chunks) = OK
       \<and> contents (zw_file (snd (createRaw w h chunks))) =
           contents (zw_file w) @ localFileHeader_buf h @ concat chunks
           @ (if has_data_descriptor h then dataDescriptor_buf h else [])
       \<and> length (localFileHeader_buf h) = 30 + length (name h) + length (extra h)
       \<and> drop 30 (localFileHeader_buf h) = name h @ extra h
       \<and> read16 (drop 4 (localFileHeader_buf h)) = (if isZip64 h then 45 else versionNeeded h)
       \<and> read32 (drop 14 (localFileHeader_buf h)) = (if has_data_descriptor h then 0 else crc32 h)
       \<and> read32 (drop 18 (localFileHeader_buf h)) =
           (if has_data_descriptor h then 0 else if isZip64 h then 0xFFFFFFFF
            else ucast (compressedSize h))
       \<and> read32 (drop 22 (localFileHeader_buf h)) =
           (if has_data_descriptor h then 0 else if isZip64 h then 0xFFFFFFFF
            else ucast (uncompressedSize h))
       \<and> (if isZip64 h then True
           else ucast (ucast (compressedSize h) :: 32 word) = compressedSize h
              \<and> ucast (ucast (uncompressedSize h) :: 32 word) = uncompressedSize h)
       \<and> length (dataDescriptor_buf h) = (if isZip64 h then 24 else 16)
       \<and> read32 (dataDescriptor_buf h) = 0x08074b50
       \<and> read32 (drop 4 (dataDescriptor_buf h)) = crc32 h
       \<and> (if isZip64 h
           then le64 (drop 8 (dataDescriptor_buf h)) = compressedSize h
              \<and> le64 (drop 16 (dataDescriptor_buf h)) = uncompressedSize h
           else ucast (read32 (drop 8 (dataDescriptor_buf h))) = compressedSize h
              \<and> ucast (read32 (drop 12 (dataDescriptor_buf h))) = uncompressedSize h)"
proof -
  note ok = createRaw_ok [OF assms, of h chunks]
  have sz: "(if isZip64 h then True
           else ucast (ucast (compressedSize h) :: 32 word) = compressedSize h
              \<and> ucast (ucast (uncompressedSize h) :: 32 word) = uncompressedSize h)"
    using not_zip64_sizes [of h] by simp
  have dds: "(if isZip64 h
           then le64 (drop 8 (dataDescriptor_buf h)) = compressedSize h
              \<and> le64 (drop 16 (dataDescriptor_buf h)) = uncompressedSize h
           else ucast (read32 (drop 8 (dataDescriptor_buf h))) = compressedSize h
              \<and> ucast (read32 (drop 12 (dataDescriptor_buf h))) = uncompressedSize h)"
    using dd_sizes64 [of h] dd_sizes32 [of h] not_zip64_sizes [of h] by simp
  have ver: "read16 (drop 4 (localFileHeader_buf h)) = (if isZip64 h then 45 else versionNeeded h)"
    using lfh_version [of h] by (simp add: ZIP_VERSION_45_def)
  have cs: "read32 (drop 18 (localFileHeader_buf h)) =
           (if has_data_descriptor h then 0 else if isZip64 h then 0xFFFFFFFF
            else ucast (compressedSize h))"
    using lfh_csize [of h] by (simp add: ZIP_UINT32_MAX_def)
  have us: "read32 (drop 22 (localFileHeader_buf h)) =
           (if has_data_descriptor h then 0 else if isZip64 h then 0xFFFFFFFF
            else ucast (uncompressedSize h))"
    using lfh_usize [of h] by (simp add: ZIP_UINT32_MAX_def)
  have ds: "read32 (dataDescriptor_buf h) = 0x08074b50"
    using dd_sig [of h] by (simp add: DATA_DESCRIPTOR_SIG_def)
  show ?thesis
    using ok sz dds ver cs us ds lfh_length [of h] lfh_tail [of h] lfh_crc [of h]
      dd_length [of h] dd_crc [of h]
    by blast
qed

text \<open>The theorem at a concrete header with bit 3 set and two chunks of data.\<close>

theorem createRaw_header_layout_witness:
  "is_open (zw_file ZipWriter_opened) \<and> good (zw_file ZipWriter_opened)
   \<and> fst (createRaw ZipWriter_opened example_header [[1, 2], [3]]) = OK
   \<and> contents (zw_file (snd (createRaw ZipWriter_opened example_header [[1, 2], [3]]))) =
       [0x50, 0x4b, 0x03, 0x04, 20, 0, 8, 0, 8, 0, 0, 0, 0, 0,
        0, 0, 0, 0, 0, 0, 0, 0, 0, 0, 0, 0, 1, 0, 0, 0, 0x61,
        1, 2, 3,
        0x50, 0x4b, 0x07, 0x08, 0x78, 0x56, 0x34, 0x12, 3, 0, 0, 0, 5, 0, 0, 0]"
proof -
  have o: "is_open (zw_file ZipWriter_opened)" and g: "good (zw_file ZipWriter_opened)"
    by (simp_all add: ZipWriter_opened_def)
  have z: "\<not> isZip64 example_header"
    by (simp add: isZip64_def example_header_def ZipFileHeader_new_def ZIP_UINT32_MAX_def)
  have d: "has_data_descriptor example_header"
    by (simp add: has_data_descriptor_def example_header_def ZipFileHeader_new_def
          ZIP_FLAG_DATA_DESCRIPTOR_def)
  have l: "localFileHeader_buf example_header =
        [0x50, 0x4b, 0x03, 0x04, 20, 0, 8, 0, 8, 0, 0, 0, 0, 0,
        0, 0, 0, 0, 0, 0, 0, 0, 0, 0, 0, 0, 1, 0, 0, 0, 0x61]"
    using z d
    by (simp add: localFileHeader_buf_def)
       (simp add: example_header_def ZipFileHeader_new_def write32_def write16_def
          LOCAL_FILE_HEADER_SIG_def ZIP_VERSION_20_def ZIP_METHOD_DEFLATE_def)
  have dd: "dataDescriptor_buf example_header =
        [0x50, 0x4b, 0x07, 0x08, 0x78, 0x56, 0x34, 0x12, 3, 0, 0, 0, 5, 0, 0, 0]"
    using z
    by (simp add: dataDescriptor_buf_def)
       (simp add: example_header_def ZipFileHeader_new_def write32_def DATA_DESCRIPTOR_SIG_def)
  have c: "contents (zw_file ZipWriter_opened) = []"
    by (simp add: ZipWriter_opened_def)
  show ?thesis
    using createRaw_header_layout [OF o g, of example_header "[[1, 2], [3]]"] o g d
    by (simp add: l dd c)
qed

text \<open>
  Claim C5. The writer has no length check. A name of 65 536 bytes is accepted by
  \<^verbatim>\<open>createRaw\<close>: it returns \<open>OK\<close> and writes a local header whose name-length field is 0,
  followed by all 65 536 bytes of the name. A comment of 65 536 bytes is accepted by
  \<^verbatim>\<open>close()\<close>: it returns \<open>OK\<close> and writes an end-of-central-directory record whose
  comment-length field is 0, followed by the whole comment.
\<close>

theorem oversize_name_and_comment_are_written:
  "fst (createRaw ZipWriter_opened (ZipFileHeader_new\<lparr>name := replicate 65536 0x61\<rparr>) []) = OK
   \<and> contents (zw_file (snd (createRaw ZipWriter_opened
          (ZipFileHeader_new\<lparr>name := replicate 65536 0x61\<rparr>) []))) =
       localFileHeader_buf (ZipFileHeader_new\<lparr>name := replicate 65536 0x61\<rparr>)
   \<and> read16 (drop 26 (localFileHeader_buf (ZipFileHeader_new\<lparr>name := replicate 65536 0x61\<rparr>))) = 0
   \<and> drop 30 (localFileHeader_buf (ZipFileHeader_new\<lparr>name := replicate 65536 0x61\<rparr>)) =
       replicate 65536 0x61
   \<and> fst (ZipWriter_close (setComment ZipWriter_opened (replicate 65536 0x61))) = OK
   \<and> contents (zw_file (snd (ZipWriter_close (setComment ZipWriter_opened (replicate 65536 0x61))))) =
       [0x50, 0x4b, 0x05, 0x06, 0, 0, 0, 0, 0, 0, 0, 0, 0, 0, 0, 0, 0, 0, 0, 0, 0, 0]
       @ replicate 65536 0x61"
proof -
  let ?h = "ZipFileHeader_new\<lparr>name := replicate 65536 0x61\<rparr>"
  have o: "is_open (zw_file ZipWriter_opened)" and g: "good (zw_file ZipWriter_opened)"
    by (simp_all add: ZipWriter_opened_def)
  have nd: "\<not> has_data_descriptor ?h"
    by (simp add: has_data_descriptor_def ZipFileHeader_new_def)
  have a: "fst (createRaw ZipWriter_opened ?h []) = OK"
    by (rule createRaw_ok (1) [OF o g])
  have b: "contents (zw_file (snd (createRaw ZipWriter_opened ?h []))) = localFileHeader_buf ?h"
    using createRaw_ok (2) [OF o g, of ?h "[]"] nd by (simp add: ZipWriter_opened_def)
  have c: "read16 (drop 26 (localFileHeader_buf ?h)) = 0"
    by (simp add: lfh_nameLen)
  have d: "drop 30 (localFileHeader_buf ?h) = replicate 65536 0x61"
    by (simp add: lfh_tail ZipFileHeader_new_def)
  have e: "ZipWriter_close (setComment ZipWriter_opened (replicate 65536 0x61)) =
        (OK, \<lparr> zw_file = \<lparr> is_open = False, good = True,
                contents = [0x50, 0x4b, 0x05, 0x06, 0, 0, 0, 0, 0, 0, 0, 0, 0, 0, 0, 0, 0, 0, 0, 0, 0, 0]
                           @ replicate 65536 0x61 \<rparr>,
               zw_centralDir = [], zw_comment = replicate 65536 0x61, zw_currentOffset = 0 \<rparr>)"
    by (simp add: ZipWriter_close_def setComment_def ZipWriter_opened_def writeCentralDirectory_def
          writeEndOfCentralDirectory_def Let_def ofs_write_def ofs_close_def
          ZIP_UINT16_MAX_def ZIP_UINT32_MAX_def write32_def write16_def END_OF_CENTRAL_DIR_SIG_def)
  show ?thesis using a b c d e by simp
qed

section \<open>Properties of the ZIP reader\<close>

lemma eocd_scan_range: "- 1 \<le> eocd_scan buf i \<and> (eocd_scan buf i \<le> i \<or> eocd_scan buf i = - 1)"
proof (induction buf i rule: eocd_scan.induct)
  case (1 buf i)
  then show ?case by (subst (1 2 3) eocd_scan.simps) auto
qed

lemma eocd_scan_miss:
  "eocd_scan buf i < 0 \<longleftrightarrow> (\<forall>j. int j \<le> i \<longrightarrow> \<not> eocd_sig_at buf j)"
proof (induction buf i rule: eocd_scan.induct)
  case (1 buf i)
  show ?case
  proof (cases "i < 0")
    case True
    then show ?thesis by (subst eocd_scan.simps) simp
  next
    case nonneg: False
    show ?thesis
    proof (cases "eocd_sig_at buf (nat i)")
      case True
      then have "eocd_scan buf i = i" using nonneg by (subst eocd_scan.simps) simp
      moreover have "int (nat i) \<le> i" using nonneg by simp
      then have "\<exists>j. int j \<le> i \<and> eocd_sig_at buf j" using True by blast
      ultimately show ?thesis using nonneg by simp
    next
      case False
      have step: "eocd_scan buf i = eocd_scan buf (i - 1)"
        using nonneg False by (subst eocd_scan.simps) simp
      have ih: "eocd_scan buf (i - 1) < 0 \<longleftrightarrow> (\<forall>j. int j \<le> i - 1 \<longrightarrow> \<not> eocd_sig_at buf j)"
        using 1 nonneg False by simp
      have "int j \<le> i \<longleftrightarrow> int j \<le> i - 1 \<or> j = nat i" for j
        using nonneg by auto
      then have "(\<forall>j. int j \<le> i \<longrightarrow> \<not> eocd_sig_at buf j) \<longleftrightarrow>
                 (\<forall>j. int j \<le> i - 1 \<longrightarrow> \<not> eocd_sig_at buf j)"
        using False by auto
      then show ?thesis using step ih by simp
    qed
  qed
qed

lemma ifs_read_at_good:
  "is_open f \<Longrightarrow> good f \<Longrightarrow> pos + length buf \<le> length (contents f) \<Longrightarrow>
   ifs_read_at f pos buf = (f, take (length buf) (drop pos (contents f)))"
  by (simp add: ifs_read_at_def Let_def)

lemma eocd_buf_last:
  assumes "is_open f" and "good f"
  shows "eocd_buf f = last_bytes (min (length (contents f)) EOCD_MAX_SEARCH) (contents f)"
  using assms
  by (simp add: eocd_buf_def eocd_maxSearch_def Let_def ifs_read_at_good last_bytes_def)

lemma eocd_read:
  assumes "is_open f" and "good f"
  shows "ifs_read_at f (length (contents f) - eocd_maxSearch f) (replicate (eocd_maxSearch f) 0)
         = (f, eocd_buf f)"
proof -
  have "eocd_maxSearch f \<le> length (contents f)"
    using assms by (simp add: eocd_maxSearch_def)
  then have "ifs_read_at f (length (contents f) - eocd_maxSearch f) (replicate (eocd_maxSearch f) 0)
        = (f, take (eocd_maxSearch f) (drop (length (contents f) - eocd_maxSearch f) (contents f)))"
    using assms by (simp add: ifs_read_at_good)
  then show ?thesis by (simp add: eocd_buf_def)
qed

lemma eocd_buf_length:
  assumes "is_open f" and "good f"
  shows "length (eocd_buf f) = eocd_maxSearch f"
proof -
  have "eocd_maxSearch f \<le> length (contents f)"
    using assms by (simp add: eocd_maxSearch_def)
  then show ?thesis using eocd_buf_last [OF assms]
    by (simp add: last_bytes_def eocd_maxSearch_def assms)
qed

lemma eocd_scan_last:
  "0 \<le> eocd_scan buf i \<Longrightarrow>
   eocd_sig_at buf (nat (eocd_scan buf i)) \<and> eocd_scan buf i \<le> i
   \<and> (\<forall>j. eocd_scan buf i < int j \<and> int j \<le> i \<longrightarrow> \<not> eocd_sig_at buf j)"
proof (induction buf i rule: eocd_scan.induct)
  case (1 buf i)
  show ?case
  proof (cases "i < 0")
    case True
    then have "eocd_scan buf i = - 1" by (subst eocd_scan.simps) simp
    then show ?thesis using "1.prems" by simp
  next
    case nonneg: False
    show ?thesis
    proof (cases "eocd_sig_at buf (nat i)")
      case True
      then have "eocd_scan buf i = i" using nonneg by (subst eocd_scan.simps) simp
      then show ?thesis using True by auto
    next
      case nosig: False
      have step: "eocd_scan buf i = eocd_scan buf (i - 1)"
        using nonneg nosig by (subst eocd_scan.simps) simp
      have ih: "eocd_sig_at buf (nat (eocd_scan buf (i - 1))) \<and> eocd_scan buf (i - 1) \<le> i - 1
          \<and> (\<forall>j. eocd_scan buf (i - 1) < int j \<and> int j \<le> i - 1 \<longrightarrow> \<not> eocd_sig_at buf j)"
        using 1 nonneg nosig step by simp
      have "\<not> eocd_sig_at buf j" if "eocd_scan buf (i - 1) < int j" and "int j \<le> i" for j
      proof (cases "int j \<le> i - 1")
        case True
        then show ?thesis using ih that by blast
      next
        case False
        then have "j = nat i" using that nonneg by linarith
        then show ?thesis using nosig by simp
      qed
      then show ?thesis using ih step by auto
    qed
  qed
qed

lemma eocd_scan_is_last:
  assumes "int k \<le> i" and "eocd_sig_at buf k"
    and "\<And>j. k < j \<Longrightarrow> int j \<le> i \<Longrightarrow> \<not> eocd_sig_at buf j"
  shows "eocd_scan buf i = int k"
proof -
  have "\<not> eocd_scan buf i < 0"
    using eocd_scan_miss [of buf i] assms(1,2) by blast
  then have n: "0 \<le> eocd_scan buf i" by simp
  note l = eocd_scan_last [OF n]
  have "\<not> eocd_scan buf i < int k"
    using l assms(1,2) by blast
  moreover have "\<not> int k < eocd_scan buf i"
  proof
    assume a: "int k < eocd_scan buf i"
    then have "k < nat (eocd_scan buf i)" and "int (nat (eocd_scan buf i)) \<le> i"
      using l n by simp_all
    then have "\<not> eocd_sig_at buf (nat (eocd_scan buf i))" by (rule assms(3))
    then show False using l by simp
  qed
  ultimately show ?thesis by simp
qed

lemma readEOCD_missing:
  assumes "is_open (zr_file r)" and "good (zr_file r)"
    and "\<And>i. i + 22 \<le> length (eocd_buf (zr_file r)) \<Longrightarrow> \<not> eocd_sig_at (eocd_buf (zr_file r)) i"
  shows "readEndOfCentralDirectory r = (INVALID_ARCHIVE, r)"
proof -
  let ?buf = "eocd_buf (zr_file r)"
  have "\<forall>j. int j \<le> int (length ?buf) - 22 \<longrightarrow> \<not> eocd_sig_at ?buf j"
    using assms(3) by auto
  then have "eocd_scan ?buf (int (length ?buf) - 22) < 0"
    using eocd_scan_miss [of ?buf "int (length ?buf) - 22"] by simp
  then show ?thesis
    by (simp add: readEndOfCentralDirectory_def Let_def eocd_read [OF assms(1,2)]
        eocd_buf_length [OF assms(1,2)])
qed

lemma readEOCD_found:
  assumes "is_open (zr_file r)" and "good (zr_file r)"
    and "i + 22 \<le> length (eocd_buf (zr_file r))" and "eocd_sig_at (eocd_buf (zr_file r)) i"
    and "\<And>j. i < j \<Longrightarrow> j + 22 \<le> length (eocd_buf (zr_file r))
           \<Longrightarrow> \<not> eocd_sig_at (eocd_buf (zr_file r)) j"
  shows "readEndOfCentralDirectory r =
     (OK, r\<lparr>zr_totalEntries := ucast (read16 (drop (i + 10) (eocd_buf (zr_file r)))),
            zr_centralDirSize := ucast (read32 (drop (i + 12) (eocd_buf (zr_file r)))),
            zr_centralDirOffset := ucast (read32 (drop (i + 16) (eocd_buf (zr_file r)))),
            zr_comment :=
              (if 0 < read16 (drop (i + 20) (eocd_buf (zr_file r)))
                  \<and> i + 22 + unat (read16 (drop (i + 20) (eocd_buf (zr_file r))))
                      \<le> length (eocd_buf (zr_file r))
               then take (unat (read16 (drop (i + 20) (eocd_buf (zr_file r)))))
                      (drop (i + 22) (eocd_buf (zr_file r)))
               else zr_comment r)\<rparr>)"
proof -
  let ?buf = "eocd_buf (zr_file r)"
  have s: "eocd_scan ?buf (int (length ?buf) - 22) = int i"
  proof (rule eocd_scan_is_last)
    show "int i \<le> int (length ?buf) - 22" using assms(3) by simp
    show "eocd_sig_at ?buf i" by (rule assms(4))
    show "\<not> eocd_sig_at ?buf j" if "i < j" and "int j \<le> int (length ?buf) - 22" for j
      using that assms(5) [of j] by simp
  qed
  have l: "length ?buf = eocd_maxSearch (zr_file r)"
    by (rule eocd_buf_length [OF assms(1,2)])
  have s': "eocd_scan ?buf (int (eocd_maxSearch (zr_file r)) - 22) = int i"
    using s by (simp add: l)
  show ?thesis
    by (simp add: readEndOfCentralDirectory_def Let_def eocd_read [OF assms(1,2)] s' l
        add.commute)
qed

text \<open>
  Claim C6, amended. \<^verbatim>\<open>readEndOfCentralDirectory\<close>, the first step of \<^verbatim>\<open>open()\<close>, reads the
  last min(file size, 65 558) bytes of the file and scans them backward, from the last
  offset that leaves room for the 22 bytes of the record. When the signature starts at
  none of these offsets it returns \<open>INVALID_ARCHIVE\<close> and changes nothing. Otherwise it
  returns \<open>OK\<close> and has parsed the record at the last such offset: the entry count, the
  size and the offset of the central directory, and the comment when it is not empty and
  lies inside the buffer.
\<close>

theorem eocd_search_window:
  assumes "is_open (zr_file r)" and "good (zr_file r)"
  shows "eocd_buf (zr_file r) =
           last_bytes (min (length (contents (zr_file r))) 65558) (contents (zr_file r))
       \<and> ((\<forall>i. i + 22 \<le> length (eocd_buf (zr_file r)) \<longrightarrow> \<not> eocd_sig_at (eocd_buf (zr_file r)) i)
            \<longrightarrow> readEndOfCentralDirectory r = (INVALID_ARCHIVE, r))
       \<and> (\<forall>i. i + 22 \<le> length (eocd_buf (zr_file r)) \<and> eocd_sig_at (eocd_buf (zr_file r)) i
              \<and> (\<forall>j. i < j \<and> j + 22 \<le> length (eocd_buf (zr_file r))
                     \<longrightarrow> \<not> eocd_sig_at (eocd_buf (zr_file r)) j)
            \<longrightarrow> readEndOfCentralDirectory r =
                  (OK, r\<lparr>zr_totalEntries := ucast (read16 (drop (i + 10) (eocd_buf (zr_file r)))),
                         zr_centralDirSize := ucast (read32 (drop (i + 12) (eocd_buf (zr_file r)))),
                         zr_centralDirOffset := ucast (read32 (drop (i + 16) (eocd_buf (zr_file r)))),
                         zr_comment :=
                           (if 0 < read16 (drop (i + 20) (eocd_buf (zr_file r)))
                               \<and> i + 22 + unat (read16 (drop (i + 20) (eocd_buf (zr_file r))))
                                   \<le> length (eocd_buf (zr_file r))
                            then take (unat (read16 (drop (i + 20) (eocd_buf (zr_file r)))))
                                   (drop (i + 22) (eocd_buf (zr_file r)))
                            else zr_comment r)\<rparr>))"
proof (intro conjI allI impI)
  show "eocd_buf (zr_file r) =
           last_bytes (min (length (contents (zr_file r))) 65558) (contents (zr_file r))"
    using eocd_buf_last [OF assms] by (simp add: EOCD_MAX_SEARCH_def)
next
  assume "\<forall>i. i + 22 \<le> length (eocd_buf (zr_file r)) \<longrightarrow> \<not> eocd_sig_at (eocd_buf (zr_file r)) i"
  then show "readEndOfCentralDirectory r = (INVALID_ARCHIVE, r)"
    using readEOCD_missing [OF assms] by blast
next
  fix i
  assume a: "i + 22 \<le> length (eocd_buf (zr_file r)) \<and> eocd_sig_at (eocd_buf (zr_file r)) i
              \<and> (\<forall>j. i < j \<and> j + 22 \<le> length (eocd_buf (zr_file r))
                     \<longrightarrow> \<not> eocd_sig_at (eocd_buf (zr_file r)) j)"
  show "readEndOfCentralDirectory r =
                  (OK, r\<lparr>zr_totalEntries := ucast (read16 (drop (i + 10) (eocd_buf (zr_file r)))),
                         zr_centralDirSize := ucast (read32 (drop (i + 12) (eocd_buf (zr_file r)))),
                         zr_centralDirOffset := ucast (read32 (drop (i + 16) (eocd_buf (zr_file r)))),
                         zr_comment :=
                           (if 0 < read16 (drop (i + 20) (eocd_buf (zr_file r)))
                               \<and> i + 22 + unat (read16 (drop (i + 20) (eocd_buf (zr_file r))))
                                   \<le> length (eocd_buf (zr_file r))
                            then take (unat (read16 (drop (i + 20) (eocd_buf (zr_file r)))))
                                   (drop (i + 22) (eocd_buf (zr_file r)))
                            else zr_comment r)\<rparr>)"
    using a by (intro readEOCD_found [OF assms]) blast+
qed

lemma opened_stream:
  "is_open (zr_file (ZipReader_opened F))" "good (zr_file (ZipReader_opened F))"
  "contents (zr_file (ZipReader_opened F)) = F"
  by (simp_all add: ZipReader_opened_def)

lemma eocd_buf_small:
  "length F \<le> 65558 \<Longrightarrow> eocd_buf (zr_file (ZipReader_opened F)) = F"
  using eocd_buf_last [OF opened_stream(1,2), of F]
  by (simp add: opened_stream EOCD_MAX_SEARCH_def last_bytes_def)

lemma eocd_example_found:
  "eocd_buf (zr_file (ZipReader_opened eocd_example)) = eocd_example
   \<and> fst (readEndOfCentralDirectory (ZipReader_opened eocd_example)) = OK"
proof -
  let ?r = "ZipReader_opened eocd_example"
  have l: "length eocd_example = 65558" by (simp add: eocd_example_def)
  have b: "eocd_buf (zr_file ?r) = eocd_example"
    by (rule eocd_buf_small) (simp add: l)
  have s: "eocd_sig_at eocd_example 0"
    by (simp add: eocd_sig_at_def eocd_example_def)
  have n: "\<not> eocd_sig_at eocd_example j" if "0 < j" and "j + 22 \<le> 65558" for j
    using that by (simp add: eocd_sig_at_def eocd_example_def nth_append)
  have "fst (readEndOfCentralDirectory ?r) = OK"
    using readEOCD_found [OF opened_stream(1,2), of 0 eocd_example] s n
    by (simp add: b l)
  then show ?thesis using b by simp
qed

lemma sig_occurs_needs_P: "\<forall>x \<in> set xs. x \<noteq> 0x50 \<Longrightarrow> \<not> sig_occurs xs"
  by (induction xs rule: sig_occurs.induct) auto

lemma two_eocd_fields:
  "read16 (drop 32 two_eocd_file) = 2" "read32 (drop 34 two_eocd_file) = 5"
  "read32 (drop 38 two_eocd_file) = 6" "read16 (drop 42 two_eocd_file) = 0"
  by (simp_all add: two_eocd_file_def read16_def read32_def)

text \<open>
  The theorem at an archive of 30 zero bytes, which has no signature, and at the archive
  of two records, of which the second is parsed.
\<close>

theorem eocd_search_window_witness:
  "is_open (zr_file (ZipReader_opened (replicate 30 0))) \<and> good (zr_file (ZipReader_opened (replicate 30 0)))
   \<and> \<not> (\<exists>i. i + 22 \<le> length (eocd_buf (zr_file (ZipReader_opened (replicate 30 0))))
          \<and> eocd_sig_at (eocd_buf (zr_file (ZipReader_opened (replicate 30 0)))) i)
   \<and> readEndOfCentralDirectory (ZipReader_opened (replicate 30 0))
       = (INVALID_ARCHIVE, ZipReader_opened (replicate 30 0))
   \<and> is_open (zr_file (ZipReader_opened two_eocd_file)) \<and> good (zr_file (ZipReader_opened two_eocd_file))
   \<and> eocd_buf (zr_file (ZipReader_opened two_eocd_file)) = two_eocd_file
   \<and> 22 + 22 \<le> length (eocd_buf (zr_file (ZipReader_opened two_eocd_file)))
   \<and> eocd_sig_at (eocd_buf (zr_file (ZipReader_opened two_eocd_file))) 22
   \<and> \<not> (\<exists>j. 22 < j \<and> j + 22 \<le> length (eocd_buf (zr_file (ZipReader_opened two_eocd_file)))
          \<and> eocd_sig_at (eocd_buf (zr_file (ZipReader_opened two_eocd_file))) j)
   \<and> readEndOfCentralDirectory (ZipReader_opened two_eocd_file)
       = (OK, (ZipReader_opened two_eocd_file)
                \<lparr>zr_totalEntries := 2, zr_centralDirSize := 5, zr_centralDirOffset := 6\<rparr>)"
proof -
  let ?z = "ZipReader_opened (replicate 30 0)"
  let ?t = "ZipReader_opened two_eocd_file"
  have bz: "eocd_buf (zr_file ?z) = replicate 30 0"
    by (rule eocd_buf_small) simp
  have hz: "\<forall>i. i + 22 \<le> length (eocd_buf (zr_file ?z)) \<longrightarrow> \<not> eocd_sig_at (eocd_buf (zr_file ?z)) i"
    by (simp add: bz eocd_sig_at_def)
  have cz: "readEndOfCentralDirectory ?z = (INVALID_ARCHIVE, ?z)"
    using eocd_search_window [OF opened_stream(1,2), of "replicate 30 0"] hz by blast
  have lt: "length two_eocd_file = 44"
    by (simp add: two_eocd_file_def)
  have bt: "eocd_buf (zr_file ?t) = two_eocd_file"
    by (rule eocd_buf_small) (simp add: lt)
  have h1: "22 + 22 \<le> length (eocd_buf (zr_file ?t))"
    by (simp add: bt lt)
  have "eocd_sig_at two_eocd_file 22"
    by (simp add: eocd_sig_at_def two_eocd_file_def)
  then have h2: "eocd_sig_at (eocd_buf (zr_file ?t)) 22"
    by (simp only: bt)
  have h3: "\<forall>j. 22 < j \<and> j + 22 \<le> length (eocd_buf (zr_file ?t))
          \<longrightarrow> \<not> eocd_sig_at (eocd_buf (zr_file ?t)) j"
    by (auto simp add: bt lt)
  have "readEndOfCentralDirectory ?t =
      (OK, ?t\<lparr>zr_totalEntries := ucast (read16 (drop (22 + 10) (eocd_buf (zr_file ?t)))),
              zr_centralDirSize := ucast (read32 (drop (22 + 12) (eocd_buf (zr_file ?t)))),
              zr_centralDirOffset := ucast (read32 (drop (22 + 16) (eocd_buf (zr_file ?t)))),
              zr_comment :=
                (if 0 < read16 (drop (22 + 20) (eocd_buf (zr_file ?t)))
                    \<and> 22 + 22 + unat (read16 (drop (22 + 20) (eocd_buf (zr_file ?t))))
                        \<le> length (eocd_buf (zr_file ?t))
                 then take (unat (read16 (drop (22 + 20) (eocd_buf (zr_file ?t)))))
                        (drop (22 + 22) (eocd_buf (zr_file ?t)))
                 else zr_comment ?t)\<rparr>)"
    using eocd_search_window [OF opened_stream(1,2), of two_eocd_file] h1 h2 h3 by blast
  then have ct: "readEndOfCentralDirectory ?t
       = (OK, ?t\<lparr>zr_totalEntries := 2, zr_centralDirSize := 5, zr_centralDirOffset := 6\<rparr>)"
    by (simp add: bt two_eocd_fields)
  show ?thesis
    using opened_stream(1,2) hz cz bt h1 h2 h3 ct by blast
qed

text \<open>
  A file of 65 558 bytes that starts with the signature refutes the window of 65 557
  bytes: its last 65 557 bytes contain no signature, yet the reader finds the record and
  returns \<open>OK\<close>.
\<close>

theorem eocd_window_65557_counterexample:
  "fst (readEndOfCentralDirectory (ZipReader_opened eocd_example)) = OK
   \<and> \<not> sig_occurs (last_bytes (min (length eocd_example) 65557) eocd_example)"
proof -
  have l: "length eocd_example = 65558" by (simp add: eocd_example_def)
  have "last_bytes (min (length eocd_example) 65557) eocd_example = drop 1 eocd_example"
    unfolding l by (simp add: last_bytes_def l)
  also have "\<dots> = [0x4b, 0x05, 0x06] @ replicate 65554 0"
    by (simp add: eocd_example_def)
  finally have "\<not> sig_occurs (last_bytes (min (length eocd_example) 65557) eocd_example)"
    by (simp add: sig_occurs_needs_P)
  then show ?thesis using eocd_example_found by simp
qed

lemma vec_resize_fits:
  "n \<le> vector_max_size \<Longrightarrow> vec_resize v n = Some (take n v @ replicate (n - length v) 0)"
  by (simp add: vec_resize_def)


lemma streamoff_nonneg:
  fixes w :: "64 word"
  assumes "unat w \<le> vector_max_size"
  shows "\<not> sint w < 0"
proof
  assume "sint w < 0"
  then have "bit w 63"
    using bit_last_iff [of w] by simp
  then have "bit (unat w) 63"
    by (simp add: bit_unsigned_iff)
  then have "odd (unat w div 2 ^ 63)"
    by (simp add: bit_iff_odd)
  moreover have "unat w div 2 ^ 63 = 0"
    using assms by (simp add: vector_max_size_def)
  ultimately show False
    by simp
qed

lemma readCompressed_readable:
  assumes "member_readable r entry"
  shows "readCompressed r entry buffer = Some (OK, r, member_bytes r entry)"
proof -
  have o: "is_open (zr_file r)" and g: "good (zr_file r)"
    and m: "length (contents (zr_file r)) \<le> vector_max_size"
    and i: "unat (dataOffset entry) + unat (compressedSize (ze_header entry))
              \<le> length (contents (zr_file r))"
    using assms by (simp_all add: member_readable_def)
  have "unat (compressedSize (ze_header entry)) \<le> vector_max_size"
    using m i by simp
  then have v: "vec_resize buffer (unat (compressedSize (ze_header entry))) =
      Some (take (unat (compressedSize (ze_header entry))) buffer
            @ replicate (unat (compressedSize (ze_header entry)) - length buffer) 0)"
    by (rule vec_resize_fits)
  have "unat (dataOffset entry) \<le> vector_max_size"
    using m i by simp
  then have s: "\<not> sint (dataOffset entry) < 0"
    by (rule streamoff_nonneg)
  have l: "length (take (unat (compressedSize (ze_header entry))) buffer
            @ replicate (unat (compressedSize (ze_header entry)) - length buffer) 0)
           = unat (compressedSize (ze_header entry))"
    by auto
  show ?thesis
    using o g i s by (simp add: readCompressed_def v member_bytes_def ifs_read_at_good l del: length_append)
qed







lemma example_readable: "member_readable (ZipReader_opened [1, 2, 3, 4, 5]) (example_entry m)"
  by (simp add: member_readable_def ZipReader_opened_def example_entry_def vector_max_size_def)

lemma example_bytes: "member_bytes (ZipReader_opened [1, 2, 3, 4, 5]) (example_entry m) = [2, 3, 4]"
  by (simp add: member_bytes_def ZipReader_opened_def example_entry_def)













text \<open>
  Claim C10. For a member of method 0 \<^verbatim>\<open>readDecompressed\<close> is \<^verbatim>\<open>readCompressed\<close>: a readable
  member whose bytes do not have the CRC of its header is returned without error, and
  \<^verbatim>\<open>extractTo\<close> writes it to the output file.
\<close>

theorem store_member_skips_crc:
  assumes "h_method (ze_header entry) = 0"
    and "member_readable r entry"
    and "zlib_crc32 z (member_bytes r entry) \<noteq> crc32 (ze_header entry)"
    and "\<not> isDirectory (ze_header entry)"
  shows "readDecompressed z r entry buffer = readCompressed r entry buffer
       \<and> readDecompressed z r entry buffer = Some (OK, r, member_bytes r entry)
       \<and> map_option fst (extractTo z mkdir_ok True r entry outputPath parentPath fs) = Some OK
       \<and> map_option (\<lambda>res. files (snd (snd res)) outputPath)
            (extractTo z mkdir_ok True r entry outputPath parentPath fs)
           = Some (Some (member_bytes r entry))"
proof -
  have a: "readDecompressed z r entry buffer = readCompressed r entry buffer" for buffer
    using assms(1) by (simp add: readDecompressed_def ZIP_METHOD_STORE_def)
  have b: "readDecompressed z r entry buffer = Some (OK, r, member_bytes r entry)" for buffer
    using a readCompressed_readable [OF assms(2)] by simp
  show ?thesis
    using a b assms(4) by (simp add: extractTo_def Let_def)
qed

text \<open>The theorem at a stored member whose header CRC is 1 while the CRC of its bytes is 0.\<close>

theorem store_member_skips_crc_witness:
  "h_method (ze_header (example_entry 0)) = 0
   \<and> member_readable (ZipReader_opened [1, 2, 3, 4, 5]) (example_entry 0)
   \<and> zlib_crc32 example_zlib (member_bytes (ZipReader_opened [1, 2, 3, 4, 5]) (example_entry 0))
       \<noteq> crc32 (ze_header (example_entry 0))
   \<and> \<not> isDirectory (ze_header (example_entry 0))
   \<and> readDecompressed example_zlib (ZipReader_opened [1, 2, 3, 4, 5]) (example_entry 0) [7]
       = Some (OK, ZipReader_opened [1, 2, 3, 4, 5], [2, 3, 4])
   \<and> map_option fst (extractTo example_zlib True True (ZipReader_opened [1, 2, 3, 4, 5])
        (example_entry 0) ''out/a'' ''out'' example_fs) = Some OK
   \<and> map_option (\<lambda>res. files (snd (snd res)) ''out/a'')
        (extractTo example_zlib True True (ZipReader_opened [1, 2, 3, 4, 5])
           (example_entry 0) ''out/a'' ''out'' example_fs) = Some (Some [2, 3, 4])"
proof -
  have m: "h_method (ze_header (example_entry 0)) = 0" by (simp add: example_entry_def)
  have c: "zlib_crc32 example_zlib (member_bytes (ZipReader_opened [1, 2, 3, 4, 5]) (example_entry 0))
             \<noteq> crc32 (ze_header (example_entry 0))"
    by (simp add: example_zlib_def example_entry_def)
  have d: "\<not> isDirectory (ze_header (example_entry 0))"
    by (simp add: isDirectory_def example_entry_def)
  note t = store_member_skips_crc [OF m example_readable [of 0] c d, of "[7]" True
            "''out/a''" "''out''" example_fs]
  have t1: "readDecompressed example_zlib (ZipReader_opened [1, 2, 3, 4, 5]) (example_entry 0) [7]
       = Some (OK, ZipReader_opened [1, 2, 3, 4, 5], [2, 3, 4])"
    using t [THEN conjunct2, THEN conjunct1] by (simp add: example_bytes)
  have t2: "map_option fst (extractTo example_zlib True True (ZipReader_opened [1, 2, 3, 4, 5])
        (example_entry 0) ''out/a'' ''out'' example_fs) = Some OK"
    using t [THEN conjunct2, THEN conjunct2, THEN conjunct1] .
  have t3: "map_option (\<lambda>res. files (snd (snd res)) ''out/a'')
        (extractTo example_zlib True True (ZipReader_opened [1, 2, 3, 4, 5])
           (example_entry 0) ''out/a'' ''out'' example_fs) = Some (Some [2, 3, 4])"
    using t [THEN conjunct2, THEN conjunct2, THEN conjunct2] by (simp add: example_bytes)
  show ?thesis
    using m c d example_readable [of 0] t1 t2 t3 by blast
qed

section \<open>Properties of the file-task buffer\<close>

text \<open>
  While every temporary file can be opened, \<^verbatim>\<open>write\<close> accepts all bytes, appends them to
  what the task holds, and adds their number to \<^verbatim>\<open>written()\<close>.
\<close>

lemma FileTask_write_accepts_all:
  assumes "FileTask_inv t"
  shows "fst (FileTask_write True t d) = length d
       \<and> written (snd (FileTask_write True t d)) = written t + length d
       \<and> FileTask_stored (snd (FileTask_write True t d)) = FileTask_stored t @ d
       \<and> FileTask_inv (snd (FileTask_write True t d))"
proof (cases "ft_overflow t")
  case None
  show ?thesis
  proof (cases "length d \<le> length (ft_buffer t) - ft_bufferUsed t")
    case True
    then show ?thesis using assms None
      by (auto simp add: FileTask_write_def FileTask_inv_def FileTask_stored_def written_def
           Let_def min_def)
  next
    case False
    then show ?thesis using assms None
      by (auto simp add: FileTask_write_def FileTask_inv_def FileTask_stored_def written_def
           Let_def min_def ofs_write_def)
  qed
next
  case (Some f)
  then show ?thesis using assms
    by (cases "d = []")
       (auto simp add: FileTask_write_def FileTask_inv_def FileTask_stored_def written_def
           Let_def ofs_write_def)
qed

text \<open>
  Claim C9. When the temporary file cannot be opened, \<^verbatim>\<open>write\<close> returns before it updates
  \<^verbatim>\<open>written_\<close>: a fresh task given 2 MiB + 1 bytes takes 2 MiB into its buffer and returns
  2 MiB, and \<^verbatim>\<open>written()\<close> is still 0.
\<close>

theorem FileTask_write_overflow_open_failure:
  "fst (FileTask_write False FileTask_new (replicate (2 * 1024 * 1024 + 1) 0x41)) = 2 * 1024 * 1024
   \<and> ft_bufferUsed (snd (FileTask_write False FileTask_new (replicate (2 * 1024 * 1024 + 1) 0x41)))
       = 2 * 1024 * 1024
   \<and> written (snd (FileTask_write False FileTask_new (replicate (2 * 1024 * 1024 + 1) 0x41))) = 0"
  by (simp add: FileTask_write_def FileTask_new_def DEFAULT_BUFFER_SIZE_def written_def Let_def)

text \<open>Exactly 2 MiB fit the buffer: no overflow file is created.\<close>

lemma FileTask_write_exactly_2MiB:
  "length d = 2 * 1024 * 1024 \<Longrightarrow>
   FileTask_write open_ok FileTask_new d =
     (2 * 1024 * 1024, FileTask_new\<lparr>ft_buffer := d, ft_bufferUsed := 2 * 1024 * 1024,
                                     ft_written := 2 * 1024 * 1024\<rparr>)"
  by (simp add: FileTask_write_def FileTask_new_def DEFAULT_BUFFER_SIZE_def Let_def)

text \<open>One byte more creates the overflow file, which then holds that byte.\<close>

lemma FileTask_write_2MiB_plus_1:
  assumes "length d = 2 * 1024 * 1024 + 1"
  shows "FileTask_write True FileTask_new d =
     (2 * 1024 * 1024 + 1,
      FileTask_new\<lparr>ft_buffer := take (2 * 1024 * 1024) d, ft_bufferUsed := 2 * 1024 * 1024,
                    ft_overflow := Some \<lparr>is_open = True, good = True, contents = [last d]\<rparr>,
                    ft_written := 2 * 1024 * 1024 + 1\<rparr>)"
proof -
  have ne: "d \<noteq> []" using assms by auto
  have "butlast d = take 2097152 d"
    by (simp add: butlast_conv_take assms)
  then have "take 2097152 d @ [last d] = d"
    using append_butlast_last_id [OF ne] by simp
  then have "take 2097152 d @ [last d] = take 2097152 d @ drop 2097152 d"
    by (simp only: append_take_drop_id)
  then have "drop 2097152 d = [last d]"
    by (simp only: same_append_eq)
  then show ?thesis using assms
    by (simp add: FileTask_write_def FileTask_new_def DEFAULT_BUFFER_SIZE_def Let_def ofs_write_def)
qed

text \<open>After \<^verbatim>\<open>reset\<close> both tiers are empty, whatever \<^verbatim>\<open>reset\<close> returns.\<close>

lemma FileTask_reset_clears:
  "ft_bufferUsed (snd (FileTask_reset env t)) = 0
   \<and> ft_overflow (snd (FileTask_reset env t)) = None
   \<and> written (snd (FileTask_reset env t)) = 0"
  by (simp add: FileTask_reset_def written_def Let_def split: option.splits)

section \<open>Properties of the DEFLATE encoder\<close>

subsection \<open>The fixed tables and the bit writer\<close>

lemma foldl_update_length:
  "length (foldl (\<lambda>c ch. c[ch := g ch]) c0 xs) = length c0"
  by (induction xs arbitrary: c0) simp_all

lemma foldl_update_nth:
  "k < length c0 \<Longrightarrow>
   foldl (\<lambda>c ch. c[ch := g ch]) c0 [0..<n] ! k = (if k < n then g k else c0 ! k)"
proof (induction n)
  case 0
  then show ?case by simp
next
  case (Suc n)
  then show ?case
    by (cases "k = n") (auto simp add: foldl_update_length nth_list_update)
qed

lemma CLZ32_285: "CLZ32 285 = 23"
  by code_simp

lemma CLZ32_29: "CLZ32 29 = 27"
  by code_simp

lemma fixedLiteral_length: "length (he_codes fixedLiteralEncoding) = 512"
  by (simp add: fixedLiteralEncoding_def foldl_update_length HuffmanEncoder_new_def
      LITERAL_COUNT_def CLZ32_285)

lemma fixedOffset_length: "length (he_codes fixedOffsetEncoding) = 32"
  by (simp add: fixedOffsetEncoding_def foldl_update_length HuffmanEncoder_new_def CLZ32_29)

lemma hcode_len_set: "hcode_len (hcode_set c l) = l"
  unfolding hcode_len_def hcode_set_def
  by (rule bit_word_eqI) (auto simp add: bit_simps)

lemma fixedLiteral_nth:
  "ch < 286 \<Longrightarrow> he_codes fixedLiteralEncoding ! ch =
     (if ch < 144 then hcode_set (reverseBits (of_nat (ch + 48)) 8) 8
      else if ch < 256 then hcode_set (reverseBits (of_nat (ch + 400 - 144)) 9) 9
      else if ch < 280 then hcode_set (reverseBits (of_nat (ch - 256)) 7) 7
      else hcode_set (reverseBits (of_nat (ch + 192 - 280)) 8) 8)"
  by (simp add: fixedLiteralEncoding_def foldl_update_nth HuffmanEncoder_new_def
      LITERAL_COUNT_def CLZ32_285)

lemma fixedOffset_nth:
  "ch < 30 \<Longrightarrow> he_codes fixedOffsetEncoding ! ch = hcode_set (reverseBits (of_nat ch) 5) 5"
  by (simp add: fixedOffsetEncoding_def foldl_update_nth HuffmanEncoder_new_def CLZ32_29)

lemma sum_list_single:
  fixes g :: "nat \<Rightarrow> int"
  assumes "k < n" and "\<And>i. i < n \<Longrightarrow> i \<noteq> k \<Longrightarrow> g i = 0"
  shows "sum_list (map g [0..<n]) = g k"
proof -
  have "sum_list (map g [0..<n]) = sum g {0..<n}"
    by (simp add: interv_sum_list_conv_sum_set_nat)
  also have "\<dots> = sum (\<lambda>i. if i = k then g k else 0) {0..<n}"
    by (rule sum.cong) (auto simp add: assms(2))
  also have "\<dots> = g k"
    using assms(1) by simp
  finally show ?thesis .
qed

lemma sum_list_zero:
  fixes g :: "nat \<Rightarrow> int"
  assumes "\<And>i. i < n \<Longrightarrow> g i = 0"
  shows "sum_list (map g [0..<n]) = 0"
proof -
  have "map g [0..<n] = map (\<lambda>_. 0) [0..<n]"
    by (rule map_cong) (auto simp add: assms)
  then have "sum_list (map g [0..<n]) = sum_list (map (\<lambda>_. 0 :: int) [0..<n])"
    by (rule arg_cong)
  then show ?thesis by (simp add: sum_list_0)
qed


lemma addEOB_hist [simp]:
  "tk_litHist (addEOB t) = tk_litHist t" "tk_extraHist (addEOB t) = tk_extraHist t"
  "tk_offHist (addEOB t) = tk_offHist t"
  by (simp_all add: addEOB_def)

lemma generate_freq [simp]:
  "bw_literalFreq (HuffmanBitWriter_generate w) = bw_literalFreq w"
  "bw_offsetFreq (HuffmanBitWriter_generate w) = bw_offsetFreq w"
  by (simp_all add: HuffmanBitWriter_generate_def)

lemma indexTokens_offsetFreq [simp]: "bw_offsetFreq (indexTokens w t b) = tk_offHist t"
  by (simp add: indexTokens_def Let_def)

lemma indexTokens_literalFreq_zero:
  assumes "tk_litHist t = (\<lambda>_. 0)" and "tk_extraHist t = (\<lambda>_. 0)" and "i < 286"
  shows "bw_literalFreq (indexTokens w t True) i = (if tk_n t \<noteq> 0 \<and> i = 256 then 1 else 0)"
  using assms by (simp add: indexTokens_def Let_def END_BLOCK_MARKER_def)

lemma bitLength_zero: "(\<And>i. i < n \<Longrightarrow> f i = 0) \<Longrightarrow> bitLength h f n = 0"
  unfolding bitLength_def by (rule sum_list_zero) simp

lemma bitLength_fixed_eob:
  assumes "\<And>i. i < 286 \<Longrightarrow> f i = (if c \<and> i = 256 then 1 else 0)"
  shows "bitLength fixedLiteralEncoding f LITERAL_COUNT = (if c then 7 else 0)"
proof (cases c)
  case False
  then show ?thesis using assms by (simp add: bitLength_zero LITERAL_COUNT_def)
next
  case True
  let ?g = "\<lambda>i. if f i \<noteq> 0
      then int (unat (f i)) * int (unat (hcode_len (he_codes fixedLiteralEncoding ! i))) else 0"
  have "sum_list (map ?g [0..<286]) = ?g 256"
    by (rule sum_list_single) (simp_all add: assms True)
  moreover have "?g 256 = 7"
    by (simp add: assms True fixedLiteral_nth hcode_len_set)
  ultimately show ?thesis
    using True by (simp add: bitLength_def LITERAL_COUNT_def fixedLiteral_length)
qed

lemma extraBitSize_zero:
  assumes "\<And>i. 257 \<le> i \<Longrightarrow> i < 286 \<Longrightarrow> bw_literalFreq w i = 0" and "bw_offsetFreq w = (\<lambda>_. 0)"
  shows "extraBitSize w = 0"
proof -
  have "sum_list (map (\<lambda>i. int (unat (bw_literalFreq w (257 + i)))
                         * int (unat (lengthExtraBits ! (i mod 32)))) [0..<29]) = 0"
    by (rule sum_list_zero) (simp add: assms(1))
  then show ?thesis
    by (simp add: extraBitSize_def assms(2) LITERAL_COUNT_def sum_list_0)
qed

lemma writeBlockDynamic_zero_hist:
  assumes "tk_litHist t = (\<lambda>_. 0)" and "tk_extraHist t = (\<lambda>_. 0)" and "tk_offHist t = (\<lambda>_. 0)"
  shows "writeBlockDynamic w t eof input sync =
     Some (writeTokens
             (writeFixedHeader
                (HuffmanBitWriter_generate (indexTokens (close_last_header w) (addEOB t) True)) eof)
             (tk_tokens (addEOB t)) (unat (tk_n (addEOB t)))
             (he_codes fixedLiteralEncoding) (he_codes fixedOffsetEncoding), addEOB t)"
proof -
  let ?w2 = "indexTokens (close_last_header w) (addEOB t) True"
  have lf: "\<And>i. i < 286 \<Longrightarrow>
      bw_literalFreq ?w2 i = (if tk_n (addEOB t) \<noteq> 0 \<and> i = 256 then 1 else 0)"
    by (rule indexTokens_literalFreq_zero) (simp_all add: assms)
  have e: "extraBitSize ?w2 = 0"
    by (rule extraBitSize_zero) (simp_all add: lf assms)
  have b1: "bitLength fixedLiteralEncoding (bw_literalFreq ?w2) LITERAL_COUNT
              = (if tk_n (addEOB t) \<noteq> 0 then 7 else 0)"
    by (rule bitLength_fixed_eob) (simp add: lf)
  have b2: "bitLength fixedOffsetEncoding (bw_offsetFreq ?w2) OFFSET_CODE_COUNT = 0"
    by (rule bitLength_zero) (simp add: assms)
  have sz: "fixedSize (HuffmanBitWriter_generate ?w2) 0 \<le> 10"
    using b1 b2 by (simp add: fixedSize_def)
  show ?thesis
    using sz by (simp add: writeBlockDynamic_def Let_def storedSize_def e)
qed

lemma put_bits_small:
  assumes "unat (bw_nbits w) + unat nb < 48"
  shows "put_bits w v nb =
         w\<lparr>bw_bits := bw_bits w OR push_bit (unat (bw_nbits w)) v, bw_nbits := bw_nbits w + nb\<rparr>"
proof -
  have "unat (bw_nbits w) < 2 ^ 6"
    using assms by simp
  then have "bw_nbits w < 2 ^ 6"
    by (simp add: word_less_nat_alt)
  then have a: "bw_nbits w AND 63 = bw_nbits w"
    using less_mask_eq [of "bw_nbits w" 6] by (simp add: mask_eq_exp_minus_1)
  have "unat (bw_nbits w + nb) = unat (bw_nbits w) + unat nb"
    using assms by (simp add: unat_word_ariths)
  then have b: "\<not> 48 \<le> bw_nbits w + nb"
    using assms by (simp add: word_le_nat_alt)
  show ?thesis
    using b by (simp add: put_bits_def Let_def a)
qed

lemma code64_set: "code64 (hcode_set c l) = ucast c"
  unfolding code64_def hcode_set_def
  by (rule bit_word_eqI) (auto simp add: bit_simps dest: bit_imp_le_length)

lemma writer_fields [simp]:
  "bw_bits (HuffmanBitWriter_generate w) = bw_bits w"
  "bw_nbits (HuffmanBitWriter_generate w) = bw_nbits w"
  "bw_nbytes (HuffmanBitWriter_generate w) = bw_nbytes w"
  "bw_bytes (HuffmanBitWriter_generate w) = bw_bytes w"
  "bw_output (HuffmanBitWriter_generate w) = bw_output w"
  "bw_lastHeader (HuffmanBitWriter_generate w) = bw_lastHeader w"
  "bw_bits (indexTokens w t b) = bw_bits w"
  "bw_nbits (indexTokens w t b) = bw_nbits w"
  "bw_nbytes (indexTokens w t b) = bw_nbytes w"
  "bw_bytes (indexTokens w t b) = bw_bytes w"
  "bw_output (indexTokens w t b) = bw_output w"
  "bw_lastHeader (indexTokens w t b) = bw_lastHeader w"
  by (simp_all add: HuffmanBitWriter_generate_def indexTokens_def Let_def)

lemma close_last_header_noop: "bw_lastHeader w = 0 \<Longrightarrow> close_last_header w = w"
  by (simp add: close_last_header_def)

lemma sum_list_support:
  fixes g :: "nat \<Rightarrow> int"
  assumes "set S \<subseteq> {0..<n}" and "distinct S" and "\<And>i. i < n \<Longrightarrow> i \<notin> set S \<Longrightarrow> g i = 0"
  shows "sum_list (map g [0..<n]) = sum_list (map g S)"
proof -
  have "sum_list (map g [0..<n]) = sum g {0..<n}"
    by (simp add: interv_sum_list_conv_sum_set_nat)
  also have "\<dots> = sum g (set S)"
    by (rule sum.mono_neutral_right) (use assms in auto)
  also have "\<dots> = sum_list (map g S)"
    using assms(2) by (simp add: sum_list_distinct_conv_sum_set)
  finally show ?thesis .
qed

lemma close_last_header_lastHeader: "bw_lastHeader (close_last_header w) \<le> 0"
  by (simp add: close_last_header_def)

lemma close_last_header_closed: "bw_lastHeader w \<le> 0 \<Longrightarrow> close_last_header w = w"
  by (simp add: close_last_header_def)

lemma extraBitSize_generate [simp]:
  "extraBitSize (HuffmanBitWriter_generate w) = extraBitSize w"
  by (simp add: extraBitSize_def)

lemma reverseBits_48_8: "reverseBits 48 8 = 12"
  by code_simp

lemma reverseBits_0_7: "reverseBits 0 7 = 0"
  by code_simp

lemma reverseBits_145_8: "reverseBits 145 8 = 137"
  by code_simp

lemma reverseBits_12_7: "reverseBits 12 7 = 24"
  by code_simp

lemma reverseBits_1_5: "reverseBits 1 5 = 16"
  by code_simp












lemma lengthCodes1_15: "lengthCodes1 ! 15 = 12"
  by (simp add: lengthCodes1_def)

lemma offsetCode_1: "offsetCode 1 = 1"
  by code_simp

lemma twenty_a_tokens_eq:
  "twenty_a_tokens = \<lparr> tk_extraHist = (\<lambda>_. 0)(12 := 1), tk_offHist = (\<lambda>_. 0)(1 := 1),
           tk_litHist = (\<lambda>_. 0)(97 := 2), tk_n = 3,
           tk_tokens = (\<lambda>_. 0)(0 := 97, 1 := 97, 2 := 1136721921) \<rparr>"
  by (simp add: twenty_a_tokens_def addMatchLong_def addMatchLong_loop.simps Let_def addLiteral_def
      Tokens_reset_def zero_tokens_def makeLiteralToken_def lengthCodes1_15 offsetCode_1
      MATCH_TYPE_def LENGTH_SHIFT_def)


subsection \<open>Blocks shorter than 13 bytes\<close>

lemma FastEncL1_encode_short:
  "length src < 13 \<Longrightarrow>
   map_option snd (FastEncL1_encode e dst src) = Some (dst\<lparr>tk_n := of_nat (length src)\<rparr>)"
  by (simp add: FastEncL1_encode_def Let_def split: prod.splits)

lemma FastEncL4_encode_short:
  "length src < 13 \<Longrightarrow>
   map_option snd (FastEncL4_encode e dst src) = Some (dst\<lparr>tk_n := of_nat (length src)\<rparr>)"
  by (simp add: FastEncL4_encode_def Let_def split: prod.splits)

lemma short_count:
  assumes "0 < n" and "n < 13"
  shows "(of_nat n :: 16 word) \<noteq> 0" and "unat (of_nat n :: 16 word) = n"
proof -
  show u: "unat (of_nat n :: 16 word) = n"
    using assms by (simp add: unat_of_nat)
  show "(of_nat n :: 16 word) \<noteq> 0"
  proof
    assume "(of_nat n :: 16 word) = 0"
    then have "unat (of_nat n :: 16 word) = 0" by simp
    then show False using u assms by simp
  qed
qed

lemma Tokens_reset_hist [simp]:
  "tk_litHist (Tokens_reset t) = (\<lambda>_. 0)" "tk_extraHist (Tokens_reset t) = (\<lambda>_. 0)"
  "tk_offHist (Tokens_reset t) = (\<lambda>_. 0)"
  by (simp_all add: Tokens_reset_def)

lemma write_encoded_block_short:
  assumes "tk_litHist t = (\<lambda>_. 0)" and "tk_extraHist t = (\<lambda>_. 0)" and "tk_offHist t = (\<lambda>_. 0)"
    and "tk_n t = of_nat (length B)" and "B \<noteq> []" and "length B < 13"
  shows "write_encoded_block w t B isLast = writeBlockDynamic w t isLast [] isLast"
proof -
  have n: "tk_n t \<noteq> 0" "unat (tk_n t) = length B"
    using assms(4-6) short_count [of "length B"] by simp_all
  have "drop_bit 4 (length B) = 0"
    using assms(6) by (simp add: drop_bit_eq_div)
  then have "write_encoded_block w t B isLast = writeBlockDynamic w t isLast B isLast"
    using n by (simp add: write_encoded_block_def Let_def)
  then show ?thesis
    by (simp add: writeBlockDynamic_zero_hist assms(1-3))
qed

lemma compress_block_short:
  assumes "B \<noteq> []" and "length B < 13"
  shows "map_option fd_writer (compress_block d B isLast) =
         map_option fst (writeBlockDynamic (fd_writer d)
            ((Tokens_reset (fd_tokens d))\<lparr>tk_n := of_nat (length B)\<rparr>) isLast [] isLast)"
proof -
  let ?t = "(Tokens_reset (fd_tokens d))\<lparr>tk_n := of_nat (length B)\<rparr>"
  have w: "\<And>w. write_encoded_block w ?t B isLast = writeBlockDynamic w ?t isLast [] isLast"
    by (rule write_encoded_block_short) (simp_all add: assms)
  show ?thesis
  proof (cases "fd_useL1 d")
    case True
    obtain e where "FastEncL1_encode (fd_encoderL1 d) (Tokens_reset (fd_tokens d)) B = Some (e, ?t)"
      using FastEncL1_encode_short [OF assms(2), of "fd_encoderL1 d" "Tokens_reset (fd_tokens d)"]
      by auto
    then show ?thesis
      using True by (simp add: compress_block_def Let_def w writeBlockDynamic_zero_hist)
  next
    case False
    obtain e where "FastEncL4_encode (fd_encoderL4 d) (Tokens_reset (fd_tokens d)) B = Some (e, ?t)"
      using FastEncL4_encode_short [OF assms(2), of "fd_encoderL4 d" "Tokens_reset (fd_tokens d)"]
      by auto
    then show ?thesis
      using False by (simp add: compress_block_def Let_def w writeBlockDynamic_zero_hist)
  qed
qed

lemma compress_loop_one_block:
  assumes "B \<noteq> []" and "length B \<le> MAX_STORE_BLOCK_SIZE"
  shows "compress_loop d B 0 = compress_block d B True"
proof -
  have e: "\<And>d1. compress_loop d1 B (length B) = Some d1"
    by (subst compress_loop.simps) simp
  show ?thesis
    using assms by (subst compress_loop.simps) (simp add: Let_def e split: option.splits)
qed

lemma FastDeflate_compress_short:
  assumes "B \<noteq> []" and "length B < 13"
  shows "map_option snd (FastDeflate_compress d B) =
         map_option (\<lambda>p. bw_output (flush (fst p)))
           (writeBlockDynamic (HuffmanBitWriter_reset (fd_writer d))
              ((Tokens_reset (fd_tokens d))\<lparr>tk_n := of_nat (length B)\<rparr>) True [] True)"
proof -
  let ?d = "FastDeflate_reset d"
  have l: "compress_loop ?d B 0 = compress_block ?d B True"
    using assms by (intro compress_loop_one_block) (simp_all add: MAX_STORE_BLOCK_SIZE_def)
  have t: "Tokens_reset (fd_tokens ?d) = Tokens_reset (fd_tokens d)"
    by (simp add: FastDeflate_reset_def Tokens_reset_def)
  have w: "fd_writer ?d = HuffmanBitWriter_reset (fd_writer d)"
    by (simp add: FastDeflate_reset_def)
  have "map_option snd (FastDeflate_compress d B)
          = map_option (\<lambda>w. bw_output (flush w)) (map_option fd_writer (compress_block ?d B True))"
    using assms(1) by (simp add: FastDeflate_compress_def Let_def l option.map_comp comp_def
        split: option.splits)
  also have "map_option fd_writer (compress_block ?d B True) =
      map_option fst (writeBlockDynamic (fd_writer ?d)
            ((Tokens_reset (fd_tokens ?d))\<lparr>tk_n := of_nat (length B)\<rparr>) True [] True)"
    using assms by (rule compress_block_short)
  finally show ?thesis
    unfolding t w by (simp add: option.map_comp comp_def)
qed

text \<open>
  Claim C1. The round trip fails for every input of 1 to 12 bytes. For such a block
  \<^verbatim>\<open>encode\<close> only sets \<^verbatim>\<open>dst->n\<close> to the length and fills in no token, \<^verbatim>\<open>compress\<close> takes
  the branch of \<^verbatim>\<open>writeBlockDynamic\<close>, and the histograms are zero, so that the fixed-Huffman
  form is always smaller than the stored one: the block is written from the tokens the
  memory held, and the bytes of the input are never looked at. From any state of the
  object \<^verbatim>\<open>compress\<close> returns, and two inputs of the same length between 1 and 12 give the
  same stream, so that no decompressor can give back both.
\<close>

theorem short_input_content_ignored:
  assumes "length B1 = length B2" and "B1 \<noteq> []" and "length B1 < 13"
  shows "FastDeflate_compress d B1 \<noteq> None \<and>
         map_option snd (FastDeflate_compress d B1) = map_option snd (FastDeflate_compress d B2)"
proof -
  have "B2 \<noteq> []" and "length B2 < 13"
    using assms by auto
  then have "map_option snd (FastDeflate_compress d B2) =
         map_option (\<lambda>p. bw_output (flush (fst p)))
           (writeBlockDynamic (HuffmanBitWriter_reset (fd_writer d))
              ((Tokens_reset (fd_tokens d))\<lparr>tk_n := of_nat (length B2)\<rparr>) True [] True)"
    by (rule FastDeflate_compress_short)
  moreover have 1: "map_option snd (FastDeflate_compress d B1) =
         map_option (\<lambda>p. bw_output (flush (fst p)))
           (writeBlockDynamic (HuffmanBitWriter_reset (fd_writer d))
              ((Tokens_reset (fd_tokens d))\<lparr>tk_n := of_nat (length B1)\<rparr>) True [] True)"
    using assms(2,3) by (rule FastDeflate_compress_short)
  moreover have "map_option snd (FastDeflate_compress d B1) \<noteq> None"
    unfolding 1 by (simp add: writeBlockDynamic_zero_hist)
  then have "FastDeflate_compress d B1 \<noteq> None"
    by (cases "FastDeflate_compress d B1") simp_all
  ultimately show ?thesis
    using assms(1) by simp
qed

theorem short_input_content_ignored_witness:
  "length [0x61 :: byte] = length [0x62 :: byte] \<and> [0x61 :: byte] \<noteq> [] \<and> length [0x61 :: byte] < 13 \<and>
   FastDeflate_compress (FastDeflate_new 1 zero_tokens) [0x61] \<noteq> None \<and>
   map_option snd (FastDeflate_compress (FastDeflate_new 1 zero_tokens) [0x61]) =
   map_option snd (FastDeflate_compress (FastDeflate_new 1 zero_tokens) [0x62])"
  using short_input_content_ignored [of "[0x61]" "[0x62]" "FastDeflate_new 1 zero_tokens"]
  by simp

text \<open>
  With a token memory of zeros the one-byte input \<^verbatim>\<open>a\<close> is compressed to the bytes
  \<^verbatim>\<open>63 00 00\<close>: a fixed-Huffman block with the literal 0 and the end-of-block code.
\<close>

lemma compress_one_byte_example:
  "map_option snd (FastDeflate_compress (FastDeflate_new 1 zero_tokens) [0x61]) = Some [99, 0, 0]"
  apply (simp add: FastDeflate_compress_short)
  apply (simp add: writeBlockDynamic_zero_hist)
  apply (simp add: FastDeflate_new_def HuffmanBitWriter_reset_def HuffmanBitWriter_new_def
      close_last_header_noop writeFixedHeader_def writeBits_def put_bits_small
      writeTokens_def addEOB_def Tokens_reset_def zero_tokens_def writeToken_def writeCode_def
      fixedLiteral_nth END_BLOCK_MARKER_def code64_set hcode_len_set reverseBits_48_8 reverseBits_0_7)
  apply (simp add: flush_def close_last_header_noop)
  apply (simp add: flush_loop.simps output_bytes_def upt_rec)
  done

subsection \<open>The branch of \<^verbatim>\<open>writeBlockDynamic\<close>\<close>


lemma twenty_a_tokens_lf:
  "bw_literalFreq (indexTokens w (addEOB twenty_a_tokens) True) i =
     (if i = 97 then 2 else if i = 256 then 1 else if i = 268 then 1
      else if i < 288 then 0 else bw_literalFreq w i)"
  by (auto simp add: indexTokens_def Let_def addEOB_def twenty_a_tokens_eq END_BLOCK_MARKER_def)

lemma twenty_a_tokens_bitLength_lit:
  "bitLength fixedLiteralEncoding (bw_literalFreq (indexTokens w (addEOB twenty_a_tokens) True)) LITERAL_COUNT = 30"
proof -
  let ?f = "bw_literalFreq (indexTokens w (addEOB twenty_a_tokens) True)"
  let ?g = "\<lambda>i. if ?f i \<noteq> 0
      then int (unat (?f i)) * int (unat (hcode_len (he_codes fixedLiteralEncoding ! i))) else 0"
  have "sum_list (map ?g [0..<286]) = sum_list (map ?g [97, 256, 268])"
    by (rule sum_list_support) (simp_all add: twenty_a_tokens_lf)
  also have "\<dots> = 30"
    by (simp add: twenty_a_tokens_lf fixedLiteral_nth hcode_len_set)
  finally show ?thesis
    by (simp add: bitLength_def LITERAL_COUNT_def fixedLiteral_length)
qed

lemma twenty_a_tokens_bitLength_off:
  "bitLength fixedOffsetEncoding (tk_offHist twenty_a_tokens) OFFSET_CODE_COUNT = 5"
proof -
  let ?f = "tk_offHist twenty_a_tokens"
  let ?g = "\<lambda>i. if ?f i \<noteq> 0
      then int (unat (?f i)) * int (unat (hcode_len (he_codes fixedOffsetEncoding ! i))) else 0"
  have "sum_list (map ?g [0..<30]) = sum_list (map ?g [1])"
    by (rule sum_list_support) (simp_all add: twenty_a_tokens_eq)
  also have "\<dots> = 5"
    by (simp add: twenty_a_tokens_eq fixedOffset_nth hcode_len_set)
  finally show ?thesis
    by (simp add: bitLength_def OFFSET_CODE_COUNT_def fixedOffset_length)
qed

lemma twenty_a_tokens_extraBits: "extraBitSize (indexTokens w (addEOB twenty_a_tokens) True) = 1"
proof -
  let ?w = "indexTokens w (addEOB twenty_a_tokens) True"
  let ?g = "\<lambda>i. int (unat (bw_literalFreq ?w (257 + i))) * int (unat (lengthExtraBits ! (i mod 32)))"
  let ?h = "\<lambda>i. int (unat (bw_offsetFreq ?w i)) * int (unat (offsetExtraBits ! (i mod 32)))"
  have "sum_list (map ?g [0..<29]) = sum_list (map ?g [11])"
    by (rule sum_list_support) (simp_all add: twenty_a_tokens_lf)
  also have "\<dots> = 1"
    by (simp add: twenty_a_tokens_lf lengthExtraBits_def)
  finally have a: "sum_list (map ?g [0..<29]) = 1" .
  have "sum_list (map ?h [0..<30]) = sum_list (map ?h [1])"
    by (rule sum_list_support) (simp_all add: twenty_a_tokens_eq)
  also have "\<dots> = 0"
    by (simp add: twenty_a_tokens_eq offsetExtraBits_def)
  finally have b: "sum_list (map ?h [0..<30]) = 0" .
  show ?thesis
    unfolding extraBitSize_def LITERAL_COUNT_def OFFSET_CODE_COUNT_def using a b by simp
qed

lemma twenty_a_tokens_fixedSize:
  "fixedSize (HuffmanBitWriter_generate (indexTokens w (addEOB twenty_a_tokens) True))
     (extraBitSize (indexTokens w (addEOB twenty_a_tokens) True)) = 39"
  by (simp add: fixedSize_def twenty_a_tokens_bitLength_lit twenty_a_tokens_bitLength_off twenty_a_tokens_extraBits)


lemma token_length_field: "drop_bit LENGTH_SHIFT (1136721921 :: 32 word) AND 0xFF = 15"
  by code_simp

lemma token_offset_field: "(1136721921 :: 32 word) AND OFFSET_MASK = 65537"
  by code_simp

lemma token_offset_code: "drop_bit 16 (65537 :: 32 word) AND 31 = 1" "(65537 :: 32 word) AND 0xFFFF = 1"
  by code_simp+

lemma not_4_le_1: "\<not> (4 :: 32 word) \<le> 1"
  by code_simp

lemma twenty_a_tokens_token:
  "writeToken (he_codes fixedLiteralEncoding) (he_codes fixedOffsetEncoding) w 1136721921 =
     put_bits (put_bits (put_bits w 24 7) 1 1) 16 5"
  by (simp add: writeToken_def Let_def token_length_field token_offset_field token_offset_code lengthCodes1_15
      LENGTH_CODES_START_def fixedLiteral_nth fixedOffset_nth code64_set hcode_len_set
      reverseBits_12_7 reverseBits_1_5 lengthBase_def lengthExtraBits_def not_4_le_1)

lemma lit97_token:
  "writeToken (he_codes fixedLiteralEncoding) (he_codes fixedOffsetEncoding) w 97 =
     put_bits w 137 8"
  by (simp add: writeToken_def fixedLiteral_nth code64_set hcode_len_set reverseBits_145_8)

text \<open>
  A block of twenty bytes \<^verbatim>\<open>a\<close> with three tokens, two literals and a match of 18 bytes,
  is written as the five bytes \<^verbatim>\<open>4b 4c c4 84 00\<close>. The three low bits of the first byte are
  011: the flag of the last block and the block type 01 of the fixed codes.
\<close>

lemma twenty_a_tokens_block:
  "map_option (\<lambda>p. bw_output (flush (fst p)))
     (writeBlockDynamic HuffmanBitWriter_new twenty_a_tokens True (replicate 20 0x61) True)
   = Some [75, 76, 196, 132, 0]"
proof -
  have h: "bw_lastHeader HuffmanBitWriter_new = 0"
    by (simp add: HuffmanBitWriter_new_def)
  have t: "tk_n (addEOB twenty_a_tokens) = 4" "tk_tokens (addEOB twenty_a_tokens) 3 = 256"
    "map (tk_tokens (addEOB twenty_a_tokens)) [0..<3] = [97, 97, 1136721921]"
    by (simp_all add: addEOB_def twenty_a_tokens_eq upt_rec)
  show ?thesis
    apply (simp add: writeBlockDynamic_def Let_def storedSize_def twenty_a_tokens_fixedSize
        close_last_header_noop h MAX_STORE_BLOCK_SIZE_def)
    apply (simp add: writeTokens_def t twenty_a_tokens_token lit97_token Let_def writeCode_def
        END_BLOCK_MARKER_def fixedLiteral_nth code64_set hcode_len_set reverseBits_0_7)
    apply (simp add: writeFixedHeader_def writeBits_def close_last_header_noop h put_bits_small
        HuffmanBitWriter_new_def)
    apply (simp add: flush_def close_last_header_noop)
    apply (simp add: flush_loop.simps output_bytes_def upt_rec)
    done
qed

text \<open>
  The block of 65 534 bytes \<^verbatim>\<open>a\<close> with the tokens \<open>long_run_tokens\<close>: the histograms, the
  size with the fixed codes, and the codes that \<^verbatim>\<open>generate\<close> computes from the histograms.
\<close>

lemma lengthCodes1_255: "lengthCodes1 ! 255 = 29"
  by (simp add: lengthCodes1_def)

lemma addMatchLong_loop_258:
  "tk_extraHist (addMatchLong_loop oc xo (258 * int k) t)
     = (tk_extraHist t)(29 := tk_extraHist t 29 + of_nat k)
   \<and> tk_offHist (addMatchLong_loop oc xo (258 * int k) t)
     = (tk_offHist t)(unat (oc AND 31) := tk_offHist t (unat (oc AND 31)) + of_nat k)
   \<and> tk_litHist (addMatchLong_loop oc xo (258 * int k) t) = tk_litHist t
   \<and> tk_n (addMatchLong_loop oc xo (258 * int k) t) = tk_n t + of_nat k"
proof (induction k arbitrary: t)
  case 0
  show ?case by (subst (1 2 3 4) addMatchLong_loop.simps) simp
next
  case (Suc k)
  let ?t = "t\<lparr>tk_extraHist := (tk_extraHist t)(29 := tk_extraHist t 29 + 1),
               tk_offHist := (tk_offHist t)(unat (oc AND 31) := tk_offHist t (unat (oc AND 31)) + 1),
               tk_tokens := (tk_tokens t)(unat (tk_n t) :=
                              MATCH_TYPE OR push_bit LENGTH_SHIFT (word_of_int 255 :: 32 word) OR xo),
               tk_n := tk_n t + 1\<rparr>"
  have s: "addMatchLong_loop oc xo (258 * int (Suc k)) t = addMatchLong_loop oc xo (258 * int k) ?t"
    by (subst addMatchLong_loop.simps) (simp add: Let_def lengthCodes1_255)
  show ?case
    unfolding s using Suc.IH [of ?t] by (auto simp add: fun_eq_iff)
qed

lemma long_run_tokens_hist:
  "tk_litHist long_run_tokens = (\<lambda>_. 0)(97 := 2)"
  "tk_extraHist long_run_tokens = (\<lambda>_. 0)(29 := 254)"
  "tk_offHist long_run_tokens = (\<lambda>_. 0)(1 := 254)"
  "tk_n long_run_tokens = 256"
  using addMatchLong_loop_258 [of 1 "1 OR push_bit 16 1" 254
      "addLiteral (addLiteral (Tokens_reset zero_tokens) 0x61) 0x61"]
  by (simp_all add: long_run_tokens_def addMatchLong_def Let_def offsetCode_1 addLiteral_def
      Tokens_reset_def zero_tokens_def)


lemma long_run_lf:
  "bw_literalFreq (indexTokens w (addEOB long_run_tokens) True) i =
     (if i = 97 then 2 else if i = 256 then 1 else if i = 285 then 254
      else if i < 288 then 0 else bw_literalFreq w i)"
  by (auto simp add: indexTokens_def Let_def addEOB_def long_run_tokens_hist END_BLOCK_MARKER_def)

lemma long_run_of:
  "bw_offsetFreq (indexTokens w (addEOB long_run_tokens) True) = (\<lambda>_. 0)(1 := 254)"
  by (simp add: long_run_tokens_hist)

lemma long_run_extraBits:
  "extraBitSize (indexTokens w (addEOB long_run_tokens) True) = 0"
proof -
  let ?w = "indexTokens w (addEOB long_run_tokens) True"
  let ?f = "bw_literalFreq ?w"
  let ?x = "\<lambda>i. int (unat (?f (257 + i))) * int (unat (lengthExtraBits ! (i mod 32)))"
  let ?y = "\<lambda>i. int (unat (bw_offsetFreq ?w i)) * int (unat (offsetExtraBits ! (i mod 32)))"
  have "sum_list (map ?x [0..<29]) = sum_list (map ?x [28])"
    by (rule sum_list_support) (simp_all add: long_run_lf)
  also have "\<dots> = 0"
    by (simp add: long_run_lf lengthExtraBits_def)
  finally have x: "sum_list (map ?x [0..<29]) = 0" .
  have "sum_list (map ?y [0..<30]) = sum_list (map ?y [1])"
    by (rule sum_list_support) (simp_all add: long_run_of long_run_tokens_hist)
  also have "\<dots> = 0"
    by (simp add: long_run_of long_run_tokens_hist offsetExtraBits_def)
  finally have y: "sum_list (map ?y [0..<30]) = 0" .
  show ?thesis
    unfolding extraBitSize_def LITERAL_COUNT_def OFFSET_CODE_COUNT_def using x y by simp
qed

lemma long_run_fixedSize:
  "fixedSize (HuffmanBitWriter_generate (indexTokens w (addEOB long_run_tokens) True))
     (extraBitSize (indexTokens w (addEOB long_run_tokens) True)) = 3328"
proof -
  let ?w = "indexTokens w (addEOB long_run_tokens) True"
  let ?f = "bw_literalFreq ?w"
  let ?g = "\<lambda>i. if ?f i \<noteq> 0
      then int (unat (?f i)) * int (unat (hcode_len (he_codes fixedLiteralEncoding ! i))) else 0"
  have "sum_list (map ?g [0..<286]) = sum_list (map ?g [97, 256, 285])"
    by (rule sum_list_support) (simp_all add: long_run_lf)
  also have "\<dots> = 2055"
    by (simp add: long_run_lf fixedLiteral_nth hcode_len_set)
  finally have l: "bitLength fixedLiteralEncoding ?f LITERAL_COUNT = 2055"
    by (simp add: bitLength_def LITERAL_COUNT_def fixedLiteral_length)
  let ?h = "tk_offHist long_run_tokens"
  let ?o = "\<lambda>i. if ?h i \<noteq> 0
      then int (unat (?h i)) * int (unat (hcode_len (he_codes fixedOffsetEncoding ! i)))
      else 0"
  have "sum_list (map ?o [0..<30]) = sum_list (map ?o [1])"
    by (rule sum_list_support) (simp_all add: long_run_tokens_hist)
  also have "\<dots> = 1270"
    by (simp add: long_run_tokens_hist fixedOffset_nth hcode_len_set)
  finally have o: "bitLength fixedOffsetEncoding ?h OFFSET_CODE_COUNT = 1270"
    by (simp add: bitLength_def OFFSET_CODE_COUNT_def fixedOffset_length)
  have e: "extraBitSize ?w = 0"
    by (rule long_run_extraBits)
  show ?thesis
    using l o by (simp add: fixedSize_def e)
qed

lemma filter_support:
  assumes "sorted S" and "distinct S" and "set S \<subseteq> {0..<n}"
    and "\<And>i. i < n \<Longrightarrow> (f i \<noteq> 0) = (i \<in> set S)"
  shows "filter (\<lambda>p. snd p \<noteq> 0) (map (\<lambda>i. (i, f i)) [0..<n]) = map (\<lambda>i. (i, f i)) S"
proof -
  have "filter (\<lambda>i. f i \<noteq> 0) [0..<n] = S"
  proof (rule sorted_distinct_set_unique)
    show "sorted (filter (\<lambda>i. f i \<noteq> 0) [0..<n])"
      by (simp add: sorted_wrt_filter)
    show "set (filter (\<lambda>i. f i \<noteq> 0) [0..<n]) = set S"
    proof (rule set_eqI)
      fix x
      show "x \<in> set (filter (\<lambda>i. f i \<noteq> 0) [0..<n]) \<longleftrightarrow> x \<in> set S"
      proof (cases "x < n")
        case True
        then show ?thesis using assms(4) [of x] by simp
      next
        case False
        then show ?thesis using assms(3) by auto
      qed
    qed
  qed (simp_all add: assms)
  then show ?thesis
    by (simp add: filter_map comp_def)
qed

lemma cleared_codes_length:
  "length (foldl (\<lambda>c i. if f i \<noteq> 0 then c else c[i := z]) c0 xs) = length c0"
  by (induction xs arbitrary: c0) simp_all

lemma bitCounts_3: "bitCounts 3 15 = (\<lambda>_. 0)(2 := 3)"
proof -
  have b: "bitCounts_bits 1 1 2 4 = 2" "bitCounts_bits 1 1 2 3 = 2" "bitCounts_bits 1 1 2 2 = 2"
    by (simp_all add: bitCounts_bits.simps [of 1] bitCounts_bits.simps [of 2] tdiv_def)
  have "bitCounts_loop (Suc (Suc (Suc 0))) 2 (\<lambda>_. 0) 4 = (\<lambda>_. 0)(2 := 3)"
    by (simp add: b Let_def fun_eq_iff)
  then show ?thesis
    by (simp add: bitCounts_def eval_nat_numeral)
qed


lemma new_literal_codes: "he_codes (HuffmanEncoder_new LITERAL_COUNT) = replicate 512 0"
  by (simp add: HuffmanEncoder_new_def LITERAL_COUNT_def CLZ32_285)

lemma new_offset_codes: "he_codes (HuffmanEncoder_new OFFSET_CODE_COUNT) = replicate 32 0"
  by (simp add: HuffmanEncoder_new_def OFFSET_CODE_COUNT_def CLZ32_29)

lemma long_run_literal_list:
  "filter (\<lambda>p. snd p \<noteq> 0)
     (map (\<lambda>i. (i, bw_literalFreq (indexTokens w (addEOB long_run_tokens) True) i)) [0..<286])
   = [(97, 2), (256, 1), (285, 254)]"
proof -
  let ?f = "bw_literalFreq (indexTokens w (addEOB long_run_tokens) True)"
  have "filter (\<lambda>p. snd p \<noteq> 0) (map (\<lambda>i. (i, ?f i)) [0..<286]) = map (\<lambda>i. (i, ?f i)) [97, 256, 285]"
    by (rule filter_support) (auto simp add: long_run_lf)
  then show ?thesis
    by (simp add: long_run_lf)
qed

lemma long_run_offset_list:
  "filter (\<lambda>p. snd p \<noteq> 0) (map (\<lambda>i. (i, tk_offHist long_run_tokens i)) [0..<30]) = [(1, 254)]"
proof -
  let ?f = "tk_offHist long_run_tokens"
  have "filter (\<lambda>p. snd p \<noteq> 0) (map (\<lambda>i. (i, ?f i)) [0..<30]) = map (\<lambda>i. (i, ?f i)) [1]"
    by (rule filter_support) (auto simp add: long_run_tokens_hist)
  then show ?thesis
    by (simp add: long_run_tokens_hist)
qed

lemma long_run_literal_lengths:
  fixes w :: HuffmanBitWriter
  assumes "length (he_codes (bw_literalEncoding w)) = 512"
  defines "e \<equiv> HuffmanEncoder_generate (bw_literalEncoding w)
        (bw_literalFreq (indexTokens w (addEOB long_run_tokens) True)) LITERAL_COUNT 15"
  shows "length (he_codes e) = 512"
    and "hcode_len (he_codes e ! 97) = 2"
    and "hcode_len (he_codes e ! 256) = 2"
    and "hcode_len (he_codes e ! 285) = 2"
proof -
  let ?f = "bw_literalFreq (indexTokens w (addEOB long_run_tokens) True)"
  define c1 where "c1 = foldl (\<lambda>c i. if ?f i \<noteq> 0 then c else c[i := 0])
      (he_codes (bw_literalEncoding w)) [0..<286]"
  have l: "length c1 = 512"
    by (simp add: c1_def cleared_codes_length assms(1))
  have s: "sort_key (\<lambda>p. unat (snd p)) [(97 :: nat, 2 :: 16 word), (256, 1), (285, 254)]
      = [(256, 1), (97, 2), (285, 254)]"
    by simp
  have a: "assignEncodingAndSize ((\<lambda>_. 0)(2 := 3)) [(256, 1), (97, 2), (285, 254)] c1
      = c1[97 := hcode_set (reverseBits 0 2) 2, 256 := hcode_set (reverseBits 1 2) 2,
           285 := hcode_set (reverseBits 2 2) 2]"
  proof -
    let ?bc = "(\<lambda>_. 0 :: int)(2 := 3)"
    let ?rl = "[(285 :: nat, 254 :: 16 word), (97, 2), (256, 1)]"
    have a3: "assign_loop 3 ?bc code [] codes = codes" for code codes
      by (subst assign_loop.simps) simp
    have a2: "assign_loop 2 ?bc 0 ?rl c1
        = c1[97 := hcode_set (reverseBits 0 2) 2, 256 := hcode_set (reverseBits 1 2) 2,
             285 := hcode_set (reverseBits 2 2) 2]"
      by (subst assign_loop.simps) (simp add: a3 assign_symbols_def)
    have a1: "assign_loop 1 ?bc 0 ?rl c1 = assign_loop 2 ?bc 0 ?rl c1"
      by (subst assign_loop.simps) (simp add: assign_symbols_def eval_nat_numeral)
    show ?thesis
      unfolding assignEncodingAndSize_def using a1 a2 by simp
  qed
  have e: "he_codes e = c1[97 := hcode_set (reverseBits 0 2) 2, 256 := hcode_set (reverseBits 1 2) 2,
           285 := hcode_set (reverseBits 2 2) 2]"
    unfolding e_def HuffmanEncoder_generate_def LITERAL_COUNT_def
    by (simp add: long_run_literal_list Let_def s bitCounts_3 [unfolded numeral_3_eq_3]
        a [unfolded c1_def] c1_def del: sort_key_simps)
  show "length (he_codes e) = 512" "hcode_len (he_codes e ! 97) = 2"
    "hcode_len (he_codes e ! 256) = 2" "hcode_len (he_codes e ! 285) = 2"
    by (simp_all add: e l hcode_len_set)
qed


lemma long_run_offset_lengths:
  assumes "length (he_codes h) = 32"
  defines "e \<equiv> HuffmanEncoder_generate h (tk_offHist long_run_tokens) OFFSET_CODE_COUNT 15"
  shows "length (he_codes e) = 32" and "hcode_len (he_codes e ! 1) = 1"
proof -
  let ?f = "tk_offHist long_run_tokens"
  define c1 where "c1 = foldl (\<lambda>c i. if ?f i \<noteq> 0 then c else c[i := 0]) (he_codes h) [0..<30]"
  have l: "length c1 = 32"
    by (simp add: c1_def cleared_codes_length assms(1))
  have e: "he_codes e = c1[1 := hcode_set 0 1]"
    unfolding e_def HuffmanEncoder_generate_def OFFSET_CODE_COUNT_def
    by (simp add: long_run_offset_list Let_def c1_def)
  show "length (he_codes e) = 32" "hcode_len (he_codes e ! 1) = 1"
    by (simp_all add: e l hcode_len_set)
qed

lemma long_run_generated_size:
  fixes w :: HuffmanBitWriter
  assumes "length (he_codes (bw_literalEncoding w)) = 512"
    and "length (he_codes (bw_offsetEncoding w)) = 32"
  defines "w1 \<equiv> HuffmanBitWriter_generate (indexTokens w (addEOB long_run_tokens) True)"
  shows "bitLength (bw_literalEncoding w1) (bw_literalFreq w1) LITERAL_COUNT = 514"
    and "bitLength (bw_offsetEncoding w1) (bw_offsetFreq w1) OFFSET_CODE_COUNT = 254"
proof -
  let ?w = "indexTokens w (addEOB long_run_tokens) True"
  let ?f = "bw_literalFreq ?w"
  define e where "e = HuffmanEncoder_generate (bw_literalEncoding w) ?f LITERAL_COUNT 15"
  have le: "bw_literalEncoding w1 = e"
    by (simp add: w1_def e_def HuffmanBitWriter_generate_def indexTokens_def Let_def)
  have lf: "bw_literalFreq w1 = ?f" and lo: "bw_offsetFreq w1 = tk_offHist long_run_tokens"
    by (simp_all add: w1_def)
  note el = long_run_literal_lengths [OF assms(1), folded e_def]
  let ?g = "\<lambda>i. if ?f i \<noteq> 0
      then int (unat (?f i)) * int (unat (hcode_len (he_codes e ! i))) else 0"
  have "sum_list (map ?g [0..<286]) = sum_list (map ?g [97, 256, 285])"
    by (rule sum_list_support) (simp_all add: long_run_lf)
  also have "\<dots> = 514"
    by (simp add: long_run_lf el)
  finally show "bitLength (bw_literalEncoding w1) (bw_literalFreq w1) LITERAL_COUNT = 514"
    unfolding bitLength_def LITERAL_COUNT_def le lf by (simp add: el)
  let ?h = "tk_offHist long_run_tokens"
  define oenc where "oenc = HuffmanEncoder_generate (bw_offsetEncoding w) ?h OFFSET_CODE_COUNT 15"
  have oe: "bw_offsetEncoding w1 = oenc"
    by (simp add: w1_def oenc_def HuffmanBitWriter_generate_def indexTokens_def Let_def)
  note ol = long_run_offset_lengths [OF assms(2), folded oenc_def]
  let ?k = "\<lambda>i. if ?h i \<noteq> 0
      then int (unat (?h i)) * int (unat (hcode_len (he_codes oenc ! i))) else 0"
  have "sum_list (map ?k [0..<30]) = sum_list (map ?k [1])"
    by (rule sum_list_support) (simp_all add: long_run_tokens_hist)
  also have "\<dots> = 254"
    by (simp add: long_run_tokens_hist ol [unfolded One_nat_def])
  finally show "bitLength (bw_offsetEncoding w1) (bw_offsetFreq w1) OFFSET_CODE_COUNT = 254"
    unfolding bitLength_def OFFSET_CODE_COUNT_def oe lo by (simp add: ol)
qed

lemma fresh_writer_tables:
  "length (he_codes (bw_literalEncoding HuffmanBitWriter_new)) = 512"
  "length (he_codes (bw_offsetEncoding HuffmanBitWriter_new)) = 32"
  "bw_lastHeader HuffmanBitWriter_new = 0"
  by (simp_all add: HuffmanBitWriter_new_def new_literal_codes new_offset_codes)

text \<open>
  Claim C2. The branch \<open>0 < tokens.n \<le> blockSize - blockSize / 16\<close> never writes a
  dynamic-Huffman block. \<^verbatim>\<open>writeBlockDynamic\<close> adds the end-of-block token, counts the tokens
  and calls \<^verbatim>\<open>generate\<close>, but the codes it generates are not used: the size compared with
  the stored size is \<^verbatim>\<open>fixedSize\<close>, and the block written is either the stored block or the
  three header bits of a fixed-Huffman block (3 for the last block, else 2) followed by
  the tokens in the fixed codes of RFC 1951. \<^verbatim>\<open>writeDynamicHeader\<close> is not called.
\<close>

theorem dynamic_branch_writes_fixed_block:
  assumes "tk_n t \<noteq> 0" and "unat (tk_n t) \<le> length block - drop_bit 4 (length block)"
  shows "write_encoded_block w t block isLast =
     (let t1 = addEOB t;
          w1 = HuffmanBitWriter_generate (indexTokens (close_last_header w) t1 True)
      in if length block \<le> MAX_STORE_BLOCK_SIZE
            \<and> (int (length block) + 5) * 8 \<le> fixedSize w1 (extraBitSize w1)
         then map_option (\<lambda>w2. (w2, t1))
                (writeBytes (writeStoredHeader w1 (int (length block)) isLast) block)
         else Some (writeTokens (writeBits w1 (if isLast then 3 else 2) 3)
                      (tk_tokens t1) (unat (tk_n t1))
                      (he_codes fixedLiteralEncoding) (he_codes fixedOffsetEncoding), t1))"
proof -
  have "write_encoded_block w t block isLast = writeBlockDynamic w t isLast block isLast"
    using assms by (simp add: write_encoded_block_def Let_def)
  then show ?thesis
    by (simp add: writeBlockDynamic_def Let_def storedSize_def write_stored_block_def
        writeFixedHeader_def close_last_header_closed close_last_header_lastHeader)
qed

text \<open>
  The block of 65 534 bytes \<^verbatim>\<open>a\<close> with its 256 tokens takes this branch on a new writer. Its
  stored size is 524 312 bits and its size with the fixed codes 3328 bits, and the
  fixed-Huffman block is written. The codes that \<^verbatim>\<open>generate\<close> has computed for this block
  give every literal/length symbol 2 bits and the one offset symbol 1 bit: with them the
  tokens take 514 + 254 = 768 bits and no extra bits.
\<close>

theorem dynamic_branch_writes_fixed_block_witness:
  "tk_n long_run_tokens \<noteq> 0 \<and>
   unat (tk_n long_run_tokens)
     \<le> length (replicate 65534 (0x61 :: byte)) - drop_bit 4 (length (replicate 65534 (0x61 :: byte))) \<and>
   (let t1 = addEOB long_run_tokens;
        w1 = HuffmanBitWriter_generate (indexTokens HuffmanBitWriter_new t1 True)
    in write_encoded_block HuffmanBitWriter_new long_run_tokens (replicate 65534 0x61) True =
         Some (writeTokens (writeBits w1 3 3) (tk_tokens t1) (unat (tk_n t1))
                 (he_codes fixedLiteralEncoding) (he_codes fixedOffsetEncoding), t1)
       \<and> fst (storedSize (replicate 65534 0x61)) = 524312
       \<and> fixedSize w1 (extraBitSize w1) = 3328
       \<and> bitLength (bw_literalEncoding w1) (bw_literalFreq w1) LITERAL_COUNT = 514
       \<and> bitLength (bw_offsetEncoding w1) (bw_offsetFreq w1) OFFSET_CODE_COUNT = 254
       \<and> extraBitSize w1 = 0)"
proof -
  let ?b = "replicate 65534 (0x61 :: byte)"
  let ?w = "HuffmanBitWriter_generate (indexTokens HuffmanBitWriter_new (addEOB long_run_tokens) True)"
  have a: "tk_n long_run_tokens \<noteq> 0"
    by (simp add: long_run_tokens_hist)
  have b: "unat (tk_n long_run_tokens) \<le> length ?b - drop_bit 4 (length ?b)"
    by (simp add: long_run_tokens_hist drop_bit_eq_div)
  have c: "close_last_header HuffmanBitWriter_new = HuffmanBitWriter_new"
    by (simp add: close_last_header_noop fresh_writer_tables)
  have f: "fixedSize ?w (extraBitSize ?w) = 3328"
    using long_run_fixedSize [of HuffmanBitWriter_new] by simp
  have s: "fst (storedSize ?b) = 524312"
    by (simp add: storedSize_def MAX_STORE_BLOCK_SIZE_def)
  have x: "extraBitSize ?w = 0"
    by (simp add: long_run_extraBits)
  have "write_encoded_block HuffmanBitWriter_new long_run_tokens ?b True =
      Some (writeTokens (writeBits ?w 3 3) (tk_tokens (addEOB long_run_tokens))
              (unat (tk_n (addEOB long_run_tokens)))
              (he_codes fixedLiteralEncoding) (he_codes fixedOffsetEncoding), addEOB long_run_tokens)"
    using dynamic_branch_writes_fixed_block [OF a b, of HuffmanBitWriter_new True]
    by (simp add: Let_def c long_run_fixedSize)
  then show ?thesis
    using a b s f x long_run_generated_size [OF fresh_writer_tables(1,2)]
    by (simp add: Let_def)
qed


subsection \<open>The choice of the block writer\<close>





lemma huff_counted_lastHeader [simp]:
  "bw_lastHeader (huff_counted (huff_histogram w block)) = bw_lastHeader w"
  by (simp add: huff_counted_def huff_histogram_def histogram_def Let_def)











end
